(* ===== verification/Go_Net.thy ===== *)
theory Go_Net
  imports Go_Prelude
begin

text \<open>
  The part of Go's standard library \<^verbatim>\<open>net\<close> that the sources use: \<^verbatim>\<open>ParseIP\<close>, \<^verbatim>\<open>ParseCIDR\<close>,
  \<^verbatim>\<open>IP.To4\<close>, \<^verbatim>\<open>IP.Mask\<close>, \<^verbatim>\<open>CIDRMask\<close>, \<^verbatim>\<open>IPMask.Size\<close> and \<^verbatim>\<open>IP.String\<close> on four bytes. IPv4 and
  IPv6 texts are both parsed, since the policy validator accepts both while the map loader
  takes only IPv4. A \<^verbatim>\<open>net.IP\<close> is its byte slice; an error is \<^const>\<open>None\<close>, because no caller
  reads the error value.

  The facts at the end say what the loader relies on: the network address that \<open>ParseCIDR\<close>
  returns has no bit set behind the prefix, and the mask's size is the number written in the text.
\<close>

section \<open>Bits of a byte string, most significant first\<close>

definition byte_bits :: "u8 \<Rightarrow> bool list" where
  "byte_bits b = map (\<lambda>i. bit b (7 - i)) [0..<8]"

definition bits_of :: "u8 list \<Rightarrow> bool list" where
  "bits_of bs = concat (map byte_bits bs)"

section \<open>\<open>netip.ParseAddr\<close>\<close>

record netip_addr =
  na_is4 :: bool
  na_16 :: "u8 list"
  na_zone :: string

definition v4InV6Prefix :: "u8 list" where
  "v4InV6Prefix = replicate 10 0 @ [0xFF, 0xFF]"

text \<open>\<open>bad\<close> says that the current character is the first one or follows a dot, where another dot
  is an error.\<close>

fun parseIPv4_loop :: "bool \<Rightarrow> nat \<Rightarrow> nat \<Rightarrow> u8 list \<Rightarrow> string \<Rightarrow> u8 list option" where
  "parseIPv4_loop bad v digLen fs [] =
     (if length fs < 3 then None else Some (fs @ [of_nat v]))"
| "parseIPv4_loop bad v digLen fs (c # s) =
     (if is_digit c then
        (if digLen = 1 \<and> v = 0 then None
         else if v * 10 + digit_val c > 255 then None
         else parseIPv4_loop False (v * 10 + digit_val c) (digLen + 1) fs s)
      else if c = CHR ''.'' then
        (if bad \<or> s = [] then None
         else if length fs = 3 then None
         else parseIPv4_loop True 0 0 (fs @ [of_nat v]) s)
      else None)"

definition parseIPv4Fields :: "string \<Rightarrow> u8 list option" where
  "parseIPv4Fields s = parseIPv4_loop True 0 0 [] s"

definition hex_val :: "char \<Rightarrow> nat option" where
  "hex_val c = (let n = (of_char c :: nat) in
     if 48 \<le> n \<and> n \<le> 57 then Some (n - 48)
     else if 97 \<le> n \<and> n \<le> 102 then Some (n - 87)
     else if 65 \<le> n \<and> n \<le> 70 then Some (n - 55)
     else None)"

fun hex_group :: "nat \<Rightarrow> nat \<Rightarrow> string \<Rightarrow> (nat \<times> nat \<times> string) option" where
  "hex_group off acc [] = Some (off, acc, [])"
| "hex_group off acc (c # s) =
     (case hex_val c of
        None \<Rightarrow> Some (off, acc, c # s)
      | Some d \<Rightarrow> if off > 3 then None
                  else if acc * 16 + d > 65535 then None
                  else hex_group (off + 1) (acc * 16 + d) s)"

text \<open>The loop of \<^verbatim>\<open>parseIPv6\<close>: the rest of the text, the bytes parsed so far, and the position of
  an ellipsis.\<close>

function parseIPv6_loop ::
  "string \<Rightarrow> u8 list \<Rightarrow> nat option \<Rightarrow> (u8 list \<times> nat option \<times> string) option" where
  "parseIPv6_loop s ip ell =
     (if 16 \<le> length ip then Some (ip, ell, s)
      else case hex_group 0 0 s of
        None \<Rightarrow> None
      | Some (off, acc, r) \<Rightarrow>
          if off = 0 then None
          else if HasPrefix r ''.'' then
            (if ell = None \<and> length ip \<noteq> 12 then None
             else if length ip + 4 > 16 then None
             else case parseIPv4Fields s of
                 None \<Rightarrow> None
               | Some f \<Rightarrow> Some (ip @ f, ell, []))
          else
            (let ip' = ip @ [of_nat (acc div 256), of_nat acc] in
             case r of
               [] \<Rightarrow> Some (ip', ell, [])
             | c # r1 \<Rightarrow>
                 if c \<noteq> CHR '':'' then None
                 else case r1 of
                     [] \<Rightarrow> None
                   | d # r2 \<Rightarrow>
                       if d = CHR '':'' then
                         (if ell \<noteq> None then None
                          else if r2 = [] then Some (ip', Some (length ip'), [])
                          else parseIPv6_loop r2 ip' (Some (length ip')))
                       else parseIPv6_loop r1 ip' ell))"
  by pat_completeness auto
termination
  by (relation "measure (\<lambda>(s, ip, ell). 16 - length ip)") auto

declare parseIPv6_loop.simps [simp del]

definition parseIPv6_finish :: "u8 list \<times> nat option \<times> string \<Rightarrow> u8 list option" where
  "parseIPv6_finish st = (case st of (ip, ell, s) \<Rightarrow>
     if s \<noteq> [] then None
     else if length ip < 16 then
       (case ell of
          None \<Rightarrow> None
        | Some e \<Rightarrow> Some (take e ip @ replicate (16 - length ip) 0 @ drop e ip))
     else if ell \<noteq> None then None
     else Some ip)"

definition parseIPv6 :: "string \<Rightarrow> netip_addr option" where
  "parseIPv6 txt =
     (let s = takeWhile (\<lambda>c. c \<noteq> CHR ''%'') txt; hasZone = CHR ''%'' \<in> set txt;
          zone = drop (length s + 1) txt in
      if hasZone \<and> zone = [] then None
      else if s = ''::'' then Some \<lparr>na_is4 = False, na_16 = replicate 16 0, na_zone = zone\<rparr>
      else
        let start = (if HasPrefix s ''::'' then parseIPv6_loop (drop 2 s) [] (Some 0)
                     else parseIPv6_loop s [] None) in
        map_option (\<lambda>b. \<lparr>na_is4 = False, na_16 = b, na_zone = zone\<rparr>)
          (Option.bind start parseIPv6_finish))"

definition parseIPv4 :: "string \<Rightarrow> netip_addr option" where
  "parseIPv4 s = map_option (\<lambda>f. \<lparr>na_is4 = True, na_16 = v4InV6Prefix @ f, na_zone = []\<rparr>) (parseIPv4Fields s)"

definition ParseAddr :: "string \<Rightarrow> netip_addr option" where
  "ParseAddr s =
     (case find (\<lambda>c. c = CHR ''.'' \<or> c = CHR '':'' \<or> c = CHR ''%'') s of
        None \<Rightarrow> None
      | Some c \<Rightarrow> if c = CHR ''.'' then parseIPv4 s
                  else if c = CHR '':'' then parseIPv6 s
                  else None)"

section \<open>\<open>ParseIP\<close>, \<open>To4\<close>, \<open>ParseCIDR\<close>\<close>

definition ParseIP :: "string \<Rightarrow> u8 list option" where
  "ParseIP s = (case ParseAddr s of
      None \<Rightarrow> None
    | Some a \<Rightarrow> if na_zone a \<noteq> [] then None else Some (na_16 a))"

definition To4 :: "u8 list \<Rightarrow> u8 list option" where
  "To4 ip =
     (if length ip = 4 then Some ip
      else if length ip = 16 \<and> take 12 ip = v4InV6Prefix then Some (drop 12 ip)
      else None)"

record IPNet =
  net_IP :: "u8 list"
  net_Mask :: "u8 list"

definition mask_byte :: "nat \<Rightarrow> u8" where
  "mask_byte n = NOT (drop_bit n 0xFF)"

text \<open>\<^verbatim>\<open>CIDRMask\<close>: the number of ones, and the length in bytes.\<close>

fun CIDRMask :: "nat \<Rightarrow> nat \<Rightarrow> u8 list" where
  "CIDRMask n 0 = []"
| "CIDRMask n (Suc l) =
     (if 8 \<le> n then 0xFF # CIDRMask (n - 8) l else mask_byte n # CIDRMask 0 l)"

text \<open>\<^verbatim>\<open>IP.Mask\<close>, where the result is nil when the lengths do not fit.\<close>

definition IP_Mask :: "u8 list \<Rightarrow> u8 list \<Rightarrow> u8 list" where
  "IP_Mask ip m =
     (let m' = (if length m = 16 \<and> length ip = 4 \<and> take 12 m = replicate 12 0xFF
                then drop 12 m else m);
          ip' = (if length m' = 4 \<and> length ip = 16 \<and> take 12 ip = v4InV6Prefix
                 then drop 12 ip else ip) in
      if length ip' \<noteq> length m' then [] else map2 (AND) ip' m')"

text \<open>The inner loop of \<^verbatim>\<open>simpleMaskLength\<close> shifts a byte left while its top bit is set; a byte has
  eight bits, so nine rounds are enough.\<close>

fun count_ones :: "nat \<Rightarrow> u8 \<Rightarrow> nat \<times> u8" where
  "count_ones 0 v = (0, v)"
| "count_ones (Suc k) v =
     (if v AND 0x80 \<noteq> 0 then (case count_ones k (push_bit 1 v) of (n, w) \<Rightarrow> (n + 1, w)) else (0, v))"

fun simpleMaskLength :: "u8 list \<Rightarrow> nat option" where
  "simpleMaskLength [] = Some 0"
| "simpleMaskLength (v # vs) =
     (if v = 0xFF then map_option (\<lambda>n. 8 + n) (simpleMaskLength vs)
      else case count_ones 9 v of (n, w) \<Rightarrow>
        if w \<noteq> 0 \<or> (\<exists>x \<in> set vs. x \<noteq> 0) then None else Some n)"

text \<open>\<^verbatim>\<open>IPMask.Size\<close>, its first component.\<close>

definition Mask_Size :: "u8 list \<Rightarrow> nat" where
  "Mask_Size m = (case simpleMaskLength m of None \<Rightarrow> 0 | Some n \<Rightarrow> n)"

fun dtoi :: "nat \<Rightarrow> string \<Rightarrow> (nat \<times> string) option" where
  "dtoi n [] = Some (n, [])"
| "dtoi n (c # s) =
     (if is_digit c then
        (if n * 10 + digit_val c \<ge> 0xFFFFFF then None else dtoi (n * 10 + digit_val c) s)
      else Some (n, c # s))"

definition BitLen :: "netip_addr \<Rightarrow> nat" where
  "BitLen a = (if na_is4 a then 32 else 128)"

text \<open>\<^verbatim>\<open>ParseCIDR\<close> returns the address and its network; the sources drop the address.\<close>

definition ParseCIDR :: "string \<Rightarrow> IPNet option" where
  "ParseCIDR s =
     (if CHR ''/'' \<notin> set s then None
      else
        let ad = takeWhile (\<lambda>c. c \<noteq> CHR ''/'') s; mtxt = drop (length ad + 1) s in
        case ParseAddr ad of
          None \<Rightarrow> None
        | Some a \<Rightarrow>
            if na_zone a \<noteq> [] \<or> mtxt = [] then None
            else case dtoi 0 mtxt of
              None \<Rightarrow> None
            | Some (n, rest) \<Rightarrow>
                if rest \<noteq> [] \<or> n > BitLen a then None
                else let m = CIDRMask n (BitLen a div 8) in
                  Some \<lparr>net_IP = IP_Mask (na_16 a) m, net_Mask = m\<rparr>)"

text \<open>\<^verbatim>\<open>IP.String\<close> on a slice of four bytes.\<close>

definition IP4_String :: "u8 list \<Rightarrow> string" where
  "IP4_String ip = (case ip of
      [a, b, c, d] \<Rightarrow> dec (unat a) @ ''.'' @ dec (unat b) @ ''.'' @ dec (unat c) @ ''.'' @ dec (unat d)
    | _ \<Rightarrow> [])"

section \<open>Bit-level facts about masks\<close>

lemma length_byte_bits [simp]: "length (byte_bits b) = 8"
  by (simp add: byte_bits_def)

lemma bits_of_simps [simp]:
  "bits_of [] = []"
  "bits_of (b # bs) = byte_bits b @ bits_of bs"
  "bits_of (bs @ cs) = bits_of bs @ bits_of cs"
  by (simp_all add: bits_of_def)

lemma length_bits_of [simp]: "length (bits_of bs) = 8 * length bs"
  by (induction bs) simp_all

lemma byte_bits_nth: "i < 8 \<Longrightarrow> byte_bits b ! i = bit b (7 - i)"
  by (simp add: byte_bits_def)

lemma byte_bits_inject [simp]: "byte_bits a = byte_bits b \<longleftrightarrow> a = b"
proof
  assume eq: "byte_bits a = byte_bits b"
  have "bit a n = bit b n" if "n < 8" for n
    using arg_cong [OF eq, of "\<lambda>xs. xs ! (7 - n)"] that by (simp add: byte_bits_nth)
  then show "a = b" by (auto intro: bit_word_eqI)
qed simp

lemma bits_of_inject [simp]: "bits_of as = bits_of bs \<longleftrightarrow> as = bs"
proof
  show "bits_of as = bits_of bs \<Longrightarrow> as = bs"
  proof (induction as arbitrary: bs)
    case Nil
    then have "8 * length bs = 0" by (metis bits_of_simps(1) length_bits_of list.size(3) mult_0_right)
    then show ?case by simp
  next
    case (Cons a as)
    from arg_cong [OF Cons.prems, of length] obtain b bs' where bs: "bs = b # bs'"
      by (cases bs) auto
    with Cons show ?case by simp
  qed
qed simp

lemma byte_bits_and: "byte_bits (a AND b) = map2 (\<and>) (byte_bits a) (byte_bits b)"
  by (rule nth_equalityI) (simp_all add: byte_bits_nth bit_and_iff)

lemma bits_of_and:
  "length as = length bs \<Longrightarrow> bits_of (map2 (AND) as bs) = map2 (\<and>) (bits_of as) (bits_of bs)"
  by (induction as bs rule: list_induct2) (simp_all add: byte_bits_and)

lemma bit_ff: "bit (255 :: int) n \<longleftrightarrow> n < 8"
proof -
  have "(255 :: int) = mask 8" by (simp add: mask_eq_exp_minus_1)
  then show ?thesis by (simp only: bit_mask_iff possible_bit_int) simp
qed

lemma byte_bits_mask: "n < 8 \<Longrightarrow> byte_bits (mask_byte n) = replicate n True @ replicate (8 - n) False"
  by (rule nth_equalityI)
    (auto simp: byte_bits_nth mask_byte_def bit_simps nth_append not_less bit_ff)

lemma byte_bits_ff: "byte_bits 0xFF = replicate 8 True"
  by (intro nth_equalityI) (auto simp: byte_bits_nth bit_ff)

lemma length_CIDRMask [simp]: "length (CIDRMask n l) = l"
  by (induction n l rule: CIDRMask.induct) auto

lemma bits_of_CIDRMask:
  "n \<le> 8 * l \<Longrightarrow> bits_of (CIDRMask n l) = replicate n True @ replicate (8 * l - n) False"
proof (induction n l rule: CIDRMask.induct)
  case (2 n l)
  show ?case
  proof (cases "8 \<le> n")
    case True
    then have "replicate n True = replicate 8 True @ replicate (n - 8) True"
      by (simp flip: replicate_add)
    with True 2 show ?thesis
      by (simp add: byte_bits_ff)
  next
    case False
    with 2 show ?thesis
      by (simp add: byte_bits_mask flip: replicate_add)
  qed
qed simp

lemma map2_and_replicate:
  "n \<le> length xs \<Longrightarrow> map2 (\<and>) xs (replicate n True @ replicate (length xs - n) False)
     = take n xs @ replicate (length xs - n) False"
  by (rule nth_equalityI) (auto simp: nth_append)

text \<open>Masking keeps the first \<open>n\<close> bits and clears the rest.\<close>

lemma bits_of_masked:
  assumes "length ip = l" and "n \<le> 8 * l"
  shows "bits_of (map2 (AND) ip (CIDRMask n l)) = take n (bits_of ip) @ replicate (8 * l - n) False"
  using map2_and_replicate [of n "bits_of ip"] assms by (simp add: bits_of_and bits_of_CIDRMask)

lemma mask_byte_values:
  "mask_byte 0 = 0" "mask_byte 1 = 0x80" "mask_byte 2 = 0xC0" "mask_byte 3 = 0xE0"
  "mask_byte 4 = 0xF0" "mask_byte 5 = 0xF8" "mask_byte 6 = 0xFC" "mask_byte 7 = 0xFE"
  by (simp_all add: mask_byte_def)

lemma mask_byte_Suc_0: "mask_byte (Suc 0) = 0x80"
  using mask_byte_values(2) by simp

lemma count_ones_step:
  "count_ones 9 v =
     (if v AND 0x80 \<noteq> 0 then (case count_ones 8 (push_bit 1 v) of (n, w) \<Rightarrow> (n + 1, w)) else (0, v))"
  "count_ones 8 v =
     (if v AND 0x80 \<noteq> 0 then (case count_ones 7 (push_bit 1 v) of (n, w) \<Rightarrow> (n + 1, w)) else (0, v))"
  "count_ones 7 v =
     (if v AND 0x80 \<noteq> 0 then (case count_ones 6 (push_bit 1 v) of (n, w) \<Rightarrow> (n + 1, w)) else (0, v))"
  "count_ones 6 v =
     (if v AND 0x80 \<noteq> 0 then (case count_ones 5 (push_bit 1 v) of (n, w) \<Rightarrow> (n + 1, w)) else (0, v))"
  "count_ones 5 v =
     (if v AND 0x80 \<noteq> 0 then (case count_ones 4 (push_bit 1 v) of (n, w) \<Rightarrow> (n + 1, w)) else (0, v))"
  "count_ones 4 v =
     (if v AND 0x80 \<noteq> 0 then (case count_ones 3 (push_bit 1 v) of (n, w) \<Rightarrow> (n + 1, w)) else (0, v))"
  "count_ones 3 v =
     (if v AND 0x80 \<noteq> 0 then (case count_ones 2 (push_bit 1 v) of (n, w) \<Rightarrow> (n + 1, w)) else (0, v))"
  "count_ones 2 v =
     (if v AND 0x80 \<noteq> 0 then (case count_ones 1 (push_bit 1 v) of (n, w) \<Rightarrow> (n + 1, w)) else (0, v))"
  by (simp_all only: eval_nat_numeral count_ones.simps One_nat_def BitM.simps pred_numeral_simps)

lemma count_ones_mask:
  assumes "n < 8"
  shows "count_ones 9 (mask_byte n) = (n, 0)"
proof -
  from assms consider "n = 0" | "n = 1" | "n = 2" | "n = 3" | "n = 4" | "n = 5" | "n = 6" | "n = 7"
    by linarith
  then show ?thesis by cases (simp_all add: mask_byte_values mask_byte_Suc_0 count_ones_step)
qed

lemma mask_byte_neq:
  assumes "n < 8"
  shows "mask_byte n \<noteq> 0xFF"
proof -
  have "\<not> last (byte_bits (mask_byte n))" and "last (byte_bits 0xFF)"
    using assms by (simp_all add: byte_bits_mask byte_bits_ff)
  then show ?thesis by auto
qed

lemma CIDRMask_0: "CIDRMask 0 l = replicate l 0"
  by (induction l) (simp_all add: mask_byte_def)

lemma simpleMaskLength_CIDRMask: "n \<le> 8 * l \<Longrightarrow> simpleMaskLength (CIDRMask n l) = Some n"
  by (induction n l rule: CIDRMask.induct) (auto simp: mask_byte_neq count_ones_mask CIDRMask_0)

lemma Mask_Size_CIDRMask [simp]: "n \<le> 8 * l \<Longrightarrow> Mask_Size (CIDRMask n l) = n"
  by (simp add: Mask_Size_def simpleMaskLength_CIDRMask)

section \<open>The shape of what the parsers return\<close>

lemma parseIPv4_loop_length:
  "parseIPv4_loop bad v dl fs s = Some r \<Longrightarrow> length fs \<le> 3 \<Longrightarrow> length r = 4"
  by (induction bad v dl fs s rule: parseIPv4_loop.induct) (auto split: if_splits)

lemma parseIPv4Fields_length: "parseIPv4Fields s = Some r \<Longrightarrow> length r = 4"
  by (auto simp: parseIPv4Fields_def dest: parseIPv4_loop_length)

lemma parseIPv6_loop_step:
  assumes "parseIPv6_loop s ip ell = Some (ip', ell', s')" and "length ip < 16"
  shows "length ip' = length ip + 2 \<or> length ip' = length ip + 4 \<and> length ip \<le> 12
    \<or> (\<exists>s2 ip2 ell2. length ip2 = length ip + 2 \<and> parseIPv6_loop s2 ip2 ell2 = Some (ip', ell', s'))"
    (is "?A \<or> ?B \<or> ?C")
proof -
  have C: ?C if "parseIPv6_loop s2 (ip @ [x, y]) ell2 = Some (ip', ell', s')" for s2 x y ell2
    using that by (intro exI [of _ s2] exI [of _ "ip @ [x, y]"] exI [of _ ell2]) simp
  from assms show ?thesis
    by (auto simp: parseIPv6_loop.simps [of s] Let_def
        split: option.splits if_splits list.splits dest: C dest!: parseIPv4Fields_length)
qed

lemma parseIPv6_loop_length:
  "parseIPv6_loop s ip ell = Some (ip', ell', s') \<Longrightarrow> even (length ip) \<Longrightarrow> length ip \<le> 16 \<Longrightarrow>
     length ip' \<le> 16"
proof (induction "16 - length ip" arbitrary: s ip ell rule: less_induct)
  case less
  show ?case
  proof (cases "length ip < 16")
    case False
    with less.prems show ?thesis by (simp add: parseIPv6_loop.simps [of s])
  next
    case True
    with less.prems(2) have "length ip \<le> 14"
      by (cases "length ip = 15") auto
    have later: "length ip' \<le> 16"
      if "length ip2 = Suc (Suc (length ip))" "parseIPv6_loop s2 ip2 ell2 = Some (ip', ell', s')" for s2 ip2 ell2
      using less.hyps [OF _ that(2)] that(1) less.prems(2) \<open>length ip \<le> 14\<close> by simp
    from parseIPv6_loop_step [OF less.prems(1) True] \<open>length ip \<le> 14\<close> show ?thesis
      by (auto dest: later)
  qed
qed

lemma parseIPv6_finish_length:
  "parseIPv6_finish (ip, ell, s) = Some b \<Longrightarrow> length ip \<le> 16 \<Longrightarrow> length b = 16"
  by (auto simp: parseIPv6_finish_def split: if_splits option.splits)

lemma parseIPv6_shape:
  assumes "parseIPv6 s = Some a"
  shows "length (na_16 a) = 16 \<and> \<not> na_is4 a"
  using assms
  by (auto simp: parseIPv6_def Let_def bind_eq_Some_conv split: if_splits
      dest!: parseIPv6_finish_length dest: parseIPv6_loop_length)

lemma ParseAddr_shape:
  assumes "ParseAddr s = Some a"
  shows "length (na_16 a) = 16" and "na_is4 a \<Longrightarrow> take 12 (na_16 a) = v4InV6Prefix"
  using assms
  by (auto simp: ParseAddr_def parseIPv4_def v4InV6Prefix_def
      split: option.splits if_splits dest: parseIPv6_shape parseIPv4Fields_length)

text \<open>A parsed network is an address of four or sixteen bytes under a mask of the same length.\<close>

lemma ParseCIDR_shape:
  assumes "ParseCIDR s = Some net"
  obtains p l ip where "l = 4 \<or> l = 16" and "p \<le> 8 * l" and "length ip = l"
    and "net_Mask net = CIDRMask p l" and "net_IP net = map2 (AND) ip (CIDRMask p l)"
proof -
  let ?ad = "takeWhile (\<lambda>c. c \<noteq> CHR ''/'') s"
  from assms obtain a p where ad: "ParseAddr ?ad = Some a" and p: "p \<le> BitLen a"
    and net: "net = \<lparr>net_IP = IP_Mask (na_16 a) (CIDRMask p (BitLen a div 8)),
      net_Mask = CIDRMask p (BitLen a div 8)\<rparr>"
    by (auto simp: ParseCIDR_def Let_def not_less split: if_splits option.splits)
  show thesis
  proof (cases "na_is4 a")
    case True
    with ParseAddr_shape [OF ad] p net that [of 4 p "drop 12 (na_16 a)"] show thesis
      by (simp add: BitLen_def IP_Mask_def)
  next
    case False
    with ParseAddr_shape [OF ad] p net that [of 16 p "na_16 a"] show thesis
      by (simp add: BitLen_def IP_Mask_def)
  qed
qed

text \<open>The network's address as the loader stores it: either four bytes with every bit behind the
  prefix cleared, or an IPv4-mapped IPv6 network whose prefix is at least 96.\<close>

lemma ParseCIDR_To4:
  assumes "ParseCIDR s = Some net" and "To4 (net_IP net) = Some ip4"
  defines "p \<equiv> Mask_Size (net_Mask net)"
  shows "length ip4 = 4"
    and "p \<le> 32 \<Longrightarrow> length (net_IP net) = 4 \<and> drop p (bits_of ip4) = replicate (32 - p) False"
    and "32 < p \<Longrightarrow> 96 \<le> p \<and> p \<le> 128"
proof -
  from assms(1) obtain q l ip where l: "l = 4 \<or> l = 16" and q: "q \<le> 8 * l" and ip: "length ip = l"
    and net: "net_Mask net = CIDRMask q l" "net_IP net = map2 (AND) ip (CIDRMask q l)"
    by (rule ParseCIDR_shape)
  have pq: "p = q" using net q by (simp add: p_def)
  have len: "length (net_IP net) = l" using ip net by simp
  from assms(2) len l show "length ip4 = 4"
    by (auto simp: To4_def split: if_splits)
  have bits: "bits_of (net_IP net) = take q (bits_of ip) @ replicate (8 * l - q) False"
    using ip q net by (simp add: bits_of_masked)
  have mapped: "96 \<le> q" if "l = 16"
  proof (rule ccontr)
    assume "\<not> 96 \<le> q"
    with bits ip \<open>l = 16\<close> have "\<not> bits_of (net_IP net) ! 95"
      by (simp add: nth_append)
    moreover from assms(2) len \<open>l = 16\<close> have "take 12 (net_IP net) = v4InV6Prefix"
      by (auto simp: To4_def split: if_splits)
    then have "bits_of (net_IP net) = bits_of v4InV6Prefix @ bits_of (drop 12 (net_IP net))"
      by (metis append_take_drop_id bits_of_simps(3))
    ultimately show False
      by (simp add: v4InV6Prefix_def nth_append bits_of_def byte_bits_nth numeral_eq_Suc)
  qed
  show "length (net_IP net) = 4 \<and> drop p (bits_of ip4) = replicate (32 - p) False" if "p \<le> 32"
  proof -
    from l mapped that pq have "l = 4" by auto
    with assms(2) len bits ip q pq show ?thesis by (simp add: To4_def)
  qed
  show "96 \<le> p \<and> p \<le> 128" if "32 < p"
    using l mapped that pq q by auto
qed

section \<open>Printing and parsing IPv4 addresses\<close>

lemma dec_step: "10 \<le> n \<Longrightarrow> dec n = dec (n div 10) @ [digit_char (n mod 10)]"
  by (subst dec.simps) simp

lemma dec_small: "n < 10 \<Longrightarrow> dec n = [digit_char n]"
  by (subst dec.simps) simp

text \<open>Reading the digits of \<open>n\<close> continues the loop with value \<open>n\<close>, as long as \<open>n\<close> is a byte.\<close>

lemma parseIPv4_dec:
  "n \<le> 255 \<Longrightarrow>
     parseIPv4_loop bad 0 0 fs (dec n @ s) = parseIPv4_loop False n (length (dec n)) fs s"
proof (induction n arbitrary: s rule: dec.induct)
  case (1 n)
  show ?case
  proof (cases "n < 10")
    case True
    then show ?thesis by (simp add: dec_small)
  next
    case False
    then have "n div 10 * 10 + n mod 10 = n" and "n div 10 \<noteq> 0" and "n mod 10 < 10" by auto
    with False "1.IH" [of "digit_char (n mod 10) # s"] "1.prems" show ?thesis
      by (simp add: dec_step)
  qed
qed

lemma dot_not_digit [simp]: "\<not> is_digit CHR ''.''" "\<not> is_digit CHR '':''" "\<not> is_digit CHR ''%''"
    "\<not> is_digit CHR ''/''"
  by (simp_all add: is_digit_def)

lemma u8_le_255 [simp]: "unat (a :: u8) \<le> 255"
proof -
  have "unat a < 2 ^ LENGTH(8)" by (rule unsigned_less)
  then show ?thesis by simp
qed

lemma parseIPv4Fields_String: "parseIPv4Fields (IP4_String [a, b, c, d]) = Some [a, b, c, d]"
  using parseIPv4_dec [of "unat d" True _ "[]"]
  by (simp add: parseIPv4Fields_def IP4_String_def parseIPv4_dec)

lemma find_skip: "(\<And>x. x \<in> set xs \<Longrightarrow> \<not> P x) \<Longrightarrow> find P (xs @ ys) = find P ys"
  by (induction xs) auto

lemma dec_no_sep: "c \<in> set (dec n) \<Longrightarrow> c \<noteq> CHR ''.'' \<and> c \<noteq> CHR '':'' \<and> c \<noteq> CHR ''%'' \<and> c \<noteq> CHR ''/''"
  using dec_digits dot_not_digit by blast

lemma ParseAddr_String:
  "ParseAddr (IP4_String [a, b, c, d]) = Some \<lparr>na_is4 = True, na_16 = v4InV6Prefix @ [a, b, c, d], na_zone = []\<rparr>"
proof -
  have "find (\<lambda>c. c = CHR ''.'' \<or> c = CHR '':'' \<or> c = CHR ''%'') (IP4_String [a, b, c, d]) = Some CHR ''.''"
    by (simp add: IP4_String_def find_skip dec_no_sep)
  then show ?thesis
    by (simp add: ParseAddr_def parseIPv4_def parseIPv4Fields_String)
qed

lemma dtoi_digits:
  "(\<And>c. c \<in> set s \<Longrightarrow> is_digit c) \<Longrightarrow> foldl (\<lambda>a c. a * 10 + digit_val c) n s < 0xFFFFFF \<Longrightarrow>
     dtoi n s = Some (foldl (\<lambda>a c. a * 10 + digit_val c) n s, [])"
proof (induction s arbitrary: n)
  case (Cons c s)
  have mono: "m \<le> foldl (\<lambda>a c. a * 10 + digit_val c) m xs" for m xs
  proof (induction xs arbitrary: m)
    case (Cons x xs)
    from Cons [of "m * 10 + digit_val x"] show ?case by simp
  qed simp
  from Cons mono [of "n * 10 + digit_val c" s] show ?case by auto
qed simp

lemma dtoi_dec: "n < 0xFFFFFF \<Longrightarrow> dtoi 0 (dec n) = Some (n, [])"
  using dtoi_digits [of "dec n" 0] dec_digits dec_val_dec [of n] by (simp add: dec_val_def)

lemma takeWhile_sep: "(\<And>x. x \<in> set xs \<Longrightarrow> P x) \<Longrightarrow> \<not> P y \<Longrightarrow> takeWhile P (xs @ y # ys) = xs"
  by (induction xs) auto

text \<open>A printed address with a prefix length parses to the network of that address.\<close>

lemma ParseCIDR_String:
  assumes "n \<le> 32"
  shows "ParseCIDR (IP4_String [a, b, c, d] @ ''/'' @ dec n) =
    Some \<lparr>net_IP = map2 (AND) [a, b, c, d] (CIDRMask n 4), net_Mask = CIDRMask n 4\<rparr>"
proof -
  let ?ip = "IP4_String [a, b, c, d]"
  have "x \<noteq> CHR ''/''" if "x \<in> set ?ip" for x
    using that by (auto simp: IP4_String_def dest: dec_no_sep)
  then have tw: "takeWhile (\<lambda>c. c \<noteq> CHR ''/'') (?ip @ CHR ''/'' # dec n) = ?ip"
    using takeWhile_sep [of ?ip "\<lambda>c. c \<noteq> CHR ''/''" "CHR ''/''" "dec n"] by simp
  have "take 12 v4InV6Prefix = v4InV6Prefix" "length v4InV6Prefix = 12"
    by (simp_all add: v4InV6Prefix_def)
  with assms show ?thesis
    by (simp add: ParseCIDR_def tw ParseAddr_String dtoi_dec BitLen_def Let_def IP_Mask_def)
qed

section \<open>A plain address followed by \<open>/32\<close>\<close>

text \<open>An accepted address holds no slash, so that appending a prefix length to it parses again.\<close>

lemma parseIPv4_loop_no_slash:
  "parseIPv4_loop bad v dl fs s = Some r \<Longrightarrow> CHR ''/'' \<notin> set s"
  by (induction bad v dl fs s rule: parseIPv4_loop.induct) (auto split: if_splits)

lemma parseIPv4Fields_no_slash: "parseIPv4Fields s = Some r \<Longrightarrow> CHR ''/'' \<notin> set s"
  by (auto simp: parseIPv4Fields_def dest: parseIPv4_loop_no_slash)

lemma hex_group_rest:
  "hex_group off acc s = Some (off', acc', r) \<Longrightarrow> CHR ''/'' \<in> set s \<Longrightarrow> CHR ''/'' \<in> set r"
proof (induction off acc s rule: hex_group.induct)
  case (2 off acc c s)
  have "hex_val CHR ''/'' = None" by (simp add: hex_val_def)
  with 2 show ?case by (auto split: option.splits if_splits)
qed simp

lemma parseIPv6_loop_no_slash:
  "parseIPv6_loop s ip ell = Some (ip', ell', []) \<Longrightarrow> CHR ''/'' \<notin> set s"
proof (induction "16 - length ip" arbitrary: s ip ell rule: less_induct)
  case less
  show ?case
  proof (cases "16 \<le> length ip")
    case True
    with less.prems show ?thesis by (simp add: parseIPv6_loop.simps [of s])
  next
    case False
    have rec: "CHR ''/'' \<notin> set t"
      if "parseIPv6_loop t (ip @ [x, y]) e = Some (ip', ell', [])" for t x y e
      by (rule less.hyps [OF _ that]) (use False in simp)
    from False less.prems obtain off acc r where r: "hex_group 0 0 s = Some (off, acc, r)"
      by (auto simp: parseIPv6_loop.simps [of s] split: option.splits)
    have "CHR ''/'' \<notin> set s \<or> CHR ''/'' \<notin> set r"
      using False less.prems by (auto simp: parseIPv6_loop.simps [of s] r Let_def
          split: option.splits if_splits list.splits dest: parseIPv4Fields_no_slash rec)
    with hex_group_rest [OF r] show ?thesis by blast
  qed
qed

lemma ParseIP_no_slash:
  assumes "ParseIP s = Some ip"
  shows "CHR ''/'' \<notin> set s"
proof -
  from assms obtain a where a: "ParseAddr s = Some a" and zone: "na_zone a = []"
    by (auto simp: ParseIP_def split: option.splits if_splits)
  show ?thesis
  proof (cases "parseIPv4 s = Some a")
    case True
    then show ?thesis by (auto simp: parseIPv4_def dest: parseIPv4Fields_no_slash)
  next
    case False
    with a have v6: "parseIPv6 s = Some a" by (auto simp: ParseAddr_def split: option.splits if_splits)
    have fin: "r = []" if "parseIPv6_finish (x, e, r) = Some b" for x e r b
      using that by (simp add: parseIPv6_finish_def split: if_splits)
    let ?t = "takeWhile (\<lambda>c. c \<noteq> CHR ''%'') s"
    from v6 zone have "CHR ''%'' \<notin> set s"
      by (auto simp: parseIPv6_def Let_def bind_eq_Some_conv split: if_splits)
    then have t: "?t = s" by (induction s) auto
    have "CHR ''/'' \<notin> set (drop 2 s) \<and> HasPrefix s ''::'' \<or> CHR ''/'' \<notin> set s"
      using v6 by (auto simp: parseIPv6_def Let_def t bind_eq_Some_conv split: if_splits
          dest!: fin dest: parseIPv6_loop_no_slash)
    then show ?thesis by (auto simp: HasPrefix_iff)
  qed
qed

lemma dtoi_32: "dtoi 0 ''32'' = Some (32, [])"
  by (simp add: is_digit_def digit_val_def)

lemma ParseCIDR_plain:
  assumes "ParseIP s = Some ip"
  shows "ParseCIDR (s @ ''/32'') \<noteq> None"
proof -
  have "takeWhile (\<lambda>c. c \<noteq> CHR ''/'') (s @ ''/32'') = s"
    using takeWhile_sep [of s "\<lambda>c. c \<noteq> CHR ''/''" "CHR ''/''" "''32''"] ParseIP_no_slash [OF assms] by metis
  moreover from assms obtain a where "ParseAddr s = Some a" "na_zone a = []"
    by (auto simp: ParseIP_def split: option.splits if_splits)
  ultimately show ?thesis
    by (simp add: ParseCIDR_def Let_def dtoi_32 BitLen_def del: dtoi.simps)
qed

end
