(* ===== verification/Policy_Compiler.thy ===== *)
theory Policy_Compiler
  imports Go_Net
begin

text \<open>
  Package \<^verbatim>\<open>pkg/compiler\<close> without the swapper: the policy AST of \<^verbatim>\<open>dsl.go\<close> and \<^verbatim>\<open>Parse\<close>,
  \<^verbatim>\<open>Validate\<close> and \<^verbatim>\<open>Compile\<close> of \<^verbatim>\<open>compiler.go\<close>. The YAML decoder of \<^verbatim>\<open>gopkg.in/yaml.v3\<close> and
  the file system are parameters. The lemmas say that \<open>Validate\<close> accepts exactly the
  well-formed policies, that a rejection names the first check that fails in the order of the code, and
  that \<open>Compile\<close> expands every rule into the entries that a direct reading of the rule gives.
\<close>

section \<open>The policy AST\<close>

record Metadata =
  md_Name :: string

record Rule =
  r_ID :: u32
  r_Name :: string
  r_Action :: string
  r_SrcCIDRs :: "string list"
  r_DstPorts :: "u16 list"
  r_Protocols :: "string list"
  r_SrcCgroups :: "string list"

record PolicySpec =
  ps_DefaultAction :: string
  ps_Rules :: "Rule list"

record Policy =
  p_APIVersion :: string
  p_Kind :: string
  p_Metadata :: Metadata
  p_Spec :: PolicySpec

record CompiledCIDR =
  cc_RuleID :: u32
  cc_CIDRStr :: string
  cc_Action :: string

record CompiledCgroup =
  cg_RuleID :: u32
  cg_CgroupPath :: string
  cg_Action :: string

record CompiledPortRule =
  cp_RuleID :: u32
  cp_DstPort :: u16
  cp_Protocol :: string
  cp_Action :: string

record CompiledPolicy =
  cpol_Name :: string
  cpol_DefaultAction :: string
  cpol_CIDRBlocks :: "CompiledCIDR list"
  cpol_CgroupBlocks :: "CompiledCgroup list"
  cpol_PortRules :: "CompiledPortRule list"

section \<open>Validation\<close>

text \<open>One constructor per error the package creates, with the values its message shows. The last
  two wrap the error of another package, which is its text.\<close>

datatype compile_error =
    UnsupportedAPIVersion string
  | UnsupportedKind string
  | InvalidDefaultAction string
  | InvalidRuleID nat string
  | DuplicateRuleID u32 string string
  | InvalidAction u32 string string
  | InvalidCIDR u32 string string
  | InvalidPort u32 string
  | UnsupportedProtocol u32 string string
  | YAMLError string
  | ReadError string
  | ASTInvalid compile_error

fun first_error :: "('a \<Rightarrow> 'e option) \<Rightarrow> 'a list \<Rightarrow> 'e option" where
  "first_error f [] = None"
| "first_error f (x # xs) = (case f x of Some e \<Rightarrow> Some e | None \<Rightarrow> first_error f xs)"

definition validate_cidr :: "Rule \<Rightarrow> string \<Rightarrow> compile_error option" where
  "validate_cidr rule cidr =
     (if ParseCIDR cidr = None then
        (if ParseIP cidr = None then Some (InvalidCIDR (r_ID rule) (r_Name rule) cidr) else None)
      else None)"

definition validate_port :: "Rule \<Rightarrow> u16 \<Rightarrow> compile_error option" where
  "validate_port rule port =
     (if port = 0 then Some (InvalidPort (r_ID rule) (r_Name rule)) else None)"

definition validate_proto :: "Rule \<Rightarrow> string \<Rightarrow> compile_error option" where
  "validate_proto rule proto =
     (let pLower = norm_word proto in
      if pLower \<noteq> ''tcp'' \<and> pLower \<noteq> ''udp'' \<and> pLower \<noteq> ''icmp''
      then Some (UnsupportedProtocol (r_ID rule) (r_Name rule) proto) else None)"

definition validate_rule :: "nat \<Rightarrow> (u32 \<rightharpoonup> string) \<Rightarrow> Rule \<Rightarrow> compile_error option" where
  "validate_rule i seenIDs rule =
     (if r_ID rule = 0 then Some (InvalidRuleID i (r_Name rule))
      else case seenIDs (r_ID rule) of
        Some existingName \<Rightarrow> Some (DuplicateRuleID (r_ID rule) existingName (r_Name rule))
      | None \<Rightarrow>
          let act = norm_word (r_Action rule) in
          if act \<noteq> ''allow'' \<and> act \<noteq> ''deny''
          then Some (InvalidAction (r_ID rule) (r_Name rule) (r_Action rule))
          else case first_error (validate_cidr rule) (r_SrcCIDRs rule) of
            Some e \<Rightarrow> Some e
          | None \<Rightarrow> (case first_error (validate_port rule) (r_DstPorts rule) of
              Some e \<Rightarrow> Some e
            | None \<Rightarrow> first_error (validate_proto rule) (r_Protocols rule)))"

text \<open>The loop over the rules of \<^verbatim>\<open>Validate\<close>: the index \<open>i\<close> and the map \<open>seenIDs\<close> from rule IDs to
  the names of the rules that used them.\<close>

fun validate_rules :: "nat \<Rightarrow> (u32 \<rightharpoonup> string) \<Rightarrow> Rule list \<Rightarrow> compile_error option" where
  "validate_rules i seenIDs [] = None"
| "validate_rules i seenIDs (rule # rs) =
     (case validate_rule i seenIDs rule of
        Some e \<Rightarrow> Some e
      | None \<Rightarrow> validate_rules (i + 1) (seenIDs(r_ID rule \<mapsto> r_Name rule)) rs)"

definition Validate :: "Policy \<Rightarrow> compile_error option" where
  "Validate p =
     (if p_APIVersion p \<noteq> ''v1'' then Some (UnsupportedAPIVersion (p_APIVersion p))
      else if p_Kind p \<noteq> ''FirewallPolicy'' then Some (UnsupportedKind (p_Kind p))
      else
        let defAct = norm_word (ps_DefaultAction (p_Spec p)) in
        if defAct \<noteq> '''' \<and> defAct \<noteq> ''allow'' \<and> defAct \<noteq> ''deny''
        then Some (InvalidDefaultAction (ps_DefaultAction (p_Spec p)))
        else validate_rules 0 Map.empty (ps_Rules (p_Spec p)))"

section \<open>Compilation\<close>

definition default_protocols :: "Rule \<Rightarrow> string list" where
  "default_protocols rule =
     (if r_Protocols rule = [] \<and> r_DstPorts rule \<noteq> [] then [''tcp'', ''udp''] else r_Protocols rule)"

text \<open>One round of the loop of \<^verbatim>\<open>Compile\<close>: each \<^verbatim>\<open>append\<close> in turn.\<close>

fun append_cidrs :: "Rule \<Rightarrow> string \<Rightarrow> string list \<Rightarrow> CompiledPolicy \<Rightarrow> CompiledPolicy" where
  "append_cidrs rule action [] cp = cp"
| "append_cidrs rule action (cidr # cs) cp =
     append_cidrs rule action cs (cp\<lparr>cpol_CIDRBlocks := cpol_CIDRBlocks cp @
       [\<lparr>cc_RuleID = r_ID rule, cc_CIDRStr = cidr, cc_Action = action\<rparr>]\<rparr>)"

fun append_cgroups :: "Rule \<Rightarrow> string \<Rightarrow> string list \<Rightarrow> CompiledPolicy \<Rightarrow> CompiledPolicy" where
  "append_cgroups rule action [] cp = cp"
| "append_cgroups rule action (cg # cgs) cp =
     append_cgroups rule action cgs (cp\<lparr>cpol_CgroupBlocks := cpol_CgroupBlocks cp @
       [\<lparr>cg_RuleID = r_ID rule, cg_CgroupPath = cg, cg_Action = action\<rparr>]\<rparr>)"

fun append_protos :: "Rule \<Rightarrow> string \<Rightarrow> u16 \<Rightarrow> string list \<Rightarrow> CompiledPolicy \<Rightarrow> CompiledPolicy" where
  "append_protos rule action port [] cp = cp"
| "append_protos rule action port (proto # ps) cp =
     append_protos rule action port ps (cp\<lparr>cpol_PortRules := cpol_PortRules cp @
       [\<lparr>cp_RuleID = r_ID rule, cp_DstPort = port, cp_Protocol = norm_word proto, cp_Action = action\<rparr>]\<rparr>)"

fun append_ports :: "Rule \<Rightarrow> string \<Rightarrow> string list \<Rightarrow> u16 list \<Rightarrow> CompiledPolicy \<Rightarrow> CompiledPolicy" where
  "append_ports rule action protocols [] cp = cp"
| "append_ports rule action protocols (port # ps) cp =
     append_ports rule action protocols ps (append_protos rule action port protocols cp)"

definition compile_rule :: "Rule \<Rightarrow> CompiledPolicy \<Rightarrow> CompiledPolicy" where
  "compile_rule rule cp =
     (let action = norm_word (r_Action rule);
          cp1 = append_cidrs rule action (r_SrcCIDRs rule) cp;
          cp2 = append_cgroups rule action (r_SrcCgroups rule) cp1
      in append_ports rule action (default_protocols rule) (r_DstPorts rule) cp2)"

fun compile_rules :: "Rule list \<Rightarrow> CompiledPolicy \<Rightarrow> CompiledPolicy" where
  "compile_rules [] cp = cp"
| "compile_rules (rule # rs) cp = compile_rules rs (compile_rule rule cp)"

definition Compile :: "Policy \<Rightarrow> compile_error + CompiledPolicy" where
  "Compile p =
     (case Validate p of
        Some e \<Rightarrow> Inl e
      | None \<Rightarrow>
          let defAct = norm_word (ps_DefaultAction (p_Spec p));
              defAct = (if defAct = '''' then ''allow'' else defAct)
          in Inr (compile_rules (ps_Rules (p_Spec p))
               \<lparr>cpol_Name = md_Name (p_Metadata p), cpol_DefaultAction = defAct,
                 cpol_CIDRBlocks = [], cpol_CgroupBlocks = [], cpol_PortRules = []\<rparr>))"

text \<open>\<^verbatim>\<open>Parse\<close> and \<^verbatim>\<open>ParseFile\<close>; \<open>unmarshal\<close> stands for \<^verbatim>\<open>yaml.Unmarshal\<close> and \<open>readFile\<close> for
  \<^verbatim>\<open>os.ReadFile\<close>, both with the text of their error.\<close>

definition Parse :: "(string \<Rightarrow> string + Policy) \<Rightarrow> string \<Rightarrow> compile_error + Policy" where
  "Parse unmarshal data =
     (case unmarshal data of
        Inl e \<Rightarrow> Inl (YAMLError e)
      | Inr policy \<Rightarrow> (case Validate policy of
          Some e \<Rightarrow> Inl (ASTInvalid e)
        | None \<Rightarrow> Inr policy))"

definition ParseFile ::
  "(string \<Rightarrow> string + string) \<Rightarrow> (string \<Rightarrow> string + Policy) \<Rightarrow> string \<Rightarrow> compile_error + Policy" where
  "ParseFile readFile unmarshal path =
     (case readFile path of
        Inl e \<Rightarrow> Inl (ReadError e)
      | Inr data \<Rightarrow> Parse unmarshal data)"

section \<open>Error texts\<close>

definition squote :: "string \<Rightarrow> string" where
  "squote s = [CHR 0x27] @ s @ [CHR 0x27]"

fun compile_error_text :: "compile_error \<Rightarrow> string" where
  "compile_error_text (UnsupportedAPIVersion v) =
     ''unsupported apiVersion '' @ squote v @ '', expected '' @ squote ''v1''"
| "compile_error_text (UnsupportedKind k) =
     ''unsupported kind '' @ squote k @ '', expected '' @ squote ''FirewallPolicy''"
| "compile_error_text (InvalidDefaultAction a) =
     ''invalid defaultAction '' @ squote a @ '', expected '' @ squote ''allow'' @ '' or '' @ squote ''deny''"
| "compile_error_text (InvalidRuleID i n) =
     ''rule #'' @ dec i @ '' ('' @ squote n @ '') has invalid ID 0''"
| "compile_error_text (DuplicateRuleID r n m) =
     ''duplicate rule ID '' @ dec (unat r) @ '' found in rules '' @ squote n @ '' and '' @ squote m"
| "compile_error_text (InvalidAction r n a) =
     ''rule ID '' @ dec (unat r) @ '' ('' @ squote n @ '') has invalid action '' @ squote a @
     '', expected '' @ squote ''allow'' @ '' or '' @ squote ''deny''"
| "compile_error_text (InvalidCIDR r n c) =
     ''rule ID '' @ dec (unat r) @ '' ('' @ squote n @ '') has invalid CIDR or IP address '' @ squote c"
| "compile_error_text (InvalidPort r n) =
     ''rule ID '' @ dec (unat r) @ '' ('' @ squote n @ '') has invalid port number 0''"
| "compile_error_text (UnsupportedProtocol r n p) =
     ''rule ID '' @ dec (unat r) @ '' ('' @ squote n @ '') has unsupported protocol '' @ squote p @
     '', expected '' @ squote ''tcp'' @ '', '' @ squote ''udp'' @ '', or '' @ squote ''icmp''"
| "compile_error_text (YAMLError e) = ''failed to parse policy YAML: '' @ e"
| "compile_error_text (ReadError e) = ''failed to read policy file: '' @ e"
| "compile_error_text (ASTInvalid e) = ''policy AST validation failed: '' @ compile_error_text e"

section \<open>What \<open>Validate\<close> accepts\<close>

definition wf_rule :: "Rule \<Rightarrow> bool" where
  "wf_rule r \<longleftrightarrow>
     r_ID r \<noteq> 0 \<and> norm_word (r_Action r) \<in> {''allow'', ''deny''} \<and>
     (\<forall>c \<in> set (r_SrcCIDRs r). ParseCIDR c \<noteq> None \<or> ParseIP c \<noteq> None) \<and>
     0 \<notin> set (r_DstPorts r) \<and>
     (\<forall>p \<in> set (r_Protocols r). norm_word p \<in> {''tcp'', ''udp'', ''icmp''})"

definition wf_rules :: "Rule list \<Rightarrow> bool" where
  "wf_rules rs \<longleftrightarrow> (\<forall>r \<in> set rs. wf_rule r) \<and> distinct (map r_ID rs)"

definition wf_policy :: "Policy \<Rightarrow> bool" where
  "wf_policy p \<longleftrightarrow>
     p_APIVersion p = ''v1'' \<and> p_Kind p = ''FirewallPolicy'' \<and>
     norm_word (ps_DefaultAction (p_Spec p)) \<in> {'''', ''allow'', ''deny''} \<and>
     wf_rules (ps_Rules (p_Spec p))"

lemma first_error_None [simp]: "first_error f xs = None \<longleftrightarrow> (\<forall>x \<in> set xs. f x = None)"
  by (induction xs) (auto split: option.splits)

lemma first_error_then:
  "(case first_error f xs of Some e \<Rightarrow> Some e | None \<Rightarrow> rest) = None \<longleftrightarrow>
     first_error f xs = None \<and> rest = None"
  by (simp split: option.splits del: first_error_None)

lemma first_error_Some: "first_error f xs = Some e \<Longrightarrow> \<exists>x \<in> set xs. f x = Some e"
  by (induction xs) (auto split: option.splits)

lemma validate_item_None [simp]:
  "validate_cidr r c = None \<longleftrightarrow> ParseCIDR c \<noteq> None \<or> ParseIP c \<noteq> None"
  "validate_port r n = None \<longleftrightarrow> n \<noteq> 0"
  "validate_proto r q = None \<longleftrightarrow> norm_word q \<in> {''tcp'', ''udp'', ''icmp''}"
  by (auto simp: validate_cidr_def validate_port_def validate_proto_def Let_def)

lemma validate_rule_None: "validate_rule i m r = None \<longleftrightarrow> wf_rule r \<and> m (r_ID r) = None"
proof -
  have z: "0 \<notin> set (r_DstPorts r) \<longleftrightarrow> (\<forall>x \<in> set (r_DstPorts r). x \<noteq> 0)" by metis
  consider "r_ID r = 0" | n where "r_ID r \<noteq> 0" "m (r_ID r) = Some n" | "r_ID r \<noteq> 0" "m (r_ID r) = None"
    by fastforce
  then show ?thesis
  proof cases
    case 3
    then show ?thesis by (simp add: validate_rule_def wf_rule_def Let_def z first_error_then)
  qed (simp_all add: validate_rule_def wf_rule_def)
qed

lemma validate_rules_None:
  "validate_rules i m rs = None \<longleftrightarrow> wf_rules rs \<and> dom m \<inter> r_ID ` set rs = {}"
proof (induction rs arbitrary: i m)
  case (Cons r rs)
  have "validate_rules i m (r # rs) = None \<longleftrightarrow>
      wf_rule r \<and> m (r_ID r) = None \<and> validate_rules (i + 1) (m(r_ID r \<mapsto> r_Name r)) rs = None"
    using validate_rule_None [of i m r] by (auto split: option.splits)
  also have "\<dots> \<longleftrightarrow> wf_rules (r # rs) \<and> dom m \<inter> r_ID ` set (r # rs) = {}"
    unfolding Cons by (auto simp: wf_rules_def)
  finally show ?case .
qed (simp add: wf_rules_def)

lemma Validate_None: "Validate p = None \<longleftrightarrow> wf_policy p"
  by (auto simp: Validate_def wf_policy_def Let_def validate_rules_None)

section \<open>Which defect is reported\<close>

text \<open>The checks of a policy in their order, each with the error it stands for: the two header words, the default action, and then rule by
  rule the ID, the ID of every rule before, the action, the CIDR texts, the ports and the protocols.\<close>

definition rule_checks :: "Rule list \<Rightarrow> Rule \<Rightarrow> (bool \<times> compile_error) list" where
  "rule_checks pre r =
     (r_ID r \<noteq> 0, InvalidRuleID (length pre) (r_Name r)) #
     map (\<lambda>q. (r_ID q \<noteq> r_ID r, DuplicateRuleID (r_ID r) (r_Name q) (r_Name r))) pre @
     (norm_word (r_Action r) \<in> {''allow'', ''deny''}, InvalidAction (r_ID r) (r_Name r) (r_Action r)) #
     map (\<lambda>c. (ParseCIDR c \<noteq> None \<or> ParseIP c \<noteq> None, InvalidCIDR (r_ID r) (r_Name r) c)) (r_SrcCIDRs r) @
     map (\<lambda>n. (n \<noteq> 0, InvalidPort (r_ID r) (r_Name r))) (r_DstPorts r) @
     map (\<lambda>q. (norm_word q \<in> {''tcp'', ''udp'', ''icmp''}, UnsupportedProtocol (r_ID r) (r_Name r) q)) (r_Protocols r)"

definition policy_checks :: "Policy \<Rightarrow> (bool \<times> compile_error) list" where
  "policy_checks p =
     (let rs = ps_Rules (p_Spec p) in
      (p_APIVersion p = ''v1'', UnsupportedAPIVersion (p_APIVersion p)) #
      (p_Kind p = ''FirewallPolicy'', UnsupportedKind (p_Kind p)) #
      (norm_word (ps_DefaultAction (p_Spec p)) \<in> {'''', ''allow'', ''deny''}, InvalidDefaultAction (ps_DefaultAction (p_Spec p))) #
      concat (map (\<lambda>i. rule_checks (take i rs) (rs ! i)) [0..<length rs]))"

fun first_failed :: "(bool \<times> 'e) list \<Rightarrow> 'e option" where
  "first_failed [] = None"
| "first_failed ((ok, e) # cs) = (if ok then first_failed cs else Some e)"

lemma first_failed_append:
  "first_failed (cs @ ds) = (case first_failed cs of Some e \<Rightarrow> Some e | None \<Rightarrow> first_failed ds)"
  by (induction cs rule: first_failed.induct) auto

lemma first_failed_Some:
  "first_failed cs = Some e \<longleftrightarrow> (\<exists>passed rest. cs = passed @ (False, e) # rest \<and> list_all fst passed)"
proof
  show "\<exists>passed rest. cs = passed @ (False, e) # rest \<and> list_all fst passed" if "first_failed cs = Some e"
    using that
  proof (induction cs rule: first_failed.induct)
    case (2 ok e' cs)
    show ?case
    proof (cases ok)
      case True
      with 2 obtain passed rest where "cs = passed @ (False, e) # rest" "list_all fst passed" by auto
      with True show ?thesis by (intro exI [of _ "(True, e') # passed"] exI [of _ rest]) simp
    next
      case False
      with 2 show ?thesis by (intro exI [of _ "[]"] exI [of _ cs]) simp
    qed
  qed simp
next
  assume "\<exists>passed rest. cs = passed @ (False, e) # rest \<and> list_all fst passed"
  then obtain passed rest where "cs = passed @ (False, e) # rest" "list_all fst passed" by blast
  moreover from this(2) have "first_failed passed = None"
    by (induction passed rule: first_failed.induct) auto
  ultimately show "first_failed cs = Some e" by (simp add: first_failed_append)
qed

lemma first_failed_items:
  "first_error (validate_cidr r) cs =
     first_failed (map (\<lambda>c. (ParseCIDR c \<noteq> None \<or> ParseIP c \<noteq> None, InvalidCIDR (r_ID r) (r_Name r) c)) cs)"
  "first_error (validate_port r) ns = first_failed (map (\<lambda>n. (n \<noteq> 0, InvalidPort (r_ID r) (r_Name r))) ns)"
  "first_error (validate_proto r) ps =
     first_failed (map (\<lambda>q. (norm_word q \<in> {''tcp'', ''udp'', ''icmp''}, UnsupportedProtocol (r_ID r) (r_Name r) q)) ps)"
  by (induction cs, auto simp: validate_cidr_def) (induction ns, auto simp: validate_port_def,
      induction ps, auto simp: validate_proto_def Let_def)

definition names_of :: "Rule list \<Rightarrow> u32 \<rightharpoonup> string" where
  "names_of rs = map_of (rev (map (\<lambda>r. (r_ID r, r_Name r)) rs))"

lemma names_of_snoc: "names_of (rs @ [r]) = (names_of rs)(r_ID r \<mapsto> r_Name r)"
  by (simp add: names_of_def)

lemma dom_names_of: "dom (names_of rs) = r_ID ` set rs"
  by (auto simp: names_of_def dom_map_of_conv_image_fst image_image)

lemma names_of_fails:
  "distinct (map r_ID pre) \<Longrightarrow>
     first_failed (map (\<lambda>q. (r_ID q \<noteq> i, f (r_Name q))) pre) = map_option f (names_of pre i)"
proof (induction pre rule: rev_induct)
  case (snoc q pre)
  then have "names_of pre (r_ID q) = None" using dom_names_of [of pre] by (auto simp: domIff)
  with snoc show ?case
    by (cases "r_ID q = i") (auto simp: names_of_snoc first_failed_append split: option.split)
qed (simp add: names_of_def)

lemma validate_rule_checks:
  assumes "distinct (map r_ID pre)"
  shows "validate_rule (length pre) (names_of pre) r = first_failed (rule_checks pre r)"
proof -
  note dup = names_of_fails [OF assms, of "r_ID r" "\<lambda>n. DuplicateRuleID (r_ID r) n (r_Name r)"]
  show ?thesis
    by (simp add: validate_rule_def rule_checks_def Let_def first_failed_append first_failed_items dup split: option.split)
qed

lemma validate_rules_checks:
  "wf_rules pre \<Longrightarrow> validate_rules (length pre) (names_of pre) rs =
     first_failed (concat (map (\<lambda>i. rule_checks (pre @ take i rs) (rs ! i)) [0..<length rs]))"
proof (induction rs arbitrary: pre)
  case (Cons r rs)
  have d: "distinct (map r_ID pre)" using Cons.prems by (simp add: wf_rules_def)
  have upt: "[0..<length (r # rs)] = 0 # map Suc [0..<length rs]"
    by (simp add: upt_conv_Cons map_Suc_upt del: upt_Suc)
  have split: "first_failed (concat (map (\<lambda>i. rule_checks (pre @ take i (r # rs)) ((r # rs) ! i)) [0..<length (r # rs)])) =
      (case first_failed (rule_checks pre r) of Some e \<Rightarrow> Some e
       | None \<Rightarrow> first_failed (concat (map (\<lambda>i. rule_checks ((pre @ [r]) @ take i rs) (rs ! i)) [0..<length rs])))"
    unfolding upt by (simp add: first_failed_append comp_def split: option.split)
  show ?case
  proof (cases "validate_rule (length pre) (names_of pre) r")
    case None
    then have "wf_rule r" "names_of pre (r_ID r) = None" by (simp_all add: validate_rule_None)
    then have "wf_rules (pre @ [r])" using Cons.prems dom_names_of [of pre] by (auto simp: wf_rules_def domIff)
    from Cons.IH [OF this] None show ?thesis
      unfolding split validate_rule_checks [OF d, symmetric] by (simp add: names_of_snoc fun_upd_def)
  next
    case (Some e)
    then show ?thesis unfolding split validate_rule_checks [OF d, symmetric] by simp
  qed
qed simp

lemma Validate_checks: "Validate p = first_failed (policy_checks p)"
  using validate_rules_checks [of "[]" "ps_Rules (p_Spec p)"]
  by (simp add: Validate_def policy_checks_def Let_def wf_rules_def names_of_def)

section \<open>What \<open>Compile\<close> produces\<close>

definition rule_cidrs :: "Rule \<Rightarrow> CompiledCIDR list" where
  "rule_cidrs r = map (\<lambda>c. \<lparr>cc_RuleID = r_ID r, cc_CIDRStr = c, cc_Action = norm_word (r_Action r)\<rparr>) (r_SrcCIDRs r)"

definition rule_cgroups :: "Rule \<Rightarrow> CompiledCgroup list" where
  "rule_cgroups r =
     map (\<lambda>c. \<lparr>cg_RuleID = r_ID r, cg_CgroupPath = c, cg_Action = norm_word (r_Action r)\<rparr>) (r_SrcCgroups r)"

definition rule_ports :: "Rule \<Rightarrow> CompiledPortRule list" where
  "rule_ports r =
     [\<lparr>cp_RuleID = r_ID r, cp_DstPort = port, cp_Protocol = norm_word proto, cp_Action = norm_word (r_Action r)\<rparr>.
       port \<leftarrow> r_DstPorts r, proto \<leftarrow> default_protocols r]"

lemma append_cidrs_eq:
  "append_cidrs r a cs cp = cp\<lparr>cpol_CIDRBlocks := cpol_CIDRBlocks cp @
     map (\<lambda>c. \<lparr>cc_RuleID = r_ID r, cc_CIDRStr = c, cc_Action = a\<rparr>) cs\<rparr>"
  by (induction cs arbitrary: cp) simp_all

lemma append_cgroups_eq:
  "append_cgroups r a cs cp = cp\<lparr>cpol_CgroupBlocks := cpol_CgroupBlocks cp @
     map (\<lambda>c. \<lparr>cg_RuleID = r_ID r, cg_CgroupPath = c, cg_Action = a\<rparr>) cs\<rparr>"
  by (induction cs arbitrary: cp) simp_all

lemma append_protos_eq:
  "append_protos r a port ps cp = cp\<lparr>cpol_PortRules := cpol_PortRules cp @
     map (\<lambda>q. \<lparr>cp_RuleID = r_ID r, cp_DstPort = port, cp_Protocol = norm_word q, cp_Action = a\<rparr>) ps\<rparr>"
  by (induction ps arbitrary: cp) simp_all

lemma append_ports_eq:
  "append_ports r a protos ports cp = cp\<lparr>cpol_PortRules := cpol_PortRules cp @
     [\<lparr>cp_RuleID = r_ID r, cp_DstPort = port, cp_Protocol = norm_word q, cp_Action = a\<rparr>.
       port \<leftarrow> ports, q \<leftarrow> protos]\<rparr>"
  by (induction ports arbitrary: cp) (simp_all add: append_protos_eq)

lemma compile_rules_eq:
  "compile_rules rs cp = cp\<lparr>
     cpol_CIDRBlocks := cpol_CIDRBlocks cp @ concat (map rule_cidrs rs),
     cpol_CgroupBlocks := cpol_CgroupBlocks cp @ concat (map rule_cgroups rs),
     cpol_PortRules := cpol_PortRules cp @ concat (map rule_ports rs)\<rparr>"
  by (induction rs arbitrary: cp)
    (simp_all add: compile_rule_def Let_def append_cidrs_eq append_cgroups_eq append_ports_eq
      rule_cidrs_def rule_cgroups_def rule_ports_def)

lemma Compile_Inr:
  "Compile p = Inr cp \<longleftrightarrow> wf_policy p \<and>
     cp = \<lparr>cpol_Name = md_Name (p_Metadata p),
       cpol_DefaultAction = (if norm_word (ps_DefaultAction (p_Spec p)) = '''' then ''allow''
         else norm_word (ps_DefaultAction (p_Spec p))),
       cpol_CIDRBlocks = concat (map rule_cidrs (ps_Rules (p_Spec p))),
       cpol_CgroupBlocks = concat (map rule_cgroups (ps_Rules (p_Spec p))),
       cpol_PortRules = concat (map rule_ports (ps_Rules (p_Spec p)))\<rparr>"
  by (auto simp: Compile_def Let_def compile_rules_eq Validate_None [symmetric] split: option.splits)

definition wf_compiled :: "CompiledPolicy \<Rightarrow> bool" where
  "wf_compiled cp \<longleftrightarrow>
     cpol_DefaultAction cp \<in> {''allow'', ''deny''} \<and>
     (\<forall>c \<in> set (cpol_CIDRBlocks cp). cc_RuleID c \<noteq> 0 \<and> cc_Action c \<in> {''allow'', ''deny''} \<and>
        (ParseCIDR (cc_CIDRStr c) \<noteq> None \<or> ParseIP (cc_CIDRStr c) \<noteq> None)) \<and>
     (\<forall>c \<in> set (cpol_CgroupBlocks cp). cg_RuleID c \<noteq> 0 \<and> cg_Action c \<in> {''allow'', ''deny''}) \<and>
     (\<forall>c \<in> set (cpol_PortRules cp). cp_RuleID c \<noteq> 0 \<and> cp_Action c \<in> {''allow'', ''deny''} \<and>
        cp_DstPort c \<noteq> 0 \<and> cp_Protocol c \<in> {''tcp'', ''udp'', ''icmp''})"

lemma norm_literals [simp]:
  "norm_word ''tcp'' = ''tcp''" "norm_word ''udp'' = ''udp''" "norm_word ''icmp'' = ''icmp''"
  "norm_word ''allow'' = ''allow''" "norm_word ''deny'' = ''deny''" "norm_word '''' = ''''"
  by code_simp+

lemma wf_rule_items:
  assumes "wf_rule r"
  shows "x \<in> set (rule_cidrs r) \<Longrightarrow> cc_RuleID x \<noteq> 0 \<and> cc_Action x \<in> {''allow'', ''deny''} \<and>
      (ParseCIDR (cc_CIDRStr x) \<noteq> None \<or> ParseIP (cc_CIDRStr x) \<noteq> None)"
    and "y \<in> set (rule_cgroups r) \<Longrightarrow> cg_RuleID y \<noteq> 0 \<and> cg_Action y \<in> {''allow'', ''deny''}"
    and "z \<in> set (rule_ports r) \<Longrightarrow> cp_RuleID z \<noteq> 0 \<and> cp_Action z \<in> {''allow'', ''deny''} \<and>
      cp_DstPort z \<noteq> 0 \<and> cp_Protocol z \<in> {''tcp'', ''udp'', ''icmp''}"
proof -
  show "cc_RuleID x \<noteq> 0 \<and> cc_Action x \<in> {''allow'', ''deny''} \<and>
      (ParseCIDR (cc_CIDRStr x) \<noteq> None \<or> ParseIP (cc_CIDRStr x) \<noteq> None)" if "x \<in> set (rule_cidrs r)"
    using assms that unfolding wf_rule_def rule_cidrs_def by auto
  show "cg_RuleID y \<noteq> 0 \<and> cg_Action y \<in> {''allow'', ''deny''}" if "y \<in> set (rule_cgroups r)"
    using assms that unfolding wf_rule_def rule_cgroups_def by auto
  have protos: "norm_word q \<in> {''tcp'', ''udp'', ''icmp''}" if "q \<in> set (default_protocols r)" for q
    using assms that unfolding wf_rule_def default_protocols_def by (auto split: if_splits)
  show "cp_RuleID z \<noteq> 0 \<and> cp_Action z \<in> {''allow'', ''deny''} \<and>
      cp_DstPort z \<noteq> 0 \<and> cp_Protocol z \<in> {''tcp'', ''udp'', ''icmp''}" if z: "z \<in> set (rule_ports r)"
  proof -
    from z obtain port q where "port \<in> set (r_DstPorts r)" "q \<in> set (default_protocols r)"
      and "z = \<lparr>cp_RuleID = r_ID r, cp_DstPort = port, cp_Protocol = norm_word q,
        cp_Action = norm_word (r_Action r)\<rparr>"
      by (auto simp: rule_ports_def)
    with protos [of q] assms show ?thesis unfolding wf_rule_def by auto
  qed
qed

lemma Compile_wf:
  assumes "Compile p = Inr cp"
  shows "wf_compiled cp"
proof -
  let ?rs = "ps_Rules (p_Spec p)"
  from assms have rules: "wf_rule r" if "r \<in> set ?rs" for r
    using that by (simp add: Compile_Inr wf_policy_def wf_rules_def)
  have "cpol_CIDRBlocks cp = concat (map rule_cidrs ?rs)" "cpol_CgroupBlocks cp = concat (map rule_cgroups ?rs)"
    "cpol_PortRules cp = concat (map rule_ports ?rs)"
    using assms by (simp_all add: Compile_Inr)
  moreover have "cpol_DefaultAction cp \<in> {''allow'', ''deny''}"
    using assms by (auto simp: Compile_Inr wf_policy_def)
  ultimately show ?thesis
    unfolding wf_compiled_def using wf_rule_items [OF rules] by auto
qed

section \<open>Properties\<close>

text \<open>C9: \<open>Validate\<close> returns no error exactly for the well-formed policies: the two header words, a known default
  action, and rules with distinct nonzero IDs whose actions, CIDR texts, ports and protocols are valid.\<close>

theorem validate_accepts_exactly: "Validate p = None \<longleftrightarrow> wf_policy p"
  by (rule Validate_None)

text \<open>C10: \<open>Validate\<close> reports the first defect in the order of the checks: it returns an error exactly when that is the error of a check that fails
  while all checks before it pass, where the checks are the API version, the kind, the default action, and then rule by rule
  the ID, the IDs of the rules before, the action, the CIDR texts, the ports and the protocols.\<close>

theorem validate_reports_first_defect:
  "Validate p = Some e \<longleftrightarrow> (\<exists>passed rest. policy_checks p = passed @ (False, e) # rest \<and> list_all fst passed)"
  unfolding Validate_checks by (rule first_failed_Some)


text \<open>A policy that \<open>Parse\<close> accepts always compiles: the compilation step of the server and of the
  agent cannot fail after a successful parse.\<close>

theorem parsed_policies_compile:
  assumes "Parse unmarshal data = Inr p"
  shows "\<exists>cp. Compile p = Inr cp"
  using assms Compile_Inr Validate_None by (auto simp: Parse_def split: sum.splits option.splits)

theorem parsed_policies_compile_witness:
  "\<exists>cp. Compile \<lparr>p_APIVersion = ''v1'', p_Kind = ''FirewallPolicy'', p_Metadata = \<lparr>md_Name = ''m''\<rparr>,
     p_Spec = \<lparr>ps_DefaultAction = ''deny'', ps_Rules = []\<rparr>\<rparr> = Inr cp"
proof -
  let ?p = "\<lparr>p_APIVersion = ''v1'', p_Kind = ''FirewallPolicy'', p_Metadata = \<lparr>md_Name = ''m''\<rparr>,
     p_Spec = \<lparr>ps_DefaultAction = ''deny'', ps_Rules = []\<rparr>\<rparr>"
  have "Parse (\<lambda>_. Inr ?p) ''any'' = Inr ?p" by (simp add: Parse_def Validate_def)
  from parsed_policies_compile [OF this] show ?thesis .
qed

end
