(* ===== verification/Atomic_Swap.thy ===== *)
theory Atomic_Swap
  imports Policy_Compiler
begin

text \<open>
  \<^verbatim>\<open>pkg/compiler/atomic_swap.go\<close>: the interface \<^verbatim>\<open>BPFStager\<close>, as a record of its methods over a state
  \<open>'s\<close> with errors \<open>'e\<close>, and \<^verbatim>\<open>MapSwapper.ApplyPolicyAtomic\<close>, which is defined for every such
  record. The contract that a stager owes the swapper is the locale \<open>bpf_stager\<close>; in it the
  outcome of a reload is proved once: after a success the next generation is active and holds exactly
  the compiled policy, after a failure the active generation and every rule of it are untouched.
  The mutex of \<^verbatim>\<open>MapSwapper\<close> makes one reload a sequential program, which is what is defined here.
\<close>

section \<open>The interface and the swapper\<close>

record ('s, 'e) BPFStager =
  st_GetActiveGeneration :: "'s \<Rightarrow> 'e + u32"
  st_SetActiveGeneration :: "'s \<Rightarrow> u32 \<Rightarrow> 'e option \<times> 's"
  st_StageCIDRRule :: "'s \<Rightarrow> u32 \<Rightarrow> string \<Rightarrow> u32 \<Rightarrow> string \<Rightarrow> 'e option \<times> 's"
  st_StageCgroupRule :: "'s \<Rightarrow> u32 \<Rightarrow> string \<Rightarrow> u32 \<Rightarrow> string \<Rightarrow> 'e option \<times> 's"
  st_StagePortRule :: "'s \<Rightarrow> u32 \<Rightarrow> u16 \<Rightarrow> string \<Rightarrow> u32 \<Rightarrow> string \<Rightarrow> 'e option \<times> 's"
  st_ClearGenerationRules :: "'s \<Rightarrow> u32 \<Rightarrow> 'e option \<times> 's"

datatype 'e swap_error =
    GetGenerationFailed 'e
  | CIDRStagingFailed string u32 'e
  | CgroupStagingFailed string u32 'e
  | PortStagingFailed u16 string u32 'e
  | SwitchFailed u32 'e

fun swap_error_text :: "('e \<Rightarrow> string) \<Rightarrow> 'e swap_error \<Rightarrow> string" where
  "swap_error_text f (GetGenerationFailed e) = ''failed to get active generation: '' @ f e"
| "swap_error_text f (CIDRStagingFailed c i e) =
     ''staging failed for CIDR '' @ c @ '' (Rule '' @ dec (unat i) @ ''): '' @ f e"
| "swap_error_text f (CgroupStagingFailed p i e) =
     ''staging failed for Cgroup '' @ p @ '' (Rule '' @ dec (unat i) @ ''): '' @ f e"
| "swap_error_text f (PortStagingFailed q t i e) =
     ''staging failed for Port '' @ dec (unat q) @ ''/'' @ t @ '' (Rule '' @ dec (unat i) @ ''): '' @ f e"
| "swap_error_text f (SwitchFailed g e) =
     ''failed to switch active generation to '' @ dec (unat g) @ '': '' @ f e"

fun stage_cidrs ::
  "('s, 'e) BPFStager \<Rightarrow> u32 \<Rightarrow> CompiledCIDR list \<Rightarrow> 's \<Rightarrow> 'e swap_error option \<times> 's" where
  "stage_cidrs S gen [] s = (None, s)"
| "stage_cidrs S gen (item # items) s =
     (case st_StageCIDRRule S s gen (cc_CIDRStr item) (cc_RuleID item) (cc_Action item) of
        (Some err, s') \<Rightarrow> (Some (CIDRStagingFailed (cc_CIDRStr item) (cc_RuleID item) err), s')
      | (None, s') \<Rightarrow> stage_cidrs S gen items s')"

fun stage_cgroups ::
  "('s, 'e) BPFStager \<Rightarrow> u32 \<Rightarrow> CompiledCgroup list \<Rightarrow> 's \<Rightarrow> 'e swap_error option \<times> 's" where
  "stage_cgroups S gen [] s = (None, s)"
| "stage_cgroups S gen (item # items) s =
     (case st_StageCgroupRule S s gen (cg_CgroupPath item) (cg_RuleID item) (cg_Action item) of
        (Some err, s') \<Rightarrow> (Some (CgroupStagingFailed (cg_CgroupPath item) (cg_RuleID item) err), s')
      | (None, s') \<Rightarrow> stage_cgroups S gen items s')"

fun stage_ports ::
  "('s, 'e) BPFStager \<Rightarrow> u32 \<Rightarrow> CompiledPortRule list \<Rightarrow> 's \<Rightarrow> 'e swap_error option \<times> 's" where
  "stage_ports S gen [] s = (None, s)"
| "stage_ports S gen (item # items) s =
     (case st_StagePortRule S s gen (cp_DstPort item) (cp_Protocol item) (cp_RuleID item) (cp_Action item) of
        (Some err, s') \<Rightarrow>
          (Some (PortStagingFailed (cp_DstPort item) (cp_Protocol item) (cp_RuleID item) err), s')
      | (None, s') \<Rightarrow> stage_ports S gen items s')"

text \<open>Steps 1 to 3: the three loops; the first error stops them.\<close>

definition stage_all ::
  "('s, 'e) BPFStager \<Rightarrow> u32 \<Rightarrow> CompiledPolicy \<Rightarrow> 's \<Rightarrow> 'e swap_error option \<times> 's" where
  "stage_all S gen cp s =
     (case stage_cidrs S gen (cpol_CIDRBlocks cp) s of
        (Some err, s1) \<Rightarrow> (Some err, s1)
      | (None, s1) \<Rightarrow> (case stage_cgroups S gen (cpol_CgroupBlocks cp) s1 of
          (Some err, s2) \<Rightarrow> (Some err, s2)
        | (None, s2) \<Rightarrow> stage_ports S gen (cpol_PortRules cp) s2))"

text \<open>The result is the generation and the error that the Go function returns.\<close>

definition ApplyPolicyAtomic ::
  "('s, 'e) BPFStager \<Rightarrow> CompiledPolicy \<Rightarrow> 's \<Rightarrow> (u32 \<times> 'e swap_error option) \<times> 's" where
  "ApplyPolicyAtomic S cp s =
     (case st_GetActiveGeneration S s of
        Inl err \<Rightarrow> ((0, Some (GetGenerationFailed err)), s)
      | Inr curGen \<Rightarrow>
          let nextGen = curGen + 1;
              s1 = snd (st_ClearGenerationRules S s nextGen)
          in case stage_all S nextGen cp s1 of
            (Some err, s2) \<Rightarrow> ((curGen, Some err), snd (st_ClearGenerationRules S s2 nextGen))
          | (None, s2) \<Rightarrow>
              (case st_SetActiveGeneration S s2 nextGen of
                 (Some err, s3) \<Rightarrow>
                   ((curGen, Some (SwitchFailed nextGen err)), snd (st_ClearGenerationRules S s3 nextGen))
               | (None, s3) \<Rightarrow> ((nextGen, None), snd (st_ClearGenerationRules S s3 curGen))))"

section \<open>The rules that a compiled policy stands for\<close>

text \<open>Adding the entries one after the other, in the order of the loops. \<open>ids\<close> are the cgroup IDs
  that the paths resolved to.\<close>

definition add_cidrs :: "(string \<Rightarrow> u32 \<Rightarrow> string \<Rightarrow> 'r \<Rightarrow> 'r) \<Rightarrow> CompiledCIDR list \<Rightarrow> 'r \<Rightarrow> 'r" where
  "add_cidrs f items r = foldl (\<lambda>r c. f (cc_CIDRStr c) (cc_RuleID c) (cc_Action c) r) r items"

definition add_cgroups :: "(u64 \<Rightarrow> u32 \<Rightarrow> string \<Rightarrow> 'r \<Rightarrow> 'r) \<Rightarrow> (CompiledCgroup \<times> u64) list \<Rightarrow> 'r \<Rightarrow> 'r" where
  "add_cgroups f items r = foldl (\<lambda>r (c, i). f i (cg_RuleID c) (cg_Action c) r) r items"

definition add_ports ::
  "(u16 \<Rightarrow> string \<Rightarrow> u32 \<Rightarrow> string \<Rightarrow> 'r \<Rightarrow> 'r) \<Rightarrow> CompiledPortRule list \<Rightarrow> 'r \<Rightarrow> 'r" where
  "add_ports f items r = foldl (\<lambda>r c. f (cp_DstPort c) (cp_Protocol c) (cp_RuleID c) (cp_Action c) r) r items"

lemma add_simps [simp]:
  "add_cidrs f [] r = r" "add_cidrs f (c # cs) r = add_cidrs f cs (f (cc_CIDRStr c) (cc_RuleID c) (cc_Action c) r)"
  "add_cgroups g [] r = r" "add_cgroups g ((d, i) # ds) r = add_cgroups g ds (g i (cg_RuleID d) (cg_Action d) r)"
  "add_ports h [] r = r"
  "add_ports h (p # ps) r = add_ports h ps (h (cp_DstPort p) (cp_Protocol p) (cp_RuleID p) (cp_Action p) r)"
  by (simp_all add: add_cidrs_def add_cgroups_def add_ports_def)

definition compiled_rules_with ::
  "(string \<Rightarrow> u32 \<Rightarrow> string \<Rightarrow> 'r \<Rightarrow> 'r) \<Rightarrow> (u64 \<Rightarrow> u32 \<Rightarrow> string \<Rightarrow> 'r \<Rightarrow> 'r) \<Rightarrow>
   (u16 \<Rightarrow> string \<Rightarrow> u32 \<Rightarrow> string \<Rightarrow> 'r \<Rightarrow> 'r) \<Rightarrow> 'r \<Rightarrow> CompiledPolicy \<Rightarrow> u64 list \<Rightarrow> 'r" where
  "compiled_rules_with add_cidr add_cgroup add_port start cp ids =
     add_ports add_port (cpol_PortRules cp)
       (add_cgroups add_cgroup (zip (cpol_CgroupBlocks cp) ids)
         (add_cidrs add_cidr (cpol_CIDRBlocks cp) start))"

text \<open>Every cgroup entry has an ID that its path denotes.\<close>

definition resolved :: "(string \<Rightarrow> u64 \<Rightarrow> bool) \<Rightarrow> CompiledPolicy \<Rightarrow> u64 list \<Rightarrow> bool" where
  "resolved denotes cp ids \<longleftrightarrow> list_all2 (\<lambda>c n. denotes (cg_CgroupPath c) n) (cpol_CgroupBlocks cp) ids"

section \<open>The contract of a stager\<close>

text \<open>
  \<open>active\<close> is the generation packets are checked against and \<open>rules s g\<close> what generation \<open>g\<close> holds.
  Staging adds one rule to one generation or fails and spoils at most that generation; clearing
  empties one generation; switching changes nothing but the active generation.
\<close>

locale bpf_stager =
  fixes S :: "('s, 'e) BPFStager"
    and active :: "'s \<Rightarrow> u32"
    and rules :: "'s \<Rightarrow> u32 \<Rightarrow> 'r"
    and empty :: 'r
    and add_cidr :: "string \<Rightarrow> u32 \<Rightarrow> string \<Rightarrow> 'r \<Rightarrow> 'r"
    and add_cgroup :: "u64 \<Rightarrow> u32 \<Rightarrow> string \<Rightarrow> 'r \<Rightarrow> 'r"
    and add_port :: "u16 \<Rightarrow> string \<Rightarrow> u32 \<Rightarrow> string \<Rightarrow> 'r \<Rightarrow> 'r"
    and denotes :: "string \<Rightarrow> u64 \<Rightarrow> bool"
  assumes get: "st_GetActiveGeneration S s = Inr (active s)"
    and set_ok: "st_SetActiveGeneration S s g = (None, s') \<Longrightarrow> active s' = g \<and> rules s' = rules s"
    and set_err: "st_SetActiveGeneration S s g = (Some e, s') \<Longrightarrow> active s' = active s \<and> rules s' = rules s"
    and cidr_ok: "st_StageCIDRRule S s g c i a = (None, s') \<Longrightarrow>
      active s' = active s \<and> rules s' = (rules s)(g := add_cidr c i a (rules s g))"
    and cidr_err: "st_StageCIDRRule S s g c i a = (Some e, s') \<Longrightarrow>
      active s' = active s \<and> (\<forall>h. h \<noteq> g \<longrightarrow> rules s' h = rules s h)"
    and cgroup_ok: "st_StageCgroupRule S s g p i a = (None, s') \<Longrightarrow>
      \<exists>n. denotes p n \<and> active s' = active s \<and> rules s' = (rules s)(g := add_cgroup n i a (rules s g))"
    and cgroup_err: "st_StageCgroupRule S s g p i a = (Some e, s') \<Longrightarrow>
      active s' = active s \<and> (\<forall>h. h \<noteq> g \<longrightarrow> rules s' h = rules s h)"
    and port_ok: "st_StagePortRule S s g q t i a = (None, s') \<Longrightarrow>
      active s' = active s \<and> rules s' = (rules s)(g := add_port q t i a (rules s g))"
    and port_err: "st_StagePortRule S s g q t i a = (Some e, s') \<Longrightarrow>
      active s' = active s \<and> (\<forall>h. h \<noteq> g \<longrightarrow> rules s' h = rules s h)"
    and clear: "st_ClearGenerationRules S s g = (x, s') \<Longrightarrow>
      active s' = active s \<and> rules s' = (rules s)(g := empty)"
begin

lemma clear_state:
  "active (snd (st_ClearGenerationRules S s g)) = active s"
  "rules (snd (st_ClearGenerationRules S s g)) = (rules s)(g := empty)"
  using clear [of s g "fst (st_ClearGenerationRules S s g)" "snd (st_ClearGenerationRules S s g)"] by simp_all

lemma stage_cidrs_ok:
  "stage_cidrs S g items s = (None, s') \<Longrightarrow>
     active s' = active s \<and> rules s' = (rules s)(g := add_cidrs add_cidr items (rules s g))"
proof (induction items arbitrary: s)
  case (Cons c cs)
  then show ?case
    by (auto split: prod.splits option.splits dest!: cidr_ok)
qed simp

lemma stage_cgroups_ok:
  "stage_cgroups S g items s = (None, s') \<Longrightarrow>
     \<exists>ids. list_all2 (\<lambda>c n. denotes (cg_CgroupPath c) n) items ids \<and> active s' = active s \<and>
       rules s' = (rules s)(g := add_cgroups add_cgroup (zip items ids) (rules s g))"
proof (induction items arbitrary: s)
  case (Cons c cs)
  from Cons.prems obtain s1 where
    c: "st_StageCgroupRule S s g (cg_CgroupPath c) (cg_RuleID c) (cg_Action c) = (None, s1)"
    and cs: "stage_cgroups S g cs s1 = (None, s')"
    by (auto split: prod.splits option.splits)
  from cgroup_ok [OF c] obtain n where n: "denotes (cg_CgroupPath c) n" "active s1 = active s"
    "rules s1 = (rules s)(g := add_cgroup n (cg_RuleID c) (cg_Action c) (rules s g))" by blast
  from Cons.IH [OF cs] obtain ids where "list_all2 (\<lambda>c n. denotes (cg_CgroupPath c) n) cs ids"
    "active s' = active s1" "rules s' = (rules s1)(g := add_cgroups add_cgroup (zip cs ids) (rules s1 g))" by blast
  with n show ?case by (intro exI [of _ "n # ids"]) simp
qed (intro exI [of _ "[]"], simp)

lemma stage_ports_ok:
  "stage_ports S g items s = (None, s') \<Longrightarrow>
     active s' = active s \<and> rules s' = (rules s)(g := add_ports add_port items (rules s g))"
proof (induction items arbitrary: s)
  case (Cons c cs)
  then show ?case
    by (auto split: prod.splits option.splits dest!: port_ok)
qed simp

text \<open>Whatever staging does, it stays within the generation it stages.\<close>

definition within :: "u32 \<Rightarrow> 's \<Rightarrow> 's \<Rightarrow> bool" where
  "within g s s' \<longleftrightarrow> active s' = active s \<and> (\<forall>h. h \<noteq> g \<longrightarrow> rules s' h = rules s h)"

lemma within_refl [simp]: "within g s s"
  by (simp add: within_def)

lemma within_trans: "within g s s' \<Longrightarrow> within g s' s'' \<Longrightarrow> within g s s''"
  by (simp add: within_def)

lemma within_clear: "within g s (snd (st_ClearGenerationRules S s g))"
  by (simp add: within_def clear_state)

lemma stage_within:
  "st_StageCIDRRule S s g c i a = (x, s') \<Longrightarrow> within g s s'"
  "st_StageCgroupRule S s g c i a = (x, s') \<Longrightarrow> within g s s'"
  "st_StagePortRule S s g q c i a = (x, s') \<Longrightarrow> within g s s'"
  by (cases x; auto simp: within_def dest!: cidr_ok cidr_err cgroup_ok cgroup_err port_ok port_err)+

lemma stage_loops_within:
  "stage_cidrs S g cs s = (x, s') \<Longrightarrow> within g s s'"
  "stage_cgroups S g ds s = (x, s') \<Longrightarrow> within g s s'"
  "stage_ports S g ps s = (x, s') \<Longrightarrow> within g s s'"
proof -
  show "stage_cidrs S g cs s = (x, s') \<Longrightarrow> within g s s'"
    by (induction cs arbitrary: s)
      (auto split: prod.splits option.splits dest: stage_within intro: within_trans)
  show "stage_cgroups S g ds s = (x, s') \<Longrightarrow> within g s s'"
    by (induction ds arbitrary: s)
      (auto split: prod.splits option.splits dest: stage_within intro: within_trans)
  show "stage_ports S g ps s = (x, s') \<Longrightarrow> within g s s'"
    by (induction ps arbitrary: s)
      (auto split: prod.splits option.splits dest: stage_within intro: within_trans)
qed

lemma stage_all_within: "stage_all S g cp s = (x, s') \<Longrightarrow> within g s s'"
  by (auto simp: stage_all_def split: prod.splits option.splits
      dest!: stage_loops_within intro: within_trans)

abbreviation compiled_rules :: "CompiledPolicy \<Rightarrow> u64 list \<Rightarrow> 'r" where
  "compiled_rules \<equiv> compiled_rules_with add_cidr add_cgroup add_port empty"

lemma stage_all_ok:
  assumes "stage_all S g cp s = (None, s')" and "rules s g = empty"
  shows "\<exists>ids. resolved denotes cp ids \<and> active s' = active s \<and> rules s' = (rules s)(g := compiled_rules cp ids)"
proof -
  from assms(1) obtain s1 s2 where 1: "stage_cidrs S g (cpol_CIDRBlocks cp) s = (None, s1)"
    and 2: "stage_cgroups S g (cpol_CgroupBlocks cp) s1 = (None, s2)"
    and 3: "stage_ports S g (cpol_PortRules cp) s2 = (None, s')"
    by (auto simp: stage_all_def split: prod.splits option.splits)
  from stage_cgroups_ok [OF 2] obtain ids where "resolved denotes cp ids" "active s2 = active s1"
    "rules s2 = (rules s1)(g := add_cgroups add_cgroup (zip (cpol_CgroupBlocks cp) ids) (rules s1 g))"
    unfolding resolved_def by blast
  with stage_cidrs_ok [OF 1] stage_ports_ok [OF 3] assms(2) show ?thesis
    by (auto simp: compiled_rules_with_def)
qed

section \<open>The outcome of a reload\<close>

lemma apply_ok:
  assumes "ApplyPolicyAtomic S cp s = ((g, None), s')"
  shows "g = active s + 1 \<and> active s' = g \<and>
    (\<exists>ids. resolved denotes cp ids \<and> rules s' = (rules s)(active s := empty, g := compiled_rules cp ids))"
proof -
  let ?g = "active s + 1"
  let ?s1 = "snd (st_ClearGenerationRules S s ?g)"
  from assms obtain s2 s3 where stage: "stage_all S ?g cp ?s1 = (None, s2)"
    and set: "st_SetActiveGeneration S s2 ?g = (None, s3)" and g: "g = ?g"
    and s': "s' = snd (st_ClearGenerationRules S s3 (active s))"
    by (auto simp: ApplyPolicyAtomic_def get Let_def split: prod.splits option.splits)
  from stage_all_ok [OF stage] obtain ids where "resolved denotes cp ids" "active s2 = active s"
    "rules s2 = (rules s)(?g := compiled_rules cp ids)"
    by (auto simp: clear_state)
  with set_ok [OF set] s' g show ?thesis
    by (auto simp: clear_state fun_upd_twist [of "active s"])
qed

lemma apply_err:
  assumes "ApplyPolicyAtomic S cp s = ((g, Some e), s')"
  shows "g = active s \<and> active s' = active s \<and> rules s' = (rules s)(active s + 1 := empty)"
proof -
  let ?g = "active s + 1"
  let ?s1 = "snd (st_ClearGenerationRules S s ?g)"
  obtain x s2 where stage: "stage_all S ?g cp ?s1 = (x, s2)" by fastforce
  from within_trans [OF within_clear stage_all_within [OF stage]] have w2: "within ?g s s2" .
  have "\<exists>t. within ?g s t \<and> s' = snd (st_ClearGenerationRules S t ?g) \<and> g = active s"
  proof (cases x)
    case (Some y)
    with assms stage w2 show ?thesis by (auto simp: ApplyPolicyAtomic_def get Let_def)
  next
    case None
    with assms stage obtain e' s3 where set: "st_SetActiveGeneration S s2 ?g = (Some e', s3)"
      and "g = active s" "s' = snd (st_ClearGenerationRules S s3 ?g)"
      by (auto simp: ApplyPolicyAtomic_def get Let_def split: prod.splits option.splits)
    moreover from set_err [OF set] w2 have "within ?g s s3" by (simp add: within_def)
    ultimately show ?thesis by blast
  qed
  then show ?thesis
    by (auto simp: within_def clear_state fun_eq_iff)
qed

end

section \<open>Invariants of a reload\<close>

text \<open>A property that every method of a stager keeps is kept by a reload, whether it succeeds or fails.\<close>

locale stager_invariant =
  fixes S :: "('s, 'e) BPFStager" and I :: "'s \<Rightarrow> bool"
  assumes set_keeps: "I s \<Longrightarrow> I (snd (st_SetActiveGeneration S s g))"
    and cidr_keeps: "I s \<Longrightarrow> I (snd (st_StageCIDRRule S s g c i a))"
    and cgroup_keeps: "I s \<Longrightarrow> I (snd (st_StageCgroupRule S s g p i a))"
    and port_keeps: "I s \<Longrightarrow> I (snd (st_StagePortRule S s g q t i a))"
    and clear_keeps: "I s \<Longrightarrow> I (snd (st_ClearGenerationRules S s g))"
begin

lemma loops_keep:
  shows "I s \<Longrightarrow> I (snd (stage_cidrs S g cs s))"
    and "I s \<Longrightarrow> I (snd (stage_cgroups S g ds s))"
    and "I s \<Longrightarrow> I (snd (stage_ports S g ps s))"
proof -
  show "I s \<Longrightarrow> I (snd (stage_cidrs S g cs s))"
    by (induction cs arbitrary: s) (auto split: prod.splits option.splits, (metis cidr_keeps snd_conv)+)
  show "I s \<Longrightarrow> I (snd (stage_cgroups S g ds s))"
    by (induction ds arbitrary: s) (auto split: prod.splits option.splits, (metis cgroup_keeps snd_conv)+)
  show "I s \<Longrightarrow> I (snd (stage_ports S g ps s))"
    by (induction ps arbitrary: s) (auto split: prod.splits option.splits, (metis port_keeps snd_conv)+)
qed

lemma stage_all_keeps: "I s \<Longrightarrow> I (snd (stage_all S g cp s))"
  using loops_keep
  by (auto simp: stage_all_def split: prod.splits option.splits) (metis snd_conv)+

lemma apply_keeps:
  assumes "I s"
  shows "I (snd (ApplyPolicyAtomic S cp s))"
proof (cases "st_GetActiveGeneration S s")
  case (Inr g)
  let ?s1 = "snd (st_ClearGenerationRules S s (g + 1))"
  obtain x s2 where stage: "stage_all S (g + 1) cp ?s1 = (x, s2)" by (rule prod.exhaust)
  with stage_all_keeps [OF clear_keeps [OF assms], of "g + 1" cp] have "I s2" by (metis snd_conv)
  moreover obtain y s3 where set: "st_SetActiveGeneration S s2 (g + 1) = (y, s3)" by (rule prod.exhaust)
  ultimately have "I s2" "I s3" using set_keeps [of s2 "g + 1"] by simp_all
  with Inr stage set show ?thesis
    by (cases x; cases y) (simp_all add: ApplyPolicyAtomic_def Let_def clear_keeps)
qed (simp add: ApplyPolicyAtomic_def assms)

end

end
