(* ===== verification/Bpf_Maps.thy ===== *)
theory Bpf_Maps
  imports Go_Net "HOL-Library.AList"
begin

text \<open>
  The data the Go control plane and the eBPF programs share (the keys and values of
  \<^verbatim>\<open>bpf/headers/common.h\<close>, as \<^verbatim>\<open>bpf2go\<close> renders them in \<^verbatim>\<open>pkg/bpf/*_bpf.go\<close>), and the interface
  to the code that is not part of the repository: the kernel's maps behind
  \<^verbatim>\<open>github.com/cilium/ebpf\<close> and the file system.

  That code is a parameter. A value of type \<open>'w kernel\<close> gives its operations on a world \<open>'w\<close>; every
  definition that calls it takes such a value. Each fallible call returns the text of its error,
  or \<^const>\<open>None\<close>, with the new world. What the sources rely on is the locale \<open>bpf_kernel\<close>: the
  contents of the four policy maps as a function \<open>view\<close> of the world, and the documented effect of
  each call on them. Two instances are built: \<open>ref_kernel\<close>, a kernel with bounded maps in which
  everything can be evaluated, and \<open>traced\<close>, which records every world that a sequence of calls
  passes through, so that claims about what a packet can observe in between are claims about a
  list of worlds.
\<close>

section \<open>Keys and values\<close>

record lpm_key_ipv4 =
  lpm_prefixlen :: u32
  lpm_gen :: u32
  lpm_addr :: u32

record cgroup_key =
  cgk_gen :: u32
  cgk_pad :: u32
  cgk_cgroup_id :: u64

record port_rule_key =
  prk_gen :: u32
  prk_dst_port :: u16
  prk_protocol :: u8
  prk_pad :: u8

record port_rule_val =
  prv_action :: u32
  prv_rule_id :: u32

record stats_value =
  sv_rx_packets :: u64
  sv_rx_bytes :: u64
  sv_pass_packets :: u64
  sv_drop_packets :: u64

record flow_key =
  fk_src_ip :: u32
  fk_dst_ip :: u32
  fk_src_port :: u16
  fk_dst_port :: u16
  fk_protocol :: u8
  fk_pad :: "u8 list"

record flow_state =
  fls_state :: u32
  fls_packets :: u64
  fls_bytes :: u64
  fls_last_seen :: u64
  fls_flags :: u32
  fls_pad :: u32

section \<open>The operations of the kernel\<close>

type_synonym 'w call = "string option \<times> 'w"

record 'w kernel =
  k_gen_lookup :: "'w \<Rightarrow> u32 \<Rightarrow> u32 option"
  k_gen_put :: "'w \<Rightarrow> u32 \<Rightarrow> u32 \<Rightarrow> 'w call"
  k_lpm_lookup :: "'w \<Rightarrow> lpm_key_ipv4 \<Rightarrow> u32 option"
  k_lpm_put :: "'w \<Rightarrow> lpm_key_ipv4 \<Rightarrow> u32 \<Rightarrow> 'w call"
  k_lpm_delete :: "'w \<Rightarrow> lpm_key_ipv4 \<Rightarrow> 'w call"
  k_lpm_iterate :: "'w \<Rightarrow> (lpm_key_ipv4 \<times> u32) list"
  k_cg_lookup :: "'w \<Rightarrow> cgroup_key \<Rightarrow> u32 option"
  k_cg_put :: "'w \<Rightarrow> cgroup_key \<Rightarrow> u32 \<Rightarrow> 'w call"
  k_cg_delete :: "'w \<Rightarrow> cgroup_key \<Rightarrow> 'w call"
  k_cg_iterate :: "'w \<Rightarrow> (cgroup_key \<times> u32) list"
  k_port_lookup :: "'w \<Rightarrow> port_rule_key \<Rightarrow> port_rule_val option"
  k_port_put :: "'w \<Rightarrow> port_rule_key \<Rightarrow> port_rule_val \<Rightarrow> 'w call"
  k_port_delete :: "'w \<Rightarrow> port_rule_key \<Rightarrow> 'w call"
  k_port_iterate :: "'w \<Rightarrow> (port_rule_key \<times> port_rule_val) list"
  k_stat :: "'w \<Rightarrow> string \<Rightarrow> string + u64 option"
  k_mkdirall :: "'w \<Rightarrow> string \<Rightarrow> 'w call"
  k_conntrack_iterate :: "'w \<Rightarrow> (flow_key \<times> flow_state) list \<times> string option"
  k_xdp_stats :: "'w \<Rightarrow> stats_value list option"
  k_tc_stats :: "'w \<Rightarrow> stats_value list option"
  k_sockops_stats :: "'w \<Rightarrow> stats_value list option"

text \<open>What the four policy maps hold.\<close>

record map_view =
  v_gen :: u32
  v_lpm :: "lpm_key_ipv4 \<rightharpoonup> u32"
  v_cgroup :: "cgroup_key \<rightharpoonup> u32"
  v_port :: "port_rule_key \<rightharpoonup> port_rule_val"

section \<open>Longest-prefix keys\<close>

text \<open>The bits a trie compares: the bytes of the key behind \<^verbatim>\<open>prefixlen\<close> as they lie in memory on a
  little-endian machine, each from its top bit.\<close>

definition lpm_bits :: "lpm_key_ipv4 \<Rightarrow> bool list" where
  "lpm_bits k = bits_of (le_bytes32 (lpm_gen k) @ le_bytes32 (lpm_addr k))"

definition lpm_covers :: "lpm_key_ipv4 \<Rightarrow> lpm_key_ipv4 \<Rightarrow> bool" where
  "lpm_covers k' k \<longleftrightarrow>
     unat (lpm_prefixlen k') \<le> unat (lpm_prefixlen k) \<and>
     take (unat (lpm_prefixlen k')) (lpm_bits k') = take (unat (lpm_prefixlen k')) (lpm_bits k)"

text \<open>A key the trie accepts, with no bit set behind its prefix.\<close>

definition lpm_ok :: "lpm_key_ipv4 \<Rightarrow> bool" where
  "lpm_ok k \<longleftrightarrow>
     unat (lpm_prefixlen k) \<le> 64 \<and>
     drop (unat (lpm_prefixlen k)) (lpm_bits k) = replicate (64 - unat (lpm_prefixlen k)) False"

section \<open>The contract of a policy map\<close>

text \<open>Deleting a list of keys, ignoring each error, as \<^verbatim>\<open>ClearGenerationRules\<close> does.\<close>

fun delete_keys :: "('w \<Rightarrow> 'k \<Rightarrow> 'w call) \<Rightarrow> 'k list \<Rightarrow> 'w \<Rightarrow> 'w" where
  "delete_keys del [] w = w"
| "delete_keys del (k # ks) w = delete_keys del ks (snd (del w k))"

locale bpf_hash =
  fixes view :: "'w \<Rightarrow> map_view"
    and sel :: "map_view \<Rightarrow> ('k \<Rightarrow> 'v option)"
    and setc :: "('k \<Rightarrow> 'v option) \<Rightarrow> map_view \<Rightarrow> map_view"
    and ok :: "'k \<Rightarrow> bool"
    and put :: "'w \<Rightarrow> 'k \<Rightarrow> 'v \<Rightarrow> 'w call"
    and delete :: "'w \<Rightarrow> 'k \<Rightarrow> 'w call"
    and iterate :: "'w \<Rightarrow> ('k \<times> 'v) list"
  assumes sel_setc [simp]: "sel (setc c m) = c"
    and setc_setc [simp]: "setc c (setc d m) = setc c m"
    and setc_sel [simp]: "setc (sel m) m = m"
    and put_ok: "put w k v = (None, w') \<Longrightarrow> ok k \<Longrightarrow> view w' = setc ((sel (view w))(k \<mapsto> v)) (view w)"
    and put_err: "put w k v = (Some e, w') \<Longrightarrow> view w' = view w"
    and delete_ok: "delete w k = (None, w') \<Longrightarrow> ok k \<Longrightarrow> view w' = setc ((sel (view w))(k := None)) (view w)"
    and delete_err: "delete w k = (Some e, w') \<Longrightarrow> sel (view w) k = None \<and> view w' = view w"
    and stored_ok: "sel (view w) k \<noteq> None \<Longrightarrow> ok k"
    and iterate_all: "(k, v) \<in> set (iterate w) \<longleftrightarrow> sel (view w) k = Some v"
begin

lemma delete_view:
  assumes "ok k"
  shows "view (snd (delete w k)) = setc ((sel (view w))(k := None)) (view w)"
proof (cases "delete w k")
  case (Pair e w')
  show ?thesis
  proof (cases e)
    case None
    with Pair assms show ?thesis by (simp add: delete_ok)
  next
    case (Some x)
    with Pair have "sel (view w) k = None" and "view w' = view w"
      using delete_err by auto
    with Pair show ?thesis by (simp add: fun_upd_idem)
  qed
qed

lemma delete_keys_view:
  "(\<And>k. k \<in> set ks \<Longrightarrow> ok k) \<Longrightarrow>
     view (delete_keys delete ks w) = setc (\<lambda>k. if k \<in> set ks then None else sel (view w) k) (view w)"
proof (induction ks arbitrary: w)
  case (Cons k ks)
  have "(\<lambda>x. if x \<in> set ks then None else ((sel (view w))(k := None)) x) =
      (\<lambda>x. if x \<in> set (k # ks) then None else sel (view w) x)"
    by auto
  moreover have "ok k" using Cons.prems by simp
  ultimately show ?case using Cons by (simp add: delete_view [OF \<open>ok k\<close>] cong: if_cong)
qed simp

text \<open>Collecting the keys of one generation and deleting them empties that generation and
  touches nothing else.\<close>

lemma clear_view:
  "view (delete_keys delete (map fst (filter (\<lambda>(k, v). gen k = g) (iterate w))) w) =
     setc (\<lambda>k. if gen k = g then None else sel (view w) k) (view w)"
proof -
  let ?ks = "map fst (filter (\<lambda>(k, v). gen k = g) (iterate w))"
  have keys: "k \<in> set ?ks \<longleftrightarrow> gen k = g \<and> sel (view w) k \<noteq> None" for k
    by (force simp: iterate_all)
  then have "view (delete_keys delete ?ks w) = setc (\<lambda>k. if k \<in> set ?ks then None else sel (view w) k) (view w)"
    by (intro delete_keys_view) (auto intro: stored_ok)
  also have "(\<lambda>k. if k \<in> set ?ks then None else sel (view w) k) =
      (\<lambda>k. if gen k = g then None else sel (view w) k)"
    unfolding keys by auto
  finally show ?thesis .
qed

end

section \<open>The contract of the kernel\<close>

text \<open>
  \<open>inode\<close> gives the number of the directory a path denotes whenever it exists.
  The assumptions: the one-element array always has its entry; a trie lookup returns the value of
  the longest stored prefix that covers the key, and a key longer than the trie's 64 bits is
  refused; the hash maps return what was stored; and creating directories leaves the maps alone.
\<close>

locale bpf_kernel =
  lpm: bpf_hash view v_lpm "\<lambda>c m. m\<lparr>v_lpm := c\<rparr>" lpm_ok "k_lpm_put K" "k_lpm_delete K" "k_lpm_iterate K" +
  cg: bpf_hash view v_cgroup "\<lambda>c m. m\<lparr>v_cgroup := c\<rparr>" "\<lambda>_. True" "k_cg_put K" "k_cg_delete K" "k_cg_iterate K" +
  port: bpf_hash view v_port "\<lambda>c m. m\<lparr>v_port := c\<rparr>" "\<lambda>_. True" "k_port_put K" "k_port_delete K" "k_port_iterate K"
  for K :: "'w kernel" and view :: "'w \<Rightarrow> map_view" +
  fixes inode :: "string \<Rightarrow> u64"
  assumes gen_lookup: "k_gen_lookup K w 0 = Some (v_gen (view w))"
    and gen_put_ok: "k_gen_put K w 0 g = (None, w') \<Longrightarrow> view w' = (view w)\<lparr>v_gen := g\<rparr>"
    and gen_put_err: "k_gen_put K w 0 g = (Some e, w') \<Longrightarrow> view w' = view w"
    and lpm_put_long: "64 < unat (lpm_prefixlen k) \<Longrightarrow> fst (k_lpm_put K w k x) \<noteq> None"
    and lpm_lookup_None: "k_lpm_lookup K w k = None \<longleftrightarrow> (\<forall>k'. v_lpm (view w) k' \<noteq> None \<longrightarrow> \<not> lpm_covers k' k)"
    and lpm_lookup_Some: "k_lpm_lookup K w k = Some x \<Longrightarrow>
      \<exists>k'. v_lpm (view w) k' = Some x \<and> lpm_covers k' k \<and>
        (\<forall>k''. v_lpm (view w) k'' \<noteq> None \<longrightarrow> lpm_covers k'' k \<longrightarrow>
          unat (lpm_prefixlen k'') \<le> unat (lpm_prefixlen k'))"
    and cg_lookup: "k_cg_lookup K w c = v_cgroup (view w) c"
    and port_lookup: "k_port_lookup K w p = v_port (view w) p"
    and stat_inode: "k_stat K w path = Inr (Some i) \<Longrightarrow> i = inode path"
    and mkdirall_view: "view (snd (k_mkdirall K w path)) = view w"

section \<open>A reference kernel\<close>

text \<open>Association lists bounded by the \<^verbatim>\<open>max_entries\<close> of \<^verbatim>\<open>xdp_firewall.c\<close>, and a table of
  directories. It shows that the contract can be met, and every witness is evaluated on it.\<close>

record ref_world =
  rw_gen :: u32
  rw_lpm :: "(lpm_key_ipv4 \<times> u32) list"
  rw_cg :: "(cgroup_key \<times> u32) list"
  rw_port :: "(port_rule_key \<times> port_rule_val) list"
  rw_dirs :: "(string \<times> u64) list"
  rw_flows :: "(flow_key \<times> flow_state) list"
  rw_stats :: "stats_value list"

definition ref_entries :: "('k \<Rightarrow> bool) \<Rightarrow> ('k \<times> 'v) list \<Rightarrow> ('k \<times> 'v) list" where
  "ref_entries ok xs = filter (ok \<circ> fst) (AList.clearjunk xs)"

definition ref_put ::
  "('k \<Rightarrow> bool) \<Rightarrow> (('k \<times> 'v) list \<Rightarrow> 'w) \<Rightarrow> 'w \<Rightarrow> ('k \<times> 'v) list \<Rightarrow> 'k \<Rightarrow> 'v \<Rightarrow> 'w call" where
  "ref_put ok store w xs k v =
     (if \<not> ok k then (Some ''invalid argument'', w)
      else if map_of xs k = None \<and> 1024 \<le> length xs then (Some ''no space left on device'', w)
      else (None, store (AList.update k v xs)))"

definition ref_delete :: "(('k \<times> 'v) list \<Rightarrow> 'w) \<Rightarrow> 'w \<Rightarrow> ('k \<times> 'v) list \<Rightarrow> 'k \<Rightarrow> 'w call" where
  "ref_delete store w xs k =
     (if map_of xs k = None then (Some ''key does not exist'', w) else (None, store (AList.delete k xs)))"

fun lpm_best :: "(lpm_key_ipv4 \<times> u32) list \<Rightarrow> lpm_key_ipv4 \<Rightarrow> (lpm_key_ipv4 \<times> u32) option" where
  "lpm_best [] k = None"
| "lpm_best ((k', x) # xs) k =
     (case lpm_best xs k of
        None \<Rightarrow> if lpm_covers k' k then Some (k', x) else None
      | Some (k2, x2) \<Rightarrow>
          if lpm_covers k' k \<and> unat (lpm_prefixlen k2) \<le> unat (lpm_prefixlen k') then Some (k', x)
          else Some (k2, x2))"

definition ref_view :: "ref_world \<Rightarrow> map_view" where
  "ref_view w = \<lparr>v_gen = rw_gen w, v_lpm = map_of (ref_entries lpm_ok (rw_lpm w)),
     v_cgroup = map_of (rw_cg w), v_port = map_of (rw_port w)\<rparr>"

definition ref_inode :: "string \<Rightarrow> u64" where
  "ref_inode path = of_nat (length path)"

definition ref_kernel :: "ref_world kernel" where
  "ref_kernel = \<lparr>
     k_gen_lookup = (\<lambda>w k. if k = 0 then Some (rw_gen w) else None),
     k_gen_put = (\<lambda>w k g. if k = 0 then (None, w\<lparr>rw_gen := g\<rparr>) else (Some ''invalid argument'', w)),
     k_lpm_lookup = (\<lambda>w k. map_option snd (lpm_best (ref_entries lpm_ok (rw_lpm w)) k)),
     k_lpm_put = (\<lambda>w k v. ref_put lpm_ok (\<lambda>xs. w\<lparr>rw_lpm := xs\<rparr>) w (ref_entries lpm_ok (rw_lpm w)) k v),
     k_lpm_delete = (\<lambda>w k. ref_delete (\<lambda>xs. w\<lparr>rw_lpm := xs\<rparr>) w (ref_entries lpm_ok (rw_lpm w)) k),
     k_lpm_iterate = (\<lambda>w. ref_entries lpm_ok (rw_lpm w)),
     k_cg_lookup = (\<lambda>w k. map_of (rw_cg w) k),
     k_cg_put = (\<lambda>w k v. ref_put (\<lambda>_. True) (\<lambda>xs. w\<lparr>rw_cg := xs\<rparr>) w (rw_cg w) k v),
     k_cg_delete = (\<lambda>w k. ref_delete (\<lambda>xs. w\<lparr>rw_cg := xs\<rparr>) w (rw_cg w) k),
     k_cg_iterate = (\<lambda>w. ref_entries (\<lambda>_. True) (rw_cg w)),
     k_port_lookup = (\<lambda>w k. map_of (rw_port w) k),
     k_port_put = (\<lambda>w k v. ref_put (\<lambda>_. True) (\<lambda>xs. w\<lparr>rw_port := xs\<rparr>) w (rw_port w) k v),
     k_port_delete = (\<lambda>w k. ref_delete (\<lambda>xs. w\<lparr>rw_port := xs\<rparr>) w (rw_port w) k),
     k_port_iterate = (\<lambda>w. ref_entries (\<lambda>_. True) (rw_port w)),
     k_stat = (\<lambda>w p. if map_of (rw_dirs w) p = None then Inl ''no such file or directory'' else Inr (Some (ref_inode p))),
     k_mkdirall = (\<lambda>w p. if p = [] then (Some ''no such file or directory'', w)
        else (None, w\<lparr>rw_dirs := (p, ref_inode p) # rw_dirs w\<rparr>)),
     k_conntrack_iterate = (\<lambda>w. (rw_flows w, None)),
     k_xdp_stats = (\<lambda>w. Some (rw_stats w)),
     k_tc_stats = (\<lambda>w. Some []),
     k_sockops_stats = (\<lambda>w. None)\<rparr>"

lemma map_of_filter_fst: "map_of (filter (ok \<circ> fst) xs) k = (if ok k then map_of xs k else None)"
  by (induction xs) auto

lemma map_of_ref_entries: "map_of (ref_entries ok xs) k = (if ok k then map_of xs k else None)"
  by (simp add: ref_entries_def map_of_filter_fst map_of_clearjunk)

lemma ref_entries_iff: "(k, v) \<in> set (ref_entries ok xs) \<longleftrightarrow> map_of (ref_entries ok xs) k = Some v"
  by (rule Map.map_of_eq_Some_iff [symmetric])
    (simp add: ref_entries_def distinct_map_filter distinct_clearjunk)

lemma lpm_best_None: "lpm_best xs k = None \<longleftrightarrow> (\<forall>(k', x) \<in> set xs. \<not> lpm_covers k' k)"
  by (induction xs) (auto split: option.splits if_splits)

lemma lpm_best_Some:
  "lpm_best xs k = Some (k', x) \<Longrightarrow> (k', x) \<in> set xs \<and> lpm_covers k' k \<and>
     (\<forall>(k'', y) \<in> set xs. lpm_covers k'' k \<longrightarrow> unat (lpm_prefixlen k'') \<le> unat (lpm_prefixlen k'))"
proof (induction xs arbitrary: k' x)
  case (Cons e xs)
  obtain k1 x1 where e: "e = (k1, x1)" by (cases e)
  show ?case
  proof (cases "lpm_best xs k")
    case None
    with Cons.prems e show ?thesis by (auto simp: lpm_best_None split: if_splits)
  next
    case (Some b)
    then obtain k2 x2 where b: "lpm_best xs k = Some (k2, x2)" by (cases b) auto
    from Cons.IH [OF b] Cons.prems e b show ?thesis by (auto split: if_splits)
  qed
qed simp

lemma update_fun: "map_of (AList.update k v xs) = (map_of xs)(k \<mapsto> v)"
  by (rule ext) (simp add: update_conv)

lemma delete_fun: "map_of (AList.delete k xs) = (map_of xs)(k := None)"
  by (rule ext) (simp add: delete_conv)

lemma entries_update:
  "ok k \<Longrightarrow> map_of (ref_entries ok (AList.update k v (ref_entries ok xs))) = (map_of (ref_entries ok xs))(k \<mapsto> v)"
  "map_of (ref_entries ok (AList.delete k (ref_entries ok xs))) = (map_of (ref_entries ok xs))(k := None)"
  by (auto simp: map_of_ref_entries update_fun delete_fun)

lemma map_of_entries_True [simp]: "map_of (ref_entries (\<lambda>_. True) xs) = map_of xs"
  by (rule ext) (simp add: map_of_ref_entries)

interpretation ref: bpf_kernel ref_kernel ref_view ref_inode
proof
  fix w w' :: ref_world and k k' :: lpm_key_ipv4 and v x :: u32 and e :: string
  let ?xs = "ref_entries lpm_ok (rw_lpm w)"
  show "k_lpm_put ref_kernel w k v = (None, w') \<Longrightarrow> lpm_ok k \<Longrightarrow>
      ref_view w' = (ref_view w)\<lparr>v_lpm := (v_lpm (ref_view w))(k \<mapsto> v)\<rparr>"
    by (auto simp: ref_kernel_def ref_put_def ref_view_def entries_update split: if_splits)
  show "k_lpm_delete ref_kernel w k = (None, w') \<Longrightarrow> lpm_ok k \<Longrightarrow>
      ref_view w' = (ref_view w)\<lparr>v_lpm := (v_lpm (ref_view w))(k := None)\<rparr>"
    by (auto simp: ref_kernel_def ref_delete_def ref_view_def entries_update split: if_splits)
  show "((k, v) \<in> set (k_lpm_iterate ref_kernel w)) = (v_lpm (ref_view w) k = Some v)"
    by (simp add: ref_kernel_def ref_view_def ref_entries_iff)
  show "v_lpm (ref_view w) k \<noteq> None \<Longrightarrow> lpm_ok k"
    by (simp add: ref_view_def map_of_ref_entries split: if_splits)
  show "64 < unat (lpm_prefixlen k) \<Longrightarrow> fst (k_lpm_put ref_kernel w k x) \<noteq> None"
    by (simp add: ref_kernel_def ref_put_def lpm_ok_def)
  show "(k_lpm_lookup ref_kernel w k = None) =
      (\<forall>k'. v_lpm (ref_view w) k' \<noteq> None \<longrightarrow> \<not> lpm_covers k' k)"
    by (auto simp: ref_kernel_def ref_view_def lpm_best_None ref_entries_iff)
  show "\<exists>k'. v_lpm (ref_view w) k' = Some x \<and> lpm_covers k' k \<and>
      (\<forall>k''. v_lpm (ref_view w) k'' \<noteq> None \<longrightarrow> lpm_covers k'' k \<longrightarrow>
        unat (lpm_prefixlen k'') \<le> unat (lpm_prefixlen k'))"
    if "k_lpm_lookup ref_kernel w k = Some x"
  proof -
    from that obtain b where "lpm_best ?xs k = Some (b, x)" by (auto simp: ref_kernel_def)
    from lpm_best_Some [OF this] show ?thesis
      by (intro exI [of _ b]) (auto simp: ref_view_def ref_entries_iff)
  qed
qed (auto simp: ref_kernel_def ref_put_def ref_delete_def ref_view_def update_fun delete_fun
    ref_entries_iff split: if_splits)

section \<open>Recording every world\<close>

text \<open>\<open>traced K\<close> behaves like \<open>K\<close> on the first component of a pair and appends each world that a
  call leaves behind to the second.\<close>

definition log_call :: "'w list \<Rightarrow> 'w call \<Rightarrow> ('w \<times> 'w list) call" where
  "log_call l c = (fst c, (snd c, l @ [snd c]))"

definition traced :: "'w kernel \<Rightarrow> ('w \<times> 'w list) kernel" where
  "traced K = \<lparr>
     k_gen_lookup = (\<lambda>s. k_gen_lookup K (fst s)),
     k_gen_put = (\<lambda>s k g. log_call (snd s) (k_gen_put K (fst s) k g)),
     k_lpm_lookup = (\<lambda>s. k_lpm_lookup K (fst s)),
     k_lpm_put = (\<lambda>s k v. log_call (snd s) (k_lpm_put K (fst s) k v)),
     k_lpm_delete = (\<lambda>s k. log_call (snd s) (k_lpm_delete K (fst s) k)),
     k_lpm_iterate = (\<lambda>s. k_lpm_iterate K (fst s)),
     k_cg_lookup = (\<lambda>s. k_cg_lookup K (fst s)),
     k_cg_put = (\<lambda>s k v. log_call (snd s) (k_cg_put K (fst s) k v)),
     k_cg_delete = (\<lambda>s k. log_call (snd s) (k_cg_delete K (fst s) k)),
     k_cg_iterate = (\<lambda>s. k_cg_iterate K (fst s)),
     k_port_lookup = (\<lambda>s. k_port_lookup K (fst s)),
     k_port_put = (\<lambda>s k v. log_call (snd s) (k_port_put K (fst s) k v)),
     k_port_delete = (\<lambda>s k. log_call (snd s) (k_port_delete K (fst s) k)),
     k_port_iterate = (\<lambda>s. k_port_iterate K (fst s)),
     k_stat = (\<lambda>s. k_stat K (fst s)),
     k_mkdirall = (\<lambda>s p. log_call (snd s) (k_mkdirall K (fst s) p)),
     k_conntrack_iterate = (\<lambda>s. k_conntrack_iterate K (fst s)),
     k_xdp_stats = (\<lambda>s. k_xdp_stats K (fst s)),
     k_tc_stats = (\<lambda>s. k_tc_stats K (fst s)),
     k_sockops_stats = (\<lambda>s. k_sockops_stats K (fst s))\<rparr>"

lemma log_call_eq [simp]: "log_call l c = (r, s) \<longleftrightarrow> c = (r, fst s) \<and> snd s = l @ [fst s]"
  by (cases s) (auto simp: log_call_def prod_eq_iff)

lemma log_call_sel [simp]: "fst (log_call l c) = fst c" "fst (snd (log_call l c)) = snd c"
    "snd (snd (log_call l c)) = l @ [snd c]"
  by (simp_all add: log_call_def)

context bpf_kernel
begin

text \<open>A recorded kernel meets the contract too.\<close>

lemma traced_kernel: "bpf_kernel (traced K) (\<lambda>s. view (fst s)) inode"
proof
  show "\<exists>k'. v_lpm (view (fst s)) k' = Some x \<and> lpm_covers k' k \<and>
      (\<forall>k''. v_lpm (view (fst s)) k'' \<noteq> None \<longrightarrow> lpm_covers k'' k \<longrightarrow>
        unat (lpm_prefixlen k'') \<le> unat (lpm_prefixlen k'))"
    if "k_lpm_lookup (traced K) s k = Some x" for s :: "'w \<times> 'w list" and k x
    using lpm_lookup_Some [of "fst s" k x] that by (simp add: traced_def)
qed (auto simp: traced_def lpm.put_ok lpm.put_err lpm.delete_ok lpm.delete_err lpm.stored_ok lpm.iterate_all
    cg.put_ok cg.put_err cg.delete_ok cg.delete_err cg.iterate_all
    port.put_ok port.put_err port.delete_ok port.delete_err port.iterate_all
    gen_lookup gen_put_ok gen_put_err lpm_lookup_None cg_lookup port_lookup mkdirall_view
    dest: lpm_put_long stat_inode)

end

end
