(* ===== verification/Identity.thy ===== *)
theory Identity
  imports Bpf_Maps
begin

text \<open>
  Package \<^verbatim>\<open>pkg/identity\<close>: the cgroup resolver of \<^verbatim>\<open>cgroup.go\<close>. A resolution may create the
  directory, so it returns the world that it leaves. The lemmas say that a resolved ID is the inode
  of the given path or of its place under \<^verbatim>\<open>/sys/fs/cgroup\<close>, and that the policy maps are not touched.
\<close>

datatype cgroup_error =
    StatFailed string string
  | NoRawStat string

definition cgroup_target :: "string \<Rightarrow> string" where
  "cgroup_target cgroupPath =
     (if \<not> HasPrefix cgroupPath ''/sys/fs/cgroup''
      then ''/sys/fs/cgroup/'' @ TrimPrefix cgroupPath ''/'' else cgroupPath)"

definition GetCgroupID :: "'w kernel \<Rightarrow> string \<Rightarrow> 'w \<Rightarrow> (cgroup_error + u64) \<times> 'w" where
  "GetCgroupID K cgroupPath w =
     (let targetPath = cgroup_target cgroupPath;
          fi1 = (case k_stat K w cgroupPath of Inl _ \<Rightarrow> k_stat K w targetPath | Inr st \<Rightarrow> Inr st);
          (fi2, w') =
            (case fi1 of
               Inr st \<Rightarrow> (Inr st, w)
             | Inl err \<Rightarrow> (case k_mkdirall K w targetPath of
                 (None, w1) \<Rightarrow> (k_stat K w1 targetPath, w1)
               | (Some _, w1) \<Rightarrow> (Inl err, w1)))
      in case fi2 of
        Inl err \<Rightarrow> (Inl (StatFailed cgroupPath err), w')
      | Inr None \<Rightarrow> (Inl (NoRawStat cgroupPath), w')
      | Inr (Some ino) \<Rightarrow> (Inr ino, w'))"

definition ResolveID :: "u64 \<Rightarrow> u32" where
  "ResolveID cgroupID = ucast (cgroupID mod 10000)"

fun cgroup_error_text :: "cgroup_error \<Rightarrow> string" where
  "cgroup_error_text (StatFailed p e) = ''failed to stat cgroup path '' @ p @ '': '' @ e"
| "cgroup_error_text (NoRawStat p) = ''failed to get raw syscall.Stat_t for cgroup path '' @ p"

lemma cgroup_target_prefix: "HasPrefix (cgroup_target p) ''/sys/fs/cgroup''"
  by (simp add: cgroup_target_def HasPrefix_def)

lemma cgroup_target_idem: "cgroup_target (cgroup_target p) = cgroup_target p"
  using cgroup_target_prefix [of p] by (simp add: cgroup_target_def [of "cgroup_target p"])

lemma ResolveID_bound: "unat (ResolveID c) < 10000"
proof -
  have "unat (c mod 10000) < 10000"
    by (simp add: unat_mod)
  then show ?thesis
    by (simp add: ResolveID_def unsigned_ucast_eq le_less_trans [OF take_bit_nat_less_eq_self])
qed

context bpf_kernel
begin

lemma GetCgroupID_inode:
  "GetCgroupID K p w = (Inr i, w') \<Longrightarrow> i \<in> {inode p, inode (cgroup_target p)}"
  by (auto simp: GetCgroupID_def Let_def split: sum.splits option.splits prod.splits dest: stat_inode)

lemma GetCgroupID_view: "view (snd (GetCgroupID K p w)) = view w"
  using mkdirall_view [of w "cgroup_target p"]
  by (auto simp: GetCgroupID_def Let_def split: sum.splits option.splits prod.splits)

end

end
