(* ===== verification/Loader.thy ===== *)
theory Loader
  imports Atomic_Swap Identity
begin

text \<open>
  The map operations of \<^verbatim>\<open>pkg/bpf/loader.go\<close>: staging, switching and clearing a generation, the
  direct insertions and removals, and the queries. Each method runs under the mutex of the loader, so
  each is a function on the world of the kernel. \<open>loader_stager K\<close> is the loader seen through the
  interface \<^verbatim>\<open>BPFStager\<close>; that it meets the contract of the swapper is proved for every kernel
  that meets the contract of \<open>bpf_kernel\<close>.
\<close>

section \<open>Errors\<close>

text \<open>One constructor per error value; \<open>RuntimePanic\<close> is a run-time panic (a nil dereference or an
  index out of range), which unwinds to the caller and is not an error value.\<close>

datatype loader_error =
    InvalidCIDROrIPv4 string
  | OnlyIPv4 string
  | StageCIDRFailed string u32 string
  | DeleteCIDRFailed string string
  | InsertCgroupFailed u64 string
  | DeleteCgroupFailed u64 string
  | ResolveCgroupFailed string cgroup_error
  | StageCgroupFailed string u32 string
  | StagePortFailed u16 string u32 string
  | SetGenerationFailed u32 string
  | ConntrackIterFailed string
  | RuntimePanic

fun loader_error_text :: "loader_error \<Rightarrow> string" where
  "loader_error_text (InvalidCIDROrIPv4 s) = ''invalid CIDR or IPv4 address: '' @ s"
| "loader_error_text (OnlyIPv4 s) = ''only IPv4 supported: '' @ s"
| "loader_error_text (StageCIDRFailed s g e) =
     ''failed to stage CIDR '' @ s @ '' (gen '' @ dec (unat g) @ ''): '' @ e"
| "loader_error_text (DeleteCIDRFailed s e) =
     ''failed to delete CIDR '' @ s @ '' from BPF LPM blocklist: '' @ e"
| "loader_error_text (InsertCgroupFailed c e) =
     ''failed to insert cgroup_id '' @ dec (unat c) @ '' into cgroup_identity_map: '' @ e"
| "loader_error_text (DeleteCgroupFailed c e) =
     ''failed to delete cgroup_id '' @ dec (unat c) @ '' from cgroup_identity_map: '' @ e"
| "loader_error_text (ResolveCgroupFailed p e) =
     ''failed to resolve cgroup path '' @ p @ '': '' @ cgroup_error_text e"
| "loader_error_text (StageCgroupFailed p g e) =
     ''failed to stage cgroup '' @ p @ '' (gen '' @ dec (unat g) @ ''): '' @ e"
| "loader_error_text (StagePortFailed q t g e) =
     ''failed to stage port rule '' @ dec (unat q) @ ''/'' @ t @ '' (gen '' @ dec (unat g) @ ''): '' @ e"
| "loader_error_text (SetGenerationFailed g e) =
     ''failed to update active_generation_map to '' @ dec (unat g) @ '': '' @ e"
| "loader_error_text (ConntrackIterFailed e) = ''conntrack map iteration error: '' @ e"
| "loader_error_text RuntimePanic = []"

definition wrap_call :: "(string \<Rightarrow> loader_error) \<Rightarrow> 'w call \<Rightarrow> loader_error option \<times> 'w" where
  "wrap_call f c = (map_option f (fst c), snd c)"

section \<open>Generations\<close>

definition GetActiveGeneration :: "'w kernel \<Rightarrow> 'w \<Rightarrow> loader_error + u32" where
  "GetActiveGeneration K w =
     (case k_gen_lookup K w 0 of None \<Rightarrow> Inr 0 | Some gen \<Rightarrow> Inr gen)"

text \<open>\<^verbatim>\<open>gen, _ := l.GetActiveGeneration()\<close>: the value, whatever the error.\<close>

definition active_gen :: "'w kernel \<Rightarrow> 'w \<Rightarrow> u32" where
  "active_gen K w = (case GetActiveGeneration K w of Inl _ \<Rightarrow> 0 | Inr gen \<Rightarrow> gen)"

definition SetActiveGeneration :: "'w kernel \<Rightarrow> 'w \<Rightarrow> u32 \<Rightarrow> loader_error option \<times> 'w" where
  "SetActiveGeneration K w gen = wrap_call (SetGenerationFailed gen) (k_gen_put K w 0 gen)"

section \<open>CIDR rules\<close>

text \<open>The head of \<^verbatim>\<open>StageCIDRRule\<close> and \<^verbatim>\<open>RemoveBlockCIDR\<close>: a CIDR, or else a plain IPv4 address read as a /32.
  The inner \<^const>\<open>None\<close> is a nil \<^verbatim>\<open>ipNet\<close>.\<close>

definition block_net :: "string \<Rightarrow> loader_error + IPNet option" where
  "block_net cidrStr =
     (case ParseCIDR cidrStr of
        Some ipNet \<Rightarrow> Inr (Some ipNet)
      | None \<Rightarrow> (case ParseIP cidrStr of
          None \<Rightarrow> Inl (InvalidCIDROrIPv4 cidrStr)
        | Some ip \<Rightarrow>
            if To4 ip = None then Inl (InvalidCIDROrIPv4 cidrStr)
            else Inr (ParseCIDR (cidrStr @ ''/32''))))"

definition block_key :: "u32 \<Rightarrow> IPNet \<Rightarrow> u32 \<Rightarrow> lpm_key_ipv4" where
  "block_key gen ipNet addrUint =
     \<lparr>lpm_prefixlen = of_nat (32 + Mask_Size (net_Mask ipNet)), lpm_gen = gen, lpm_addr = addrUint\<rparr>"

definition StageCIDRRule ::
  "'w kernel \<Rightarrow> 'w \<Rightarrow> u32 \<Rightarrow> string \<Rightarrow> u32 \<Rightarrow> string \<Rightarrow> loader_error option \<times> 'w" where
  "StageCIDRRule K w gen cidrStr ruleID action =
     (case block_net cidrStr of
        Inl err \<Rightarrow> (Some err, w)
      | Inr None \<Rightarrow> (Some RuntimePanic, w)
      | Inr (Some ipNet) \<Rightarrow>
          (case To4 (net_IP ipNet) of
             None \<Rightarrow> (Some (OnlyIPv4 cidrStr), w)
           | Some ip4 \<Rightarrow>
               (case le_uint32 ip4 of
                  None \<Rightarrow> (Some RuntimePanic, w)
                | Some addrUint \<Rightarrow>
                    wrap_call (StageCIDRFailed cidrStr gen) (k_lpm_put K w (block_key gen ipNet addrUint) ruleID))))"

definition AddBlockCIDR :: "'w kernel \<Rightarrow> 'w \<Rightarrow> string \<Rightarrow> u32 \<Rightarrow> loader_error option \<times> 'w" where
  "AddBlockCIDR K w cidrStr ruleID = StageCIDRRule K w (active_gen K w) cidrStr ruleID ''deny''"

text \<open>\<^verbatim>\<open>RemoveBlockCIDR\<close> does not test \<^verbatim>\<open>ip4\<close>: \<^verbatim>\<open>binary.LittleEndian.Uint32\<close> panics on a nil slice.\<close>

definition RemoveBlockCIDR :: "'w kernel \<Rightarrow> 'w \<Rightarrow> string \<Rightarrow> loader_error option \<times> 'w" where
  "RemoveBlockCIDR K w cidrStr =
     (let gen = active_gen K w in
      case block_net cidrStr of
        Inl err \<Rightarrow> (Some err, w)
      | Inr None \<Rightarrow> (Some RuntimePanic, w)
      | Inr (Some ipNet) \<Rightarrow>
          (let ip4 = (case To4 (net_IP ipNet) of None \<Rightarrow> [] | Some b \<Rightarrow> b) in
           case le_uint32 ip4 of
             None \<Rightarrow> (Some RuntimePanic, w)
           | Some addrUint \<Rightarrow>
               wrap_call (DeleteCIDRFailed cidrStr) (k_lpm_delete K w (block_key gen ipNet addrUint))))"

section \<open>Cgroup rules\<close>

definition cgroup_rule_key :: "u32 \<Rightarrow> u64 \<Rightarrow> cgroup_key" where
  "cgroup_rule_key gen cgroupID = \<lparr>cgk_gen = gen, cgk_pad = 0, cgk_cgroup_id = cgroupID\<rparr>"

definition StageCgroupRule ::
  "'w kernel \<Rightarrow> 'w \<Rightarrow> u32 \<Rightarrow> string \<Rightarrow> u32 \<Rightarrow> string \<Rightarrow> loader_error option \<times> 'w" where
  "StageCgroupRule K w gen cgroupPath ruleID action =
     (case GetCgroupID K cgroupPath w of
        (Inl err, w') \<Rightarrow> (Some (ResolveCgroupFailed cgroupPath err), w')
      | (Inr cgroupID, w') \<Rightarrow>
          wrap_call (StageCgroupFailed cgroupPath gen) (k_cg_put K w' (cgroup_rule_key gen cgroupID) ruleID))"

definition AddCgroupIdentity :: "'w kernel \<Rightarrow> 'w \<Rightarrow> u64 \<Rightarrow> u32 \<Rightarrow> loader_error option \<times> 'w" where
  "AddCgroupIdentity K w cgroupID identityID =
     wrap_call (InsertCgroupFailed cgroupID)
       (k_cg_put K w (cgroup_rule_key (active_gen K w) cgroupID) identityID)"

definition RemoveCgroupIdentity :: "'w kernel \<Rightarrow> 'w \<Rightarrow> u64 \<Rightarrow> loader_error option \<times> 'w" where
  "RemoveCgroupIdentity K w cgroupID =
     wrap_call (DeleteCgroupFailed cgroupID) (k_cg_delete K w (cgroup_rule_key (active_gen K w) cgroupID))"

definition AddCgroupPathBlock :: "'w kernel \<Rightarrow> 'w \<Rightarrow> string \<Rightarrow> u32 \<Rightarrow> loader_error option \<times> 'w" where
  "AddCgroupPathBlock K w cgroupPath identityID =
     StageCgroupRule K w (active_gen K w) cgroupPath identityID ''deny''"

section \<open>Port rules\<close>

definition proto_number :: "string \<Rightarrow> u8" where
  "proto_number protocol =
     (let p = ToLower protocol in
      if p = ''tcp'' then 6 else if p = ''udp'' then 17 else if p = ''icmp'' then 1 else 6)"

definition action_number :: "string \<Rightarrow> u32" where
  "action_number action = (if ToLower action = ''allow'' then 1 else 2)"

definition StagePortRule ::
  "'w kernel \<Rightarrow> 'w \<Rightarrow> u32 \<Rightarrow> u16 \<Rightarrow> string \<Rightarrow> u32 \<Rightarrow> string \<Rightarrow> loader_error option \<times> 'w" where
  "StagePortRule K w gen port protocol ruleID action =
     wrap_call (StagePortFailed port protocol gen)
       (k_port_put K w
         \<lparr>prk_gen = gen, prk_dst_port = port, prk_protocol = proto_number protocol, prk_pad = 0\<rparr>
         \<lparr>prv_action = action_number action, prv_rule_id = ruleID\<rparr>)"

section \<open>Clearing a generation\<close>

definition clear_lpm :: "'w kernel \<Rightarrow> u32 \<Rightarrow> 'w \<Rightarrow> 'w" where
  "clear_lpm K gen w =
     delete_keys (k_lpm_delete K) (map fst (filter (\<lambda>(k, v). lpm_gen k = gen) (k_lpm_iterate K w))) w"

definition clear_cgroups :: "'w kernel \<Rightarrow> u32 \<Rightarrow> 'w \<Rightarrow> 'w" where
  "clear_cgroups K gen w =
     delete_keys (k_cg_delete K) (map fst (filter (\<lambda>(k, v). cgk_gen k = gen) (k_cg_iterate K w))) w"

definition clear_ports :: "'w kernel \<Rightarrow> u32 \<Rightarrow> 'w \<Rightarrow> 'w" where
  "clear_ports K gen w =
     delete_keys (k_port_delete K) (map fst (filter (\<lambda>(k, v). prk_gen k = gen) (k_port_iterate K w))) w"

definition ClearGenerationRules :: "'w kernel \<Rightarrow> 'w \<Rightarrow> u32 \<Rightarrow> loader_error option \<times> 'w" where
  "ClearGenerationRules K w gen = (None, clear_ports K gen (clear_cgroups K gen (clear_lpm K gen w)))"

section \<open>The loader as a \<open>BPFStager\<close>\<close>

definition loader_stager :: "'w kernel \<Rightarrow> ('w, loader_error) BPFStager" where
  "loader_stager K = \<lparr>
     st_GetActiveGeneration = GetActiveGeneration K,
     st_SetActiveGeneration = SetActiveGeneration K,
     st_StageCIDRRule = StageCIDRRule K,
     st_StageCgroupRule = StageCgroupRule K,
     st_StagePortRule = StagePortRule K,
     st_ClearGenerationRules = ClearGenerationRules K\<rparr>"

section \<open>The entry a CIDR text stands for\<close>

text \<open>Prefix length and address of the trie key, without the generation.\<close>

definition cidr_entry :: "string \<Rightarrow> (u32 \<times> u32) option" where
  "cidr_entry s =
     (case block_net s of
        Inr (Some net) \<Rightarrow>
          (case To4 (net_IP net) of
             Some ip4 \<Rightarrow> if Mask_Size (net_Mask net) \<le> 32
               then map_option (Pair (of_nat (32 + Mask_Size (net_Mask net)))) (le_uint32 ip4) else None
           | None \<Rightarrow> None)
      | _ \<Rightarrow> None)"

lemma block_net_parsed: "block_net s = Inr (Some net) \<Longrightarrow> \<exists>t. ParseCIDR t = Some net"
  by (auto simp: block_net_def split: option.splits if_splits)

lemma block_net_not_nil: "block_net s \<noteq> Inr None"
  using ParseCIDR_plain [of s] by (auto simp: block_net_def split: option.splits if_splits)

lemma le_uint32_total: "length ip4 = 4 \<Longrightarrow> \<exists>a. le_uint32 ip4 = Some a \<and> le_bytes32 a = ip4"
proof -
  assume "length ip4 = 4"
  then obtain a b c d where "ip4 = [a, b, c, d]"
    by (auto simp: eval_nat_numeral length_Suc_conv)
  then show ?thesis using le_bytes32_uint by auto
qed

lemma unat_prefixlen: "p \<le> 128 \<Longrightarrow> unat (of_nat (32 + p) :: u32) = 32 + p"
  by (simp only: unsigned_of_nat) (simp add: take_bit_nat_eq_self)

lemma unat_prefixlen_key: "p \<le> 128 \<Longrightarrow> Mask_Size (net_Mask net) = p \<Longrightarrow>
    unat (lpm_prefixlen (block_key g net a)) = 32 + p"
  unfolding block_key_def lpm_key_ipv4.simps by (simp only: unat_prefixlen)

lemma Mask_Size_le_128:
  assumes "ParseCIDR t = Some net"
  shows "Mask_Size (net_Mask net) \<le> 128"
  using assms by (elim ParseCIDR_shape) auto

lemma block_key_ok:
  assumes "ParseCIDR t = Some net" "To4 (net_IP net) = Some ip4" "le_uint32 ip4 = Some a"
    and "Mask_Size (net_Mask net) \<le> 32"
  shows "lpm_ok (block_key g net a)"
proof -
  let ?p = "Mask_Size (net_Mask net)"
  from ParseCIDR_To4 [OF assms(1,2)] assms(4)
  have len: "length ip4 = 4" and tail: "drop ?p (bits_of ip4) = replicate (32 - ?p) False" by auto
  from le_uint32_total [OF len] assms(3) have "le_bytes32 a = ip4" by simp
  then have "lpm_bits (block_key g net a) = bits_of (le_bytes32 g) @ bits_of ip4"
    by (simp add: lpm_bits_def block_key_def)
  with tail assms(4) show ?thesis
    by (simp add: lpm_ok_def unat_prefixlen_key [OF _ refl])
qed

text \<open>The outcomes of staging a CIDR text: it denotes an entry and the trie is asked to store it; or it is
  longer than the trie's keys; or it is refused before the trie is touched. It never panics.\<close>

lemma StageCIDRRule_cases:
  obtains (entry) net ad where "cidr_entry s = Some (of_nat (32 + Mask_Size (net_Mask net)), ad)"
      "lpm_ok (block_key g net ad)"
      "StageCIDRRule K w g s i act = wrap_call (StageCIDRFailed s g) (k_lpm_put K w (block_key g net ad) i)"
  | (long) net ad where "cidr_entry s = None" "64 < unat (lpm_prefixlen (block_key g net ad))"
      "StageCIDRRule K w g s i act = wrap_call (StageCIDRFailed s g) (k_lpm_put K w (block_key g net ad) i)"
  | (refused) e where "cidr_entry s = None" "e \<in> {InvalidCIDROrIPv4 s, OnlyIPv4 s}"
      "StageCIDRRule K w g s i act = (Some e, w)"
proof (cases "block_net s")
  case (Inl e)
  then have "e = InvalidCIDROrIPv4 s"
    by (auto simp: block_net_def split: option.splits if_splits)
  with Inl show thesis by (intro refused [of e]) (auto simp: cidr_entry_def StageCIDRRule_def)
next
  case (Inr n)
  then obtain net where net: "block_net s = Inr (Some net)"
    using block_net_not_nil [of s] by (cases n) auto
  then obtain t where t: "ParseCIDR t = Some net" using block_net_parsed by blast
  show thesis
  proof (cases "To4 (net_IP net)")
    case None
    with net show thesis by (intro refused [of "OnlyIPv4 s"]) (auto simp: cidr_entry_def StageCIDRRule_def)
  next
    case (Some ip4)
    obtain ad where ad: "le_uint32 ip4 = Some ad"
      using le_uint32_total ParseCIDR_To4(1) [OF t Some] by blast
    have stage: "StageCIDRRule K w g s i act =
        wrap_call (StageCIDRFailed s g) (k_lpm_put K w (block_key g net ad) i)"
      using net Some ad by (simp add: StageCIDRRule_def)
    show thesis
    proof (cases "Mask_Size (net_Mask net) \<le> 32")
      case True
      with net Some ad t stage show thesis
        by (intro entry [of net ad]) (auto simp: cidr_entry_def block_key_ok)
    next
      case False
      with net Some stage Mask_Size_le_128 [OF t] show thesis
        by (intro long [of net ad]) (auto simp: cidr_entry_def unat_prefixlen_key [OF _ refl])
    qed
  qed
qed

section \<open>The rules of a generation\<close>

record gen_rules =
  gr_cidr :: "u32 \<times> u32 \<rightharpoonup> u32"
  gr_cgroup :: "u64 \<rightharpoonup> u32"
  gr_port :: "u16 \<times> u8 \<rightharpoonup> port_rule_val"

definition no_rules :: gen_rules where
  "no_rules = \<lparr>gr_cidr = Map.empty, gr_cgroup = Map.empty, gr_port = Map.empty\<rparr>"

definition rules_of :: "map_view \<Rightarrow> u32 \<Rightarrow> gen_rules" where
  "rules_of v g = \<lparr>
     gr_cidr = (\<lambda>(p, a). v_lpm v \<lparr>lpm_prefixlen = p, lpm_gen = g, lpm_addr = a\<rparr>),
     gr_cgroup = (\<lambda>c. v_cgroup v \<lparr>cgk_gen = g, cgk_pad = 0, cgk_cgroup_id = c\<rparr>),
     gr_port = (\<lambda>(q, t). v_port v \<lparr>prk_gen = g, prk_dst_port = q, prk_protocol = t, prk_pad = 0\<rparr>)\<rparr>"

definition add_cidr_rule :: "string \<Rightarrow> u32 \<Rightarrow> string \<Rightarrow> gen_rules \<Rightarrow> gen_rules" where
  "add_cidr_rule s i a r =
     (case cidr_entry s of None \<Rightarrow> r | Some e \<Rightarrow> r\<lparr>gr_cidr := (gr_cidr r)(e \<mapsto> i)\<rparr>)"

definition add_cgroup_rule :: "u64 \<Rightarrow> u32 \<Rightarrow> string \<Rightarrow> gen_rules \<Rightarrow> gen_rules" where
  "add_cgroup_rule c i a r = r\<lparr>gr_cgroup := (gr_cgroup r)(c \<mapsto> i)\<rparr>"

definition add_port_rule :: "u16 \<Rightarrow> string \<Rightarrow> u32 \<Rightarrow> string \<Rightarrow> gen_rules \<Rightarrow> gen_rules" where
  "add_port_rule q t i a r =
     r\<lparr>gr_port := (gr_port r)((q, proto_number t) \<mapsto> \<lparr>prv_action = action_number a, prv_rule_id = i\<rparr>)\<rparr>"

lemma rules_of_gen [simp]: "rules_of (v\<lparr>v_gen := g\<rparr>) = rules_of v"
  by (simp add: rules_of_def fun_eq_iff)

lemma rules_of_lpm:
  "rules_of (v\<lparr>v_lpm := (v_lpm v)(\<lparr>lpm_prefixlen = p, lpm_gen = g, lpm_addr = a\<rparr> := x)\<rparr>) =
     (rules_of v)(g := (rules_of v g)\<lparr>gr_cidr := (gr_cidr (rules_of v g))((p, a) := x)\<rparr>)"
  by (auto simp: rules_of_def fun_eq_iff)

lemma rules_of_cgroup:
  "rules_of (v\<lparr>v_cgroup := (v_cgroup v)(\<lparr>cgk_gen = g, cgk_pad = 0, cgk_cgroup_id = c\<rparr> := x)\<rparr>) =
     (rules_of v)(g := (rules_of v g)\<lparr>gr_cgroup := (gr_cgroup (rules_of v g))(c := x)\<rparr>)"
  by (auto simp: rules_of_def fun_eq_iff)

lemma rules_of_port:
  "rules_of (v\<lparr>v_port := (v_port v)(\<lparr>prk_gen = g, prk_dst_port = q, prk_protocol = t, prk_pad = 0\<rparr> := x)\<rparr>) =
     (rules_of v)(g := (rules_of v g)\<lparr>gr_port := (gr_port (rules_of v g))((q, t) := x)\<rparr>)"
  by (auto simp: rules_of_def fun_eq_iff)

lemmas rules_of_put = rules_of_lpm rules_of_cgroup rules_of_port

lemma wrap_call_iff [simp]:
  "wrap_call f c = (None, w') \<longleftrightarrow> c = (None, w')"
  "wrap_call f c = (Some e, w') \<longleftrightarrow> (\<exists>x. c = (Some x, w') \<and> e = f x)"
  by (cases c; auto simp: wrap_call_def)+

definition path_denotes :: "(string \<Rightarrow> u64) \<Rightarrow> string \<Rightarrow> u64 \<Rightarrow> bool" where
  "path_denotes inode p n \<longleftrightarrow> n \<in> {inode p, inode (cgroup_target p)}"

text \<open>The rules that a compiled policy puts into a generation, given the IDs of its cgroups.\<close>

definition policy_rules :: "CompiledPolicy \<Rightarrow> u64 list \<Rightarrow> gen_rules" where
  "policy_rules = compiled_rules_with add_cidr_rule add_cgroup_rule add_port_rule no_rules"

section \<open>The prefixes that the loader stores\<close>

text \<open>Every stored prefix spans the whole generation field, so that no key reaches another generation.\<close>

definition lpm_wf :: "map_view \<Rightarrow> bool" where
  "lpm_wf v \<longleftrightarrow> (\<forall>k. v_lpm v k \<noteq> None \<longrightarrow> 32 \<le> unat (lpm_prefixlen k) \<and> unat (lpm_prefixlen k) \<le> 64)"

lemma cidr_entry_prefix: "cidr_entry s = Some (p, a) \<Longrightarrow> 32 \<le> unat p \<and> unat p \<le> 64"
proof -
  have "unat (of_nat (32 + m) :: u32) = 32 + m" if "m \<le> 32" for m
    using unat_prefixlen [of m] that by simp
  then show "cidr_entry s = Some (p, a) \<Longrightarrow> 32 \<le> unat p \<and> unat p \<le> 64"
    by (auto simp: cidr_entry_def split: sum.splits option.splits if_splits simp del: of_nat_add)
qed

lemma lpm_wf_upd:
  "lpm_wf v \<Longrightarrow> 32 \<le> unat (lpm_prefixlen k) \<and> unat (lpm_prefixlen k) \<le> 64 \<Longrightarrow> lpm_wf (v\<lparr>v_lpm := (v_lpm v)(k \<mapsto> x)\<rparr>)"
  "lpm_wf (v\<lparr>v_cgroup := c\<rparr>) = lpm_wf v" "lpm_wf (v\<lparr>v_port := d\<rparr>) = lpm_wf v" "lpm_wf (v\<lparr>v_gen := g\<rparr>) = lpm_wf v"
  "lpm_wf v \<Longrightarrow> lpm_wf (v\<lparr>v_lpm := \<lambda>k. if P k then None else v_lpm v k\<rparr>)"
  by (auto simp: lpm_wf_def)

section \<open>The loader meets the contract of the swapper\<close>

context bpf_kernel
begin

lemma active_gen_view: "active_gen K w = v_gen (view w)"
  by (simp add: active_gen_def GetActiveGeneration_def gen_lookup)

lemma StageCIDRRule_ok:
  assumes "StageCIDRRule K w g s i act = (None, w')"
  obtains p ad where "cidr_entry s = Some (p, ad)"
    and "view w' = (view w)\<lparr>v_lpm := (v_lpm (view w))(\<lparr>lpm_prefixlen = p, lpm_gen = g, lpm_addr = ad\<rparr> \<mapsto> i)\<rparr>"
proof (cases rule: StageCIDRRule_cases [of s g K w i act])
  case (entry net ad)
  with assms that show thesis by (auto simp: block_key_def dest!: lpm.put_ok)
next
  case (long net ad)
  with assms lpm_put_long [OF long(2), of w i] show thesis by simp
qed (use assms in simp)

lemma StageCIDRRule_err:
  "StageCIDRRule K w g s i act = (Some e, w') \<Longrightarrow> view w' = view w"
  by (cases rule: StageCIDRRule_cases [of s g K w i act]) (auto dest: lpm.put_err)

lemma StageCgroupRule_ok:
  assumes "StageCgroupRule K w g p i act = (None, w')"
  shows "\<exists>n. path_denotes inode p n \<and> view w' = (view w)\<lparr>v_cgroup := (v_cgroup (view w))(cgroup_rule_key g n \<mapsto> i)\<rparr>"
proof -
  from assms obtain n w1 where n: "GetCgroupID K p w = (Inr n, w1)"
    and put: "k_cg_put K w1 (cgroup_rule_key g n) i = (None, w')"
    by (auto simp: StageCgroupRule_def split: prod.splits sum.splits)
  from GetCgroupID_view [of p w] n have "view w1 = view w" by simp
  with cg.put_ok [OF put] GetCgroupID_inode [OF n] show ?thesis
    by (auto simp: path_denotes_def)
qed

lemma StageCgroupRule_err:
  assumes "StageCgroupRule K w g p i act = (Some e, w')"
  shows "view w' = view w"
proof -
  obtain r w1 where r: "GetCgroupID K p w = (r, w1)" by fastforce
  with GetCgroupID_view [of p w] have "view w1 = view w" by simp
  with assms r show ?thesis
    by (cases r) (auto simp: StageCgroupRule_def dest: cg.put_err)
qed

lemma clear_views:
  "view (clear_lpm K g w) = (view w)\<lparr>v_lpm := \<lambda>k. if lpm_gen k = g then None else v_lpm (view w) k\<rparr>"
  "view (clear_cgroups K g w) = (view w)\<lparr>v_cgroup := \<lambda>k. if cgk_gen k = g then None else v_cgroup (view w) k\<rparr>"
  "view (clear_ports K g w) = (view w)\<lparr>v_port := \<lambda>k. if prk_gen k = g then None else v_port (view w) k\<rparr>"
  by (simp_all add: clear_lpm_def clear_cgroups_def clear_ports_def lpm.clear_view cg.clear_view port.clear_view)

lemma ClearGenerationRules_view:
  assumes "ClearGenerationRules K w g = (x, w')"
  shows "v_gen (view w') = v_gen (view w)" and "rules_of (view w') = (rules_of (view w))(g := no_rules)"
  using assms by (auto simp: ClearGenerationRules_def clear_views rules_of_def no_rules_def fun_eq_iff)

end

sublocale bpf_kernel \<subseteq> st: bpf_stager "loader_stager K" "\<lambda>w. v_gen (view w)" "\<lambda>w. rules_of (view w)"
    no_rules add_cidr_rule add_cgroup_rule add_port_rule "path_denotes inode"
proof (unfold_locales, goal_cases)
  case (1 s)
  show ?case by (simp add: loader_stager_def GetActiveGeneration_def gen_lookup)
next
  case (2 s g s')
  then show ?case by (auto simp: loader_stager_def SetActiveGeneration_def dest: gen_put_ok)
next
  case (3 s g e s')
  then show ?case by (auto simp: loader_stager_def SetActiveGeneration_def dest: gen_put_err)
next
  case (4 s g c i a s')
  then have "StageCIDRRule K s g c i a = (None, s')" by (simp add: loader_stager_def)
  then show ?case by (rule StageCIDRRule_ok) (simp add: add_cidr_rule_def rules_of_put)
next
  case (5 s g c i a e s')
  then show ?case by (auto simp: loader_stager_def dest: StageCIDRRule_err)
next
  case (6 s g p i a s')
  then have "StageCgroupRule K s g p i a = (None, s')" by (simp add: loader_stager_def)
  from StageCgroupRule_ok [OF this] show ?case
    by (auto simp: add_cgroup_rule_def cgroup_rule_key_def rules_of_put)
next
  case (7 s g p i a e s')
  then show ?case by (auto simp: loader_stager_def dest: StageCgroupRule_err)
next
  case (8 s g q t i a s')
  then show ?case
    by (auto simp: loader_stager_def StagePortRule_def add_port_rule_def rules_of_put dest!: port.put_ok)
next
  case (9 s g q t i a e s')
  then show ?case by (auto simp: loader_stager_def StagePortRule_def dest!: port.put_err)
next
  case (10 s g x s')
  then show ?case by (auto simp: loader_stager_def dest: ClearGenerationRules_view)
qed

section \<open>Queries\<close>

record Stats =
  RxPackets :: u64
  RxBytes :: u64
  PassPackets :: u64
  DropPackets :: u64

definition zero_stats :: Stats where
  "zero_stats = \<lparr>RxPackets = 0, RxBytes = 0, PassPackets = 0, DropPackets = 0\<rparr>"

text \<open>The loop over the counters of the CPUs: \<^verbatim>\<open>+=\<close> on \<^verbatim>\<open>uint64\<close> wraps around.\<close>

fun add_cpus :: "stats_value list \<Rightarrow> Stats \<Rightarrow> Stats" where
  "add_cpus [] tot = tot"
| "add_cpus (c # cs) tot = add_cpus cs
     \<lparr>RxPackets = RxPackets tot + sv_rx_packets c, RxBytes = RxBytes tot + sv_rx_bytes c,
       PassPackets = PassPackets tot + sv_pass_packets c, DropPackets = DropPackets tot + sv_drop_packets c\<rparr>"

definition GetStats :: "'w kernel \<Rightarrow> 'w \<Rightarrow> Stats" where
  "GetStats K w =
     (let tot = (case k_xdp_stats K w of Some perCPU \<Rightarrow> add_cpus perCPU zero_stats | None \<Rightarrow> zero_stats)
      in case k_tc_stats K w of Some tcPerCPU \<Rightarrow> add_cpus tcPerCPU tot | None \<Rightarrow> tot)"

definition GetSockopsStats :: "'w kernel \<Rightarrow> bool \<Rightarrow> 'w \<Rightarrow> Stats option" where
  "GetSockopsStats K sockopsEnabled w =
     (if \<not> sockopsEnabled then None
      else Some (case k_sockops_stats K w of Some perCPU \<Rightarrow> add_cpus perCPU zero_stats | None \<Rightarrow> zero_stats))"

definition intToIP :: "u32 \<Rightarrow> u8 list" where
  "intToIP nn = [ucast nn, ucast (drop_bit 8 nn), ucast (drop_bit 16 nn), ucast (drop_bit 24 nn)]"

record ConntrackFlow =
  cf_SrcIP :: "u8 list"
  cf_DstIP :: "u8 list"
  cf_SrcPort :: u16
  cf_DstPort :: u16
  cf_Protocol :: u8
  cf_State :: u32
  cf_Packets :: u64
  cf_Bytes :: u64

fun collect_flows :: "(flow_key \<times> flow_state) list \<Rightarrow> ConntrackFlow list \<Rightarrow> ConntrackFlow list" where
  "collect_flows [] flows = flows"
| "collect_flows ((key, val) # entries) flows = collect_flows entries (flows @
     [\<lparr>cf_SrcIP = intToIP (fk_src_ip key), cf_DstIP = intToIP (fk_dst_ip key),
       cf_SrcPort = fk_src_port key, cf_DstPort = fk_dst_port key, cf_Protocol = fk_protocol key,
       cf_State = fls_state val, cf_Packets = fls_packets val, cf_Bytes = fls_bytes val\<rparr>])"

definition GetConntrackFlows :: "'w kernel \<Rightarrow> 'w \<Rightarrow> loader_error + ConntrackFlow list" where
  "GetConntrackFlows K w =
     (case k_conntrack_iterate K w of
        (entries, Some err) \<Rightarrow> Inl (ConntrackIterFailed err)
      | (entries, None) \<Rightarrow> Inr (collect_flows entries []))"

lemma intToIP_bytes: "intToIP nn = le_bytes32 nn"
  by (simp add: intToIP_def le_bytes32_def)

lemma intToIP_inverse: "le_uint32 (intToIP nn) = Some nn"
  by (simp add: intToIP_bytes le_uint32_bytes)

lemma add_cpus_sum:
  "RxPackets (add_cpus cs t) = RxPackets t + sum_list (map sv_rx_packets cs)"
  "RxBytes (add_cpus cs t) = RxBytes t + sum_list (map sv_rx_bytes cs)"
  "PassPackets (add_cpus cs t) = PassPackets t + sum_list (map sv_pass_packets cs)"
  "DropPackets (add_cpus cs t) = DropPackets t + sum_list (map sv_drop_packets cs)"
  by (induction cs arbitrary: t) (simp_all add: add.assoc)

definition flow_of_entry :: "flow_key \<times> flow_state \<Rightarrow> ConntrackFlow" where
  "flow_of_entry e =
     \<lparr>cf_SrcIP = intToIP (fk_src_ip (fst e)), cf_DstIP = intToIP (fk_dst_ip (fst e)),
       cf_SrcPort = fk_src_port (fst e), cf_DstPort = fk_dst_port (fst e), cf_Protocol = fk_protocol (fst e),
       cf_State = fls_state (snd e), cf_Packets = fls_packets (snd e), cf_Bytes = fls_bytes (snd e)\<rparr>"

lemma collect_flows_eq: "collect_flows es fs = fs @ map flow_of_entry es"
  by (induction es fs rule: collect_flows.induct) (simp_all add: flow_of_entry_def)

section \<open>Removing what was added\<close>

lemma StageCIDRRule_no_panic: "fst (StageCIDRRule K w g s i a) \<noteq> Some RuntimePanic"
  by (cases rule: StageCIDRRule_cases [of s g K w i a]) (auto simp: wrap_call_def)

lemma RemoveBlockCIDR_entry:
  assumes "cidr_entry s = Some (p, ad)"
  shows "lpm_ok \<lparr>lpm_prefixlen = p, lpm_gen = g, lpm_addr = ad\<rparr>"
    and "RemoveBlockCIDR K w s = wrap_call (DeleteCIDRFailed s)
      (k_lpm_delete K w \<lparr>lpm_prefixlen = p, lpm_gen = active_gen K w, lpm_addr = ad\<rparr>)"
proof -
  from assms obtain net ip4 where net: "block_net s = Inr (Some net)" "To4 (net_IP net) = Some ip4"
    "Mask_Size (net_Mask net) \<le> 32" "le_uint32 ip4 = Some ad" and p: "p = of_nat (32 + Mask_Size (net_Mask net))"
    by (auto simp: cidr_entry_def split: sum.splits option.splits if_splits)
  then obtain t where "ParseCIDR t = Some net" using block_net_parsed by blast
  from block_key_ok [OF this net(2,4,3), of g] show "lpm_ok \<lparr>lpm_prefixlen = p, lpm_gen = g, lpm_addr = ad\<rparr>"
    by (simp add: block_key_def p)
  show "RemoveBlockCIDR K w s = wrap_call (DeleteCIDRFailed s)
      (k_lpm_delete K w \<lparr>lpm_prefixlen = p, lpm_gen = active_gen K w, lpm_addr = ad\<rparr>)"
    using net by (simp add: RemoveBlockCIDR_def block_key_def p)
qed

lemma RemoveBlockCIDR_panics:
  "fst (RemoveBlockCIDR K w s) = Some RuntimePanic \<longleftrightarrow>
     (\<exists>net. block_net s = Inr (Some net) \<and> To4 (net_IP net) = None)"
proof -
  have four: "\<exists>a. le_uint32 ip4 = Some a" if "block_net s = Inr (Some net)" "To4 (net_IP net) = Some ip4" for net ip4
    using that block_net_parsed [of s net] ParseCIDR_To4(1) [of _ net ip4] le_uint32_total [of ip4] by fastforce
  have "block_net s \<noteq> Inl RuntimePanic"
    by (auto simp: block_net_def split: option.splits if_splits)
  then show ?thesis
    using block_net_not_nil [of s]
    by (auto simp: RemoveBlockCIDR_def Let_def wrap_call_def split: sum.splits option.splits dest!: four)
qed

context bpf_kernel
begin

lemma add_remove_block:
  assumes add: "AddBlockCIDR K w s i = (None, w1)"
    and entry: "cidr_entry s = Some e" and fresh: "gr_cidr (rules_of (view w) (v_gen (view w))) e = None"
  shows "fst (RemoveBlockCIDR K w1 s) = None \<and> view (snd (RemoveBlockCIDR K w1 s)) = view w"
proof -
  obtain p ad where e: "e = (p, ad)" by (cases e)
  let ?k = "\<lparr>lpm_prefixlen = p, lpm_gen = v_gen (view w), lpm_addr = ad\<rparr>"
  from add have "StageCIDRRule K w (v_gen (view w)) s i ''deny'' = (None, w1)"
    by (simp add: AddBlockCIDR_def active_gen_view)
  then have v1: "view w1 = (view w)\<lparr>v_lpm := (v_lpm (view w))(?k \<mapsto> i)\<rparr>"
    by (rule StageCIDRRule_ok) (use entry e in simp)
  from fresh e have "v_lpm (view w) ?k = None" by (simp add: rules_of_def)
  with v1 have undo: "(view w1)\<lparr>v_lpm := (v_lpm (view w1))(?k := None)\<rparr> = view w" by (simp add: fun_upd_idem)
  have rm: "RemoveBlockCIDR K w1 s = wrap_call (DeleteCIDRFailed s) (k_lpm_delete K w1 ?k)"
    using RemoveBlockCIDR_entry(2) [of s p ad K w1] entry e by (simp add: active_gen_view v1)
  obtain x w2 where del: "k_lpm_delete K w1 ?k = (x, w2)" by (rule prod.exhaust)
  have "x = None" using lpm.delete_err [of w1 ?k _ w2] del v1 by (cases x) auto
  with del lpm.delete_ok [of w1 ?k w2] RemoveBlockCIDR_entry(1) [of s p ad "v_gen (view w)"] entry e undo rm
  show ?thesis by (simp add: wrap_call_def)
qed

end

end
