(* ===== verification/Observability.thy ===== *)
theory Observability
  imports Go_Net
begin

text \<open>
  Package \<^verbatim>\<open>pkg/observability\<close>: the audit event of \<^verbatim>\<open>ringbuf.go\<close> with its texts, and the event store
  of \<^verbatim>\<open>audit.go\<close>; and the consumer loop \<^verbatim>\<open>ReadRingbuf\<close> of \<^verbatim>\<open>pkg/bpf/loader.go\<close> with the decoding of a
  sample by \<^verbatim>\<open>binary.Read\<close>. The byte layout of \<^verbatim>\<open>struct audit_event\<close> of \<^verbatim>\<open>bpf/headers/common.h\<close>, as the C
  compiler lays it out, is \<open>c_layout\<close>.
\<close>

section \<open>Little-endian integers of any width\<close>

primrec le_encode :: "nat \<Rightarrow> 'a::len word \<Rightarrow> u8 list" where
  "le_encode 0 w = []"
| "le_encode (Suc n) w = ucast w # le_encode n (drop_bit 8 w)"

primrec le_decode :: "u8 list \<Rightarrow> 'a::len word" where
  "le_decode [] = 0"
| "le_decode (b # bs) = ucast b OR push_bit 8 (le_decode bs)"

lemma length_le_encode [simp]: "length (le_encode n w) = n"
  by (induction n arbitrary: w) simp_all

lemma le_decode_encode_take: "le_decode (le_encode n w) = take_bit (8 * n) w"
proof (induction n arbitrary: w)
  case (Suc n)
  have "ucast (ucast w :: u8) OR push_bit 8 (take_bit (8 * n) (drop_bit 8 w)) = take_bit (8 + 8 * n) w"
    by (rule bit_word_eqI) (auto simp: bit_simps dest: bit_imp_le_length)
  with Suc show ?case by simp
qed simp

lemma le_decode_encode [simp]:
  "LENGTH('a::len) \<le> 8 * n \<Longrightarrow> le_decode (le_encode n (w :: 'a word)) = w"
  by (simp add: le_decode_encode_take take_bit_word_eq_self)

section \<open>Audit events\<close>

record AuditEvent =
  ev_TimestampNS :: u64
  ev_SrcIP :: u32
  ev_DstIP :: u32
  ev_SrcPort :: u16
  ev_DstPort :: u16
  ev_Protocol :: u8
  ev_Verdict :: u8
  ev_ReasonCode :: u16
  ev_RuleID :: u32
  ev_CgroupID :: u64
  ev_IdentityID :: u32

definition event_intToIP :: "u32 \<Rightarrow> u8 list" where
  "event_intToIP nn = [ucast nn, ucast (drop_bit 8 nn), ucast (drop_bit 16 nn), ucast (drop_bit 24 nn)]"

definition FormattedSrcIP :: "AuditEvent \<Rightarrow> string" where
  "FormattedSrcIP e = IP4_String (event_intToIP (ev_SrcIP e))"

definition FormattedDstIP :: "AuditEvent \<Rightarrow> string" where
  "FormattedDstIP e = IP4_String (event_intToIP (ev_DstIP e))"

definition VerdictString :: "AuditEvent \<Rightarrow> string" where
  "VerdictString e =
     (if ev_Verdict e = 0 then ''PASS''
      else if ev_Verdict e = 1 then ''DROP''
      else if ev_Verdict e = 2 then ''REDIRECT''
      else ''UNKNOWN'')"

definition ReasonString :: "AuditEvent \<Rightarrow> string" where
  "ReasonString e =
     (let r = ev_ReasonCode e in
      if r = 0 then ''OK''
      else if r = 1 then ''CIDR_BLOCKED''
      else if r = 2 then ''PORT_BLOCKED''
      else if r = 3 then ''INVALID_TCP_FLAGS''
      else if r = 4 then ''IDENTITY_DENY''
      else if r = 5 then ''UNTRACKED_NON_SYN''
      else if r = 6 then ''DEFAULT_DROP''
      else if r = 7 then ''SOCKOPS_REDIRECT''
      else ''REASON_'' @ dec (unat r))"

definition ProtocolString :: "AuditEvent \<Rightarrow> string" where
  "ProtocolString e =
     (let p = ev_Protocol e in
      if p = 1 then ''ICMP''
      else if p = 6 then ''TCP''
      else if p = 17 then ''UDP''
      else ''PROTO_'' @ dec (unat p))"

text \<open>\<open>now\<close> is \<^verbatim>\<open>time.Now\<close> in the layout \<^verbatim>\<open>15:04:05.000\<close>, and \<open>clock\<close> formats seconds and nanoseconds in it.\<close>

definition TimestampFormatted :: "string \<Rightarrow> (nat \<Rightarrow> nat \<Rightarrow> string) \<Rightarrow> AuditEvent \<Rightarrow> string" where
  "TimestampFormatted now clock e =
     (if ev_TimestampNS e = 0 then now
      else clock (unat (ev_TimestampNS e) div 1000000000) (unat (ev_TimestampNS e) mod 1000000000))"

definition event_String :: "AuditEvent \<Rightarrow> string" where
  "event_String e =
     ''['' @ VerdictString e @ ''] '' @ FormattedSrcIP e @ '':'' @ dec (unat (ev_SrcPort e)) @ '' -> '' @
     FormattedDstIP e @ '':'' @ dec (unat (ev_DstPort e)) @ '' ('' @ ProtocolString e @ '') Reason='' @
     ReasonString e @ '' RuleID='' @ dec (unat (ev_RuleID e)) @ '' CgroupID='' @ dec (unat (ev_CgroupID e)) @
     '' IdentityID='' @ dec (unat (ev_IdentityID e))"

section \<open>Decoding a ring-buffer sample\<close>

text \<open>\<^verbatim>\<open>binary.Read\<close> reads the fields one after the other with no padding, 40 bytes in all; a shorter
  sample is an error.\<close>

definition decode_event :: "u8 list \<Rightarrow> AuditEvent option" where
  "decode_event b =
     (if length b < 40 then None
      else Some \<lparr>ev_TimestampNS = le_decode (take 8 b),
        ev_SrcIP = le_decode (take 4 (drop 8 b)),
        ev_DstIP = le_decode (take 4 (drop 12 b)),
        ev_SrcPort = le_decode (take 2 (drop 16 b)),
        ev_DstPort = le_decode (take 2 (drop 18 b)),
        ev_Protocol = le_decode (take 1 (drop 20 b)),
        ev_Verdict = le_decode (take 1 (drop 21 b)),
        ev_ReasonCode = le_decode (take 2 (drop 22 b)),
        ev_RuleID = le_decode (take 4 (drop 24 b)),
        ev_CgroupID = le_decode (take 8 (drop 28 b)),
        ev_IdentityID = le_decode (take 4 (drop 36 b))\<rparr>)"

text \<open>The C structure: \<^verbatim>\<open>cgroup_id\<close> is aligned to eight bytes, so the compiler leaves a hole of four
  bytes behind \<^verbatim>\<open>rule_id\<close>; no code writes the hole.\<close>

definition c_layout :: "u8 list \<Rightarrow> AuditEvent \<Rightarrow> u8 list" where
  "c_layout hole e =
     le_encode 8 (ev_TimestampNS e) @ le_encode 4 (ev_SrcIP e) @ le_encode 4 (ev_DstIP e) @
     le_encode 2 (ev_SrcPort e) @ le_encode 2 (ev_DstPort e) @ le_encode 1 (ev_Protocol e) @
     le_encode 1 (ev_Verdict e) @ le_encode 2 (ev_ReasonCode e) @ le_encode 4 (ev_RuleID e) @
     hole @ le_encode 8 (ev_CgroupID e) @ le_encode 4 (ev_IdentityID e) @ replicate 4 0"

text \<open>One call of \<^verbatim>\<open>ringReader.Read\<close>: closed, another error, or a sample.\<close>

datatype ring_read = RingClosed | RingError string | RingSample "u8 list"

text \<open>The loop of \<^verbatim>\<open>ReadRingbuf\<close> on the reads that have happened: the value it returned, if it
  returned (\<open>Some None\<close> is a nil error), and the state the handler left. \<^const>\<open>None\<close> is waiting for the
  next sample.\<close>

fun ReadRingbuf :: "(AuditEvent \<Rightarrow> 's \<Rightarrow> 's) \<Rightarrow> ring_read list \<Rightarrow> 's \<Rightarrow> string option option \<times> 's" where
  "ReadRingbuf handler [] s = (None, s)"
| "ReadRingbuf handler (RingClosed # rs) s = (Some None, s)"
| "ReadRingbuf handler (RingError e # rs) s = (Some (Some (''ringbuf read error: '' @ e)), s)"
| "ReadRingbuf handler (RingSample b # rs) s =
     (case decode_event b of
        None \<Rightarrow> ReadRingbuf handler rs s
      | Some event \<Rightarrow> ReadRingbuf handler rs (handler event s))"

section \<open>The event store\<close>

record AuditStore =
  as_capacity :: int
  as_events :: "AuditEvent list"

definition NewAuditStore :: "int \<Rightarrow> AuditStore" where
  "NewAuditStore capacity =
     \<lparr>as_capacity = (if capacity \<le> 0 then 1000 else capacity), as_events = []\<rparr>"

definition Add :: "AuditEvent \<Rightarrow> AuditStore \<Rightarrow> AuditStore" where
  "Add event s =
     (let evs = (if int (length (as_events s)) \<ge> as_capacity s then drop 1 (as_events s) else as_events s)
      in s\<lparr>as_events := evs @ [event]\<rparr>)"

definition Events :: "AuditStore \<Rightarrow> AuditEvent list" where
  "Events s = as_events s"

fun filter_events :: "string \<Rightarrow> string \<Rightarrow> AuditEvent list \<Rightarrow> AuditEvent list \<Rightarrow> AuditEvent list" where
  "filter_events vLower qLower [] filtered = filtered"
| "filter_events vLower qLower (evt # evts) filtered =
     (if vLower \<noteq> '''' \<and> vLower \<noteq> ''all'' \<and> ToLower (VerdictString evt) \<noteq> vLower
      then filter_events vLower qLower evts filtered
      else if qLower \<noteq> '''' \<and> \<not> Contains (ToLower (event_String evt)) qLower
      then filter_events vLower qLower evts filtered
      else filter_events vLower qLower evts (filtered @ [evt]))"

definition Filter :: "string \<Rightarrow> string \<Rightarrow> AuditStore \<Rightarrow> AuditEvent list" where
  "Filter verdictFilter query s = filter_events (norm_word verdictFilter) (norm_word query) (as_events s) []"

definition Count :: "AuditStore \<Rightarrow> nat" where
  "Count s = length (as_events s)"

definition Clear :: "AuditStore \<Rightarrow> AuditStore" where
  "Clear s = s\<lparr>as_events := take 0 (as_events s)\<rparr>"

section \<open>What the decoder reads from the C structure\<close>

lemma le_encode_add: "le_encode (m + n) w = le_encode m w @ le_encode n (drop_bit (8 * m) w)"
proof (induction m arbitrary: w)
  case (Suc m)
  have "drop_bit (8 * m) (drop_bit 8 w) = drop_bit (8 + 8 * m) w"
    by (simp add: drop_bit_drop_bit add.commute)
  with Suc show ?case by simp
qed simp

lemma le_decode_append: "le_decode (as @ bs) = le_decode as OR push_bit (8 * length as) (le_decode bs)"
proof (induction as)
  case (Cons a as)
  have "push_bit 8 (push_bit (8 * length as) x) = push_bit (8 + 8 * length as) (x :: 'a word)" for x
    by (simp add: push_bit_push_bit add.commute)
  with Cons show ?case by (simp add: push_bit_or or.assoc)
qed simp

lemma le_decode_cast:
  "(le_decode (le_encode n (w :: 'a::len word)) :: 'b::len word) = take_bit (8 * n) (ucast w)"
proof (induction n arbitrary: w)
  case (Suc n)
  have "ucast (ucast w :: u8) OR push_bit 8 (take_bit (8 * n) (ucast (drop_bit 8 w))) =
      (take_bit (8 + 8 * n) (ucast w) :: 'b word)"
    by (rule bit_word_eqI) (auto simp: bit_simps dest: bit_imp_le_length)
  with Suc show ?case by simp
qed simp

lemma length_c_layout: "length hole = 4 \<Longrightarrow> length (c_layout hole e) = 48"
  by (simp add: c_layout_def)

lemma decode_c_layout:
  assumes "length hole = 4"
  shows "decode_event (c_layout hole e) =
    Some (e\<lparr>ev_CgroupID := le_decode hole OR push_bit 32 (ev_CgroupID e),
      ev_IdentityID := ucast (drop_bit 32 (ev_CgroupID e))\<rparr>)"
proof -
  have "le_encode 8 (ev_CgroupID e) = le_encode 4 (ev_CgroupID e) @ le_encode 4 (drop_bit 32 (ev_CgroupID e))"
    using le_encode_add [of 4 4 "ev_CgroupID e"] by simp
  then have parts: "take 4 (le_encode 8 (ev_CgroupID e)) = le_encode 4 (ev_CgroupID e)"
    "drop 4 (le_encode 8 (ev_CgroupID e)) = le_encode 4 (drop_bit 32 (ev_CgroupID e))"
    by simp_all
  have cg: "le_decode (hole @ le_encode 4 (ev_CgroupID e)) = le_decode hole OR push_bit 32 (ev_CgroupID e)"
  proof -
    have "push_bit 32 (take_bit 32 (ev_CgroupID e)) = push_bit 32 (ev_CgroupID e)"
      by (rule bit_word_eqI) (auto simp: bit_simps)
    with assms show ?thesis by (simp add: le_decode_append le_decode_encode_take)
  qed
  have id: "(le_decode (le_encode 4 (drop_bit 32 (ev_CgroupID e))) :: u32) = ucast (drop_bit 32 (ev_CgroupID e))"
    by (simp add: le_decode_cast take_bit_word_eq_self)
  show ?thesis
    using assms
    by (simp add: decode_event_def c_layout_def parts cg id del: le_encode.simps le_decode.simps)
qed

section \<open>The store\<close>

definition filter_spec :: "string \<Rightarrow> string \<Rightarrow> AuditEvent \<Rightarrow> bool" where
  "filter_spec v q e \<longleftrightarrow>
     (norm_word v \<in> {'''', ''all''} \<or> ToLower (VerdictString e) = norm_word v) \<and>
     (\<exists>a b. ToLower (event_String e) = a @ norm_word q @ b)"

lemma filter_events_eq:
  "filter_events v q es acc = acc @ filter (\<lambda>e. (v \<in> {'''', ''all''} \<or> ToLower (VerdictString e) = v) \<and>
     Contains (ToLower (event_String e)) q) es"
  by (induction es arbitrary: acc) auto

lemma Filter_eq: "Filter v q s = filter (filter_spec v q) (as_events s)"
  by (simp add: Filter_def filter_events_eq filter_spec_def Contains_iff cong: filter_cong)

text \<open>What the consumer of events relies on: a log that keeps the last \<open>cap\<close> events.\<close>

locale event_log =
  fixes add :: "AuditEvent \<Rightarrow> 's \<Rightarrow> 's"
    and events :: "'s \<Rightarrow> AuditEvent list"
    and cap :: "'s \<Rightarrow> nat"
  assumes events_add: "length (events s) \<le> cap s \<Longrightarrow>
      events (add e s) = drop (Suc (length (events s)) - cap s) (events s @ [e])"
    and cap_add: "cap (add e s) = cap s"
begin

definition bounded :: "'s \<Rightarrow> bool" where
  "bounded s \<longleftrightarrow> length (events s) \<le> cap s"

lemma bounded_add: "bounded s \<Longrightarrow> bounded (add e s)"
  by (simp add: bounded_def events_add cap_add)

lemma fold_add:
  "bounded s \<Longrightarrow>
     events (fold add es s) = drop (length (events s) + length es - cap s) (events s @ es) \<and> bounded (fold add es s)"
proof (induction es arbitrary: s)
  case Nil
  then show ?case by (simp add: bounded_def)
next
  case (Cons e es)
  let ?n = "Suc (length (events s)) - cap s"
  have ev: "events (add e s) = drop ?n (events s @ [e])"
    using Cons.prems by (simp only: bounded_def events_add)
  have len: "length (events (add e s)) = Suc (length (events s)) - ?n" by (simp add: ev)
  have dd: "drop m (drop ?n (events s @ [e]) @ es) = drop (m + ?n) (events s @ e # es)" for m
  proof -
    have "drop ?n (events s @ [e]) @ es = drop ?n (events s @ e # es)"
      using drop_append [of ?n "events s @ [e]" es] by simp
    then show ?thesis by (simp only: drop_drop)
  qed
  from Cons.IH [OF bounded_add [OF Cons.prems]]
  have "events (fold add es (add e s)) =
      drop (length (events (add e s)) + length es - cap s) (events (add e s) @ es)"
    and b: "bounded (fold add es (add e s))"
    by (simp_all add: cap_add)
  then have "events (fold add es (add e s)) =
      drop (Suc (length (events s)) - ?n + length es - cap s + ?n) (events s @ e # es)"
    unfolding len unfolding ev dd by simp
  moreover have "Suc (length (events s)) - ?n + length es - cap s + ?n = length (events s) + length (e # es) - cap s"
    using Cons.prems by (auto simp: bounded_def)
  ultimately show ?case using b by simp
qed

text \<open>The reading loop hands exactly the samples that decode, in order, to the log.\<close>

definition decoded :: "ring_read list \<Rightarrow> AuditEvent list" where
  "decoded rs = List.map_filter (\<lambda>r. case r of RingSample b \<Rightarrow> decode_event b | _ \<Rightarrow> None)
     (takeWhile (\<lambda>r. \<exists>b. r = RingSample b) rs)"

lemma ReadRingbuf_fold: "snd (ReadRingbuf add rs s) = fold add (decoded rs) s"
  by (induction add rs s rule: ReadRingbuf.induct)
    (auto simp: decoded_def map_filter_simps split: option.splits)

end

definition store_cap :: "AuditStore \<Rightarrow> nat" where
  "store_cap s = (if as_capacity s \<le> 0 then 1 else nat (as_capacity s))"

interpretation store: event_log Add as_events store_cap
proof
  fix s :: AuditStore and e
  show "store_cap (Add e s) = store_cap s" by (simp add: store_cap_def Add_def Let_def)
  assume len: "length (as_events s) \<le> store_cap s"
  show "as_events (Add e s) = drop (Suc (length (as_events s)) - store_cap s) (as_events s @ [e])"
  proof (cases "as_capacity s \<le> int (length (as_events s))")
    case True
    with len have "length (as_events s) = store_cap s \<or> as_events s = []"
      by (cases "as_events s") (auto simp: store_cap_def split: if_splits)
    with True show ?thesis by (cases "as_events s") (auto simp: store_cap_def Add_def)
  next
    case False
    then show ?thesis by (auto simp: store_cap_def Add_def)
  qed
qed

lemma bounded_New: "store.bounded (NewAuditStore c)"
  by (simp add: store.bounded_def NewAuditStore_def)

section \<open>Properties\<close>

text \<open>A store of a given capacity holds, after any sequence of additions, exactly the last events up to its
  capacity, in order; a capacity that is not positive becomes 1000.\<close>

theorem store_keeps_last_events:
  "Events (fold Add es (NewAuditStore c)) = drop (length es - (if c \<le> 0 then 1000 else nat c)) es"
proof -
  have "store_cap (NewAuditStore c) = (if c \<le> 0 then 1000 else nat c)"
    by (simp add: store_cap_def NewAuditStore_def)
  with store.fold_add [OF bounded_New, of es c] show ?thesis
    by (simp add: Events_def NewAuditStore_def)
qed

text \<open>The ring-buffer loop of the agent, with the store as its handler, leaves in the store the last events among
  the samples that decode, up to the first error; a sample that does not decode is skipped.\<close>

theorem ring_loop_fills_store:
  "Events (snd (ReadRingbuf Add rs (NewAuditStore c))) =
     (let es = List.map_filter (\<lambda>r. case r of RingSample b \<Rightarrow> decode_event b | _ \<Rightarrow> None)
        (takeWhile (\<lambda>r. \<exists>b. r = RingSample b) rs)
      in drop (length es - (if c \<le> 0 then 1000 else nat c)) es)"
proof -
  have "store_cap (NewAuditStore c) = (if c \<le> 0 then 1000 else nat c)"
    by (simp add: store_cap_def NewAuditStore_def)
  with store.fold_add [OF bounded_New, of "store.decoded rs" c] show ?thesis
    by (simp add: store.ReadRingbuf_fold Events_def NewAuditStore_def store.decoded_def Let_def)
qed

text \<open>\<open>Filter\<close> returns exactly the stored events, in order, whose verdict word equals the filter (unless it is
  empty or \<^verbatim>\<open>all\<close>) and whose printed line contains the query, both compared in lower case after trimming.\<close>

theorem filter_returns_matches:
  "Filter v q s = filter (filter_spec v q) (as_events s)"
  by (rule Filter_eq)

text \<open>C32: Decoding a sample that the eBPF programs wrote recovers every field up to the rule ID. The cgroup ID is
  read four bytes too early, because the C structure has an alignment hole that the packed Go layout
  lacks: the decoded ID is the hole with the low half of the ID above it, and the identity is the
  high half of the ID.\<close>

theorem decode_of_kernel_event:
  assumes "length hole = 4"
  shows "decode_event (c_layout hole e) =
    Some (e\<lparr>ev_CgroupID := le_decode hole OR push_bit 32 (ev_CgroupID e),
      ev_IdentityID := ucast (drop_bit 32 (ev_CgroupID e))\<rparr>)"
  using assms by (rule decode_c_layout)

theorem decode_of_kernel_event_witness:
  "decode_event (c_layout [0, 0, 0, 0] \<lparr>ev_TimestampNS = 1, ev_SrcIP = 2, ev_DstIP = 3, ev_SrcPort = 4, ev_DstPort = 5,
     ev_Protocol = 6, ev_Verdict = 1, ev_ReasonCode = 4, ev_RuleID = 7, ev_CgroupID = 18, ev_IdentityID = 7\<rparr>) =
   Some \<lparr>ev_TimestampNS = 1, ev_SrcIP = 2, ev_DstIP = 3, ev_SrcPort = 4, ev_DstPort = 5,
     ev_Protocol = 6, ev_Verdict = 1, ev_ReasonCode = 4, ev_RuleID = 7, ev_CgroupID = 77309411328, ev_IdentityID = 0\<rparr>"
  by (subst decode_of_kernel_event) (simp_all add: push_bit_eq_mult)

end
