(* ===== verification/Security.thy ===== *)
theory Security
  imports Go_Prelude
begin

text \<open>
  Package \<^verbatim>\<open>pkg/security\<close>: roles and permissions of \<^verbatim>\<open>rbac.go\<close>, the peer credentials of \<^verbatim>\<open>peercred.go\<close>
  and the capability handling of \<^verbatim>\<open>caps.go\<close>. The socket and the system calls \<^verbatim>\<open>capget\<close>, \<^verbatim>\<open>capset\<close> and
  \<^verbatim>\<open>geteuid\<close> are parameters; the locale \<open>cap_proc\<close> says what the calls on capabilities promise. The permission matrix
  is refined to a linear order of tiers.
\<close>

section \<open>Roles\<close>

type_synonym Role = string

definition RoleAdmin :: Role where "RoleAdmin = ''Admin''"
definition RoleOperator :: Role where "RoleOperator = ''Operator''"
definition RoleViewer :: Role where "RoleViewer = ''Viewer''"

record PeerIdentity =
  pi_UID :: u32
  pi_GID :: u32
  pi_PID :: int
  pi_Role :: Role

record RBACEnforcer =
  adminUIDs :: "u32 \<rightharpoonup> bool"
  operatorUIDs :: "u32 \<rightharpoonup> bool"
  adminGIDs :: "u32 \<rightharpoonup> bool"
  operatorGIDs :: "u32 \<rightharpoonup> bool"

text \<open>Indexing a Go map with a missing key gives the zero value.\<close>

definition flag :: "(u32 \<rightharpoonup> bool) \<Rightarrow> u32 \<Rightarrow> bool" where
  "flag m k = (case m k of None \<Rightarrow> False | Some b \<Rightarrow> b)"

definition NewRBACEnforcer :: RBACEnforcer where
  "NewRBACEnforcer = \<lparr>adminUIDs = [0 \<mapsto> True], operatorUIDs = Map.empty,
     adminGIDs = [0 \<mapsto> True, 27 \<mapsto> True], operatorGIDs = Map.empty\<rparr>"

definition AddAdminUID :: "u32 \<Rightarrow> RBACEnforcer \<Rightarrow> RBACEnforcer" where
  "AddAdminUID uid e = e\<lparr>adminUIDs := (adminUIDs e)(uid \<mapsto> True)\<rparr>"

definition AddOperatorUID :: "u32 \<Rightarrow> RBACEnforcer \<Rightarrow> RBACEnforcer" where
  "AddOperatorUID uid e = e\<lparr>operatorUIDs := (operatorUIDs e)(uid \<mapsto> True)\<rparr>"

definition ResolveRole :: "RBACEnforcer \<Rightarrow> PeerIdentity option \<Rightarrow> Role" where
  "ResolveRole e identity =
     (case identity of
        None \<Rightarrow> RoleViewer
      | Some i \<Rightarrow>
          if flag (adminUIDs e) (pi_UID i) then RoleAdmin
          else if flag (operatorUIDs e) (pi_UID i) then RoleOperator
          else if flag (adminGIDs e) (pi_GID i) then RoleAdmin
          else if flag (operatorGIDs e) (pi_GID i) then RoleOperator
          else RoleViewer)"

datatype rbac_error = NotAuthorized Role string | UnknownCommand string

fun rbac_error_text :: "rbac_error \<Rightarrow> string" where
  "rbac_error_text (NotAuthorized role command) =
     ''403 Forbidden: role '' @ [CHR 0x27] @ role @ [CHR 0x27] @ '' is not authorized for command '' @
     [CHR 0x27] @ command @ [CHR 0x27]"
| "rbac_error_text (UnknownCommand command) =
     ''403 Forbidden: unknown command '' @ [CHR 0x27] @ command @ [CHR 0x27]"

definition EvaluatePermission :: "Role \<Rightarrow> string \<Rightarrow> rbac_error option" where
  "EvaluatePermission role command =
     (let cmd = ToLower command in
      if cmd = ''apply_policy'' then
        (if role = RoleAdmin \<or> role = RoleOperator then None else Some (NotAuthorized role command))
      else if cmd = ''get_status'' \<or> cmd = ''dump_maps'' then
        (if role = RoleAdmin \<or> role = RoleOperator \<or> role = RoleViewer then None
         else Some (NotAuthorized role command))
      else Some (UnknownCommand command))"

section \<open>Peer credentials\<close>

text \<open>A connection as far as the code looks at it: whether it is a Unix socket, the error of
  \<^verbatim>\<open>SyscallConn\<close>, the error of \<^verbatim>\<open>Control\<close>, and what \<^verbatim>\<open>SO_PEERCRED\<close> gives.\<close>

record peer_conn =
  pc_is_unix :: bool
  pc_syscall_err :: "string option"
  pc_control_err :: "string option"
  pc_ucred :: "string + u32 \<times> u32 \<times> int"

datatype peer_error =
    NotUnixSocket | SyscallConnFailed string | ControlFailed string | PeerCredFailed string

definition GetPeerCredentials :: "peer_conn \<Rightarrow> peer_error + PeerIdentity" where
  "GetPeerCredentials conn =
     (if \<not> pc_is_unix conn then Inl NotUnixSocket
      else case pc_syscall_err conn of
        Some err \<Rightarrow> Inl (SyscallConnFailed err)
      | None \<Rightarrow> (case pc_control_err conn of
          Some err \<Rightarrow> Inl (ControlFailed err)
        | None \<Rightarrow> (case pc_ucred conn of
            Inl err \<Rightarrow> Inl (PeerCredFailed err)
          | Inr (uid, gid, pid) \<Rightarrow>
              Inr \<lparr>pi_UID = uid, pi_GID = gid, pi_PID = pid, pi_Role = RoleViewer\<rparr>)))"

section \<open>Capabilities\<close>

definition CapNetAdmin :: u32 where "CapNetAdmin = 12"
definition CapSysAdmin :: u32 where "CapSysAdmin = 21"
definition CapSysResource :: u32 where "CapSysResource = 24"
definition CapPerfmon :: u32 where "CapPerfmon = 38"
definition CapBPF :: u32 where "CapBPF = 39"

definition CapabilityNames :: "u32 \<rightharpoonup> string" where
  "CapabilityNames = [CapNetAdmin \<mapsto> ''CAP_NET_ADMIN'', CapSysAdmin \<mapsto> ''CAP_SYS_ADMIN'',
     CapSysResource \<mapsto> ''CAP_SYS_RESOURCE'', CapPerfmon \<mapsto> ''CAP_PERFMON'', CapBPF \<mapsto> ''CAP_BPF'']"

record CapabilitySet =
  cs_Effective :: "u32 list"
  cs_Permitted :: "u32 list"
  cs_IsRoot :: bool
  cs_HasCapBPF :: bool
  cs_HasCapNet :: bool

record CapUserData =
  cud_Effective :: u32
  cud_Permitted :: u32
  cud_Inheritable :: u32

record 'p proc_kernel =
  pk_capget :: "'p \<Rightarrow> string + CapUserData \<times> CapUserData"
  pk_capset :: "'p \<Rightarrow> CapUserData \<times> CapUserData \<Rightarrow> string option \<times> 'p"
  pk_geteuid :: "'p \<Rightarrow> int"

datatype caps_error = CapgetFailed string | CapsetFailed string | CapsUnreadable caps_error

definition hasCap :: "u64 \<Rightarrow> u32 \<Rightarrow> bool" where
  "hasCap bits capID = (if 64 \<le> capID then False else bits AND push_bit (unat capID) 1 \<noteq> 0)"

text \<open>The loop \<^verbatim>\<open>for i := 0; i < 64; i++\<close>, from \<open>i\<close> on with \<open>n\<close> rounds left.\<close>

fun extract_from :: "u64 \<Rightarrow> nat \<Rightarrow> u32 \<Rightarrow> u32 list \<Rightarrow> u32 list" where
  "extract_from bits 0 i caps = caps"
| "extract_from bits (Suc n) i caps =
     extract_from bits n (i + 1)
       (if bits AND push_bit (unat i) 1 \<noteq> 0 then caps @ [i] else caps)"

definition extractCapBits :: "u64 \<Rightarrow> u32 list" where
  "extractCapBits bits = extract_from bits 64 0 []"

definition GetProcessCapabilities :: "'p proc_kernel \<Rightarrow> 'p \<Rightarrow> caps_error + CapabilitySet" where
  "GetProcessCapabilities P p =
     (case pk_capget P p of
        Inl err \<Rightarrow> Inl (CapgetFailed err)
      | Inr (d0, d1) \<Rightarrow>
          let effBits = (ucast (cud_Effective d0) :: u64) OR push_bit 32 (ucast (cud_Effective d1));
              permBits = (ucast (cud_Permitted d0) :: u64) OR push_bit 32 (ucast (cud_Permitted d1))
          in Inr \<lparr>cs_Effective = extractCapBits effBits, cs_Permitted = extractCapBits permBits,
               cs_IsRoot = (pk_geteuid P p = 0),
               cs_HasCapBPF = (hasCap effBits CapBPF \<or> hasCap effBits CapSysAdmin),
               cs_HasCapNet = (hasCap effBits CapNetAdmin \<or> hasCap effBits CapSysAdmin)\<rparr>)"

fun keep_bits :: "u32 list \<Rightarrow> u64 \<Rightarrow> u64" where
  "keep_bits [] keepBits = keepBits"
| "keep_bits (capID # caps) keepBits =
     keep_bits caps (if capID < 64 then keepBits OR push_bit (unat capID) 1 else keepBits)"

definition DropCapabilities :: "'p proc_kernel \<Rightarrow> u32 list \<Rightarrow> 'p \<Rightarrow> caps_error option \<times> 'p" where
  "DropCapabilities P keepCaps p =
     (let keepBits = keep_bits keepCaps 0;
          lo = (ucast (keepBits AND 0xFFFFFFFF) :: u32);
          hi = (ucast (drop_bit 32 keepBits AND 0xFFFFFFFF) :: u32);
          r = pk_capset P p
            (\<lparr>cud_Effective = lo, cud_Permitted = lo, cud_Inheritable = 0\<rparr>,
             \<lparr>cud_Effective = hi, cud_Permitted = hi, cud_Inheritable = 0\<rparr>)
      in (map_option CapsetFailed (fst r), snd r))"

definition minimalCaps :: "u32 list" where
  "minimalCaps = [CapBPF, CapNetAdmin, CapSysResource, CapPerfmon, CapSysAdmin]"

definition EnsureMinimalCapabilities :: "'p proc_kernel \<Rightarrow> 'p \<Rightarrow> (caps_error + CapabilitySet) \<times> 'p" where
  "EnsureMinimalCapabilities P p =
     (case GetProcessCapabilities P p of
        Inl err \<Rightarrow> (Inl (CapsUnreadable err), p)
      | Inr caps \<Rightarrow>
          let p' = snd (DropCapabilities P minimalCaps p)
          in case GetProcessCapabilities P p' of
            Inl _ \<Rightarrow> (Inr caps, p')
          | Inr boundedCaps \<Rightarrow> (Inr boundedCaps, p'))"

definition CapNames :: "u32 list \<Rightarrow> string list" where
  "CapNames capIDs =
     map (\<lambda>i. case CapabilityNames i of Some name \<Rightarrow> name | None \<Rightarrow> ''CAP_'' @ dec (unat i)) capIDs"

section \<open>Permissions as a linear order of tiers\<close>

datatype tier = ViewerTier | OperatorTier | AdminTier

instantiation tier :: linorder
begin

definition rank_tier :: "tier \<Rightarrow> nat" where
  "rank_tier t = (case t of ViewerTier \<Rightarrow> 0 | OperatorTier \<Rightarrow> 1 | AdminTier \<Rightarrow> 2)"

definition less_eq_tier :: "tier \<Rightarrow> tier \<Rightarrow> bool" where
  "less_eq_tier a b \<longleftrightarrow> rank_tier a \<le> rank_tier b"

definition less_tier :: "tier \<Rightarrow> tier \<Rightarrow> bool" where
  "less_tier a b \<longleftrightarrow> rank_tier a < rank_tier b"

instance
  by standard (auto simp: less_eq_tier_def less_tier_def rank_tier_def split: tier.splits)

end

definition tier_of :: "Role \<Rightarrow> tier option" where
  "tier_of role =
     (if role = RoleAdmin then Some AdminTier
      else if role = RoleOperator then Some OperatorTier
      else if role = RoleViewer then Some ViewerTier
      else None)"

definition command_tier :: "string \<Rightarrow> tier option" where
  "command_tier cmd =
     (if cmd = ''apply_policy'' then Some OperatorTier
      else if cmd = ''get_status'' \<or> cmd = ''dump_maps'' then Some ViewerTier
      else None)"

lemmas role_defs = RoleAdmin_def RoleOperator_def RoleViewer_def

lemma tier_le [simp]:
  "ViewerTier \<le> t" "OperatorTier \<le> t \<longleftrightarrow> t \<noteq> ViewerTier" "AdminTier \<le> t \<longleftrightarrow> t = AdminTier"
  by (cases t; simp add: less_eq_tier_def rank_tier_def)+

lemma EvaluatePermission_tiers:
  "EvaluatePermission role command = None \<longleftrightarrow>
     (\<exists>t need. tier_of role = Some t \<and> command_tier (ToLower command) = Some need \<and> need \<le> t)"
  by (auto simp: EvaluatePermission_def tier_of_def command_tier_def role_defs Let_def)

lemma ResolveRole_tier: "\<exists>t. tier_of (ResolveRole e i) = Some t"
  by (auto simp: ResolveRole_def tier_of_def role_defs split: option.splits)

lemma flag_upd [simp]: "flag (m(u \<mapsto> True)) v \<longleftrightarrow> u = v \<or> flag m v"
  by (simp add: flag_def)

section \<open>Capability bits\<close>

lemma test_bit: "bits AND 2 ^ n = 0 \<longleftrightarrow> \<not> bit bits n" for bits :: u64
  using bit_iff_and_push_bit_not_eq_0 [of bits n] by (simp add: push_bit_eq_mult)

lemma extract_from_eq:
  "n + unat i \<le> 64 \<Longrightarrow>
     extract_from bits n i acc = acc @ map of_nat (filter (bit bits) [unat i..<unat i + n])"
proof (induction n arbitrary: i acc)
  case (Suc n)
  have "unat (i + 1) = unat i + 1"
    using Suc.prems by (simp add: unat_plus_if')
  moreover have "[unat i..<unat i + Suc n] = unat i # [unat i + 1..<unat i + 1 + n]"
    by (simp add: upt_conv_Cons)
  ultimately show ?case
    using Suc by (simp add: test_bit)
qed simp

lemma extractCapBits_eq: "extractCapBits bits = map of_nat (filter (bit bits) [0..<64])"
  by (simp add: extractCapBits_def extract_from_eq)

lemma bit_keep_bits:
  "n < 64 \<Longrightarrow> bit (keep_bits caps b) n \<longleftrightarrow> bit b n \<or> (\<exists>c \<in> set caps. unat c = n)"
proof (induction caps arbitrary: b)
  case (Cons c caps)
  have "c < 64 \<longleftrightarrow> unat c < 64" by (simp add: word_less_nat_alt)
  with Cons show ?case by (auto simp: bit_simps)
qed simp

lemma halves_join:
  "ucast (ucast (b AND 0xFFFFFFFF) :: u32) OR push_bit 32 (ucast (ucast (drop_bit 32 b AND 0xFFFFFFFF) :: u32)) = (b :: u64)"
proof -
  have "(0xFFFFFFFF :: u64) = mask 32" by (simp add: mask_eq_exp_minus_1)
  then show ?thesis
    by (simp only: flip: take_bit_eq_mask) (rule bit_word_eqI, auto simp: bit_simps)
qed

lemma bit_halves:
  "n < 64 \<Longrightarrow> bit ((ucast (lo :: u32) :: u64) OR push_bit 32 (ucast (hi :: u32))) n \<longleftrightarrow> (if n < 32 then bit lo n else bit hi (n - 32))"
  by (auto simp: bit_simps dest: bit_imp_le_length)

text \<open>The capabilities that the kernel knows, as two masks.\<close>

definition known_cap :: "u32 \<times> u32 \<Rightarrow> nat \<Rightarrow> bool" where
  "known_cap known n = (if n < 32 then bit (fst known) n else bit (snd known) (n - 32))"

definition mask_data :: "u32 \<Rightarrow> CapUserData \<Rightarrow> CapUserData" where
  "mask_data m d = d\<lparr>cud_Effective := cud_Effective d AND m, cud_Permitted := cud_Permitted d AND m, cud_Inheritable := cud_Inheritable d AND m\<rparr>"

text \<open>
  Capabilities belong to threads: \<open>caps p t\<close> are those of thread \<open>t\<close>. Both calls name the process ID, which is the thread \<open>main\<close>: \<^verbatim>\<open>capget\<close> reads that
  thread; \<^verbatim>\<open>capset\<close>, when it succeeds, sets that thread alone, and what the kernel does not know it masks out.
\<close>

locale cap_proc =
  fixes P :: "'p proc_kernel" and caps :: "'p \<Rightarrow> nat \<Rightarrow> CapUserData \<times> CapUserData" and main :: nat and known :: "u32 \<times> u32"
  assumes capget_main: "pk_capget P p = Inr d \<Longrightarrow> d = caps p main"
    and capset_ok: "pk_capset P p (d0, d1) = (None, p') \<Longrightarrow>
      caps p' = (caps p)(main := (mask_data (fst known) d0, mask_data (snd known) d1))"
    and capset_err: "pk_capset P p d = (Some e, p') \<Longrightarrow> caps p' = caps p"
begin

lemma Drop_then_Get:
  assumes "DropCapabilities P keep p = (None, p')" "GetProcessCapabilities P p' = Inr cs"
  shows "cs_Effective cs = map of_nat (filter (\<lambda>n. known_cap known n \<and> (\<exists>c \<in> set keep. unat c = n)) [0..<64])"
    "cs_Permitted cs = cs_Effective cs" "t \<noteq> main \<Longrightarrow> caps p' t = caps p t"
proof -
  let ?k = "keep_bits keep 0"
  let ?lo = "ucast (?k AND 0xFFFFFFFF) AND fst known" and ?hi = "ucast (drop_bit 32 ?k AND 0xFFFFFFFF) AND snd known"
  have "pk_capset P p
      (\<lparr>cud_Effective = ucast (?k AND 0xFFFFFFFF), cud_Permitted = ucast (?k AND 0xFFFFFFFF), cud_Inheritable = 0\<rparr>,
       \<lparr>cud_Effective = ucast (drop_bit 32 ?k AND 0xFFFFFFFF), cud_Permitted = ucast (drop_bit 32 ?k AND 0xFFFFFFFF),
        cud_Inheritable = 0\<rparr>) = (None, p')"
    using assms(1) by (auto simp: DropCapabilities_def Let_def prod_eq_iff)
  note set = capset_ok [OF this]
  show "t \<noteq> main \<Longrightarrow> caps p' t = caps p t" by (simp add: set)
  obtain d where d: "pk_capget P p' = Inr d" using assms(2) by (cases "pk_capget P p'") (auto simp: GetProcessCapabilities_def)
  from capget_main [OF d] have dd: "d = (\<lparr>cud_Effective = ?lo, cud_Permitted = ?lo, cud_Inheritable = 0\<rparr>,
      \<lparr>cud_Effective = ?hi, cud_Permitted = ?hi, cud_Inheritable = 0\<rparr>)"
    by (simp add: set mask_data_def)
  have "bit ((ucast ?lo :: u64) OR push_bit 32 (ucast ?hi)) n \<longleftrightarrow> known_cap known n \<and> (\<exists>c \<in> set keep. unat c = n)" if "n < 64" for n
  proof -
    have "bit ?k n \<longleftrightarrow> bit ((ucast (ucast (?k AND 0xFFFFFFFF) :: u32) :: u64) OR
        push_bit 32 (ucast (ucast (drop_bit 32 ?k AND 0xFFFFFFFF) :: u32))) n" by (simp only: halves_join)
    with that show ?thesis
      by (cases "n < 32") (auto simp: bit_halves bit_and_iff known_cap_def bit_keep_bits)
  qed
  then have "filter (bit ((ucast ?lo :: u64) OR push_bit 32 (ucast ?hi))) [0..<64] =
      filter (\<lambda>n. known_cap known n \<and> (\<exists>c \<in> set keep. unat c = n)) [0..<64]"
    by (intro filter_cong) auto
  with assms(2) show "cs_Effective cs = map of_nat (filter (\<lambda>n. known_cap known n \<and> (\<exists>c \<in> set keep. unat c = n)) [0..<64])"
    "cs_Permitted cs = cs_Effective cs"
    by (auto simp: GetProcessCapabilities_def d dd Let_def extractCapBits_eq)
qed

end

text \<open>A process of two threads on a kernel with the capabilities 0 to 40, whose \<^verbatim>\<open>capset\<close> refuses to gain a capability.\<close>

record ref_proc =
  rp_caps :: "CapUserData \<times> CapUserData"
  rp_other :: "CapUserData \<times> CapUserData"
  rp_euid :: int

definition ref_known :: "u32 \<times> u32" where
  "ref_known = (0xFFFFFFFF, 0x1FF)"

definition ref_thread :: "ref_proc \<Rightarrow> nat \<Rightarrow> CapUserData \<times> CapUserData" where
  "ref_thread p t = (if t = 0 then rp_caps p else rp_other p)"

definition ref_proc_kernel :: "ref_proc proc_kernel" where
  "ref_proc_kernel = \<lparr>
     pk_capget = (\<lambda>p. Inr (rp_caps p)),
     pk_capset = (\<lambda>p d.
       if cud_Permitted (fst d) OR cud_Permitted (fst (rp_caps p)) = cud_Permitted (fst (rp_caps p)) \<and>
          cud_Permitted (snd d) OR cud_Permitted (snd (rp_caps p)) = cud_Permitted (snd (rp_caps p))
       then (None, p\<lparr>rp_caps := (mask_data (fst ref_known) (fst d), mask_data (snd ref_known) (snd d))\<rparr>)
       else (Some ''operation not permitted'', p)),
     pk_geteuid = rp_euid\<rparr>"

interpretation ref_caps: cap_proc ref_proc_kernel ref_thread 0 ref_known
  by unfold_locales (auto simp: ref_proc_kernel_def ref_thread_def fun_eq_iff split: if_splits)

section \<open>Properties\<close>

text \<open>The permission matrix is a linear order: a command is allowed exactly when the caller's role has a tier, the
  command (in lower case) has a tier, and the caller's tier is at least that of the command.\<close>

theorem permission_is_tier_order:
  "EvaluatePermission role command = None \<longleftrightarrow>
     (\<exists>t need. tier_of role = Some t \<and> command_tier (ToLower command) = Some need \<and> need \<le> t)"
  by (rule EvaluatePermission_tiers)

text \<open>With the default enforcer exactly the callers with user ID 0, group ID 0 or group ID 27 may apply a policy.\<close>

theorem default_policy_writers:
  "EvaluatePermission (ResolveRole NewRBACEnforcer (Some i)) ''apply_policy'' = None \<longleftrightarrow>
     pi_UID i = 0 \<or> pi_GID i = 0 \<or> pi_GID i = 27"
proof -
  have "ToLower ''apply_policy'' = ''apply_policy''" by code_simp
  then show ?thesis
    by (auto simp: EvaluatePermission_def ResolveRole_def NewRBACEnforcer_def flag_def role_defs Let_def)
qed

text \<open>Registering a user changes the role of that user only. A registered admin is an admin; a registered operator
  is an operator unless the user ID is registered as admin, even if its group would make it an admin.\<close>

theorem registration_effect:
  "ResolveRole (AddAdminUID u e) (Some i) = (if pi_UID i = u then RoleAdmin else ResolveRole e (Some i)) \<and>
   ResolveRole (AddOperatorUID u e) (Some i) =
     (if pi_UID i = u \<and> \<not> flag (adminUIDs e) u then RoleOperator else ResolveRole e (Some i))"
  by (auto simp: ResolveRole_def AddAdminUID_def AddOperatorUID_def)

text \<open>C31: When the kernel accepts the reduced sets, the main thread ends with exactly those capabilities of the list that the kernel knows,
  effective and permitted alike, whatever their order and repetition. The other threads of the process keep what they had.\<close>

theorem drop_keeps_exactly:
  assumes "cap_proc P caps main known" and "DropCapabilities P keep p = (None, p')" and "GetProcessCapabilities P p' = Inr cs"
  shows "cs_Effective cs = map of_nat (filter (\<lambda>n. known_cap known n \<and> (\<exists>c \<in> set keep. unat c = n)) [0..<64]) \<and>
    cs_Permitted cs = cs_Effective cs \<and> (\<forall>t. t \<noteq> main \<longrightarrow> caps p' t = caps p t)"
  using cap_proc.Drop_then_Get [OF assms] by blast

definition ex_full_data :: "CapUserData \<times> CapUserData" where
  "ex_full_data = (\<lparr>cud_Effective = 0xFFFFFFFF, cud_Permitted = 0xFFFFFFFF, cud_Inheritable = 0\<rparr>,
     \<lparr>cud_Effective = 0x1FF, cud_Permitted = 0x1FF, cud_Inheritable = 0\<rparr>)"

definition ex_full_proc :: ref_proc where
  "ex_full_proc = \<lparr>rp_caps = ex_full_data, rp_other = ex_full_data, rp_euid = 0\<rparr>"

lemmas ex_proc_defs = DropCapabilities_def ref_proc_kernel_def ex_full_proc_def ex_full_data_def Let_def

lemma known_cap_ref: "known_cap ref_known n \<longleftrightarrow> n < 41"
proof -
  have masks: "ref_known = (mask 32, mask 9)" by (simp add: ref_known_def mask_eq_exp_minus_1)
  show ?thesis unfolding known_cap_def masks fst_conv snd_conv bit_mask_iff by auto
qed

lemma ex_drop: "fst (DropCapabilities ref_proc_kernel minimalCaps ex_full_proc) = None"
  by (simp add: ex_proc_defs)
    (simp add: minimalCaps_def CapBPF_def CapNetAdmin_def CapSysResource_def CapPerfmon_def CapSysAdmin_def)

lemma minimal_list:
  "map of_nat (filter (\<lambda>n. known_cap ref_known n \<and> (\<exists>c \<in> set minimalCaps. unat c = n)) [0..<64]) = [12, 21, 24, 38, 39 :: u32]"
  by (simp add: minimalCaps_def CapBPF_def CapNetAdmin_def CapSysResource_def CapPerfmon_def CapSysAdmin_def upt_rec
      known_cap_ref)

theorem drop_keeps_exactly_witness:
  "\<exists>p cs. DropCapabilities ref_proc_kernel [39, 12, 12] ex_full_proc = (None, p) \<and> GetProcessCapabilities ref_proc_kernel p = Inr cs \<and>
     cs_Effective cs = [12, 39] \<and> rp_other p = ex_full_data"
proof -
  let ?p = "snd (DropCapabilities ref_proc_kernel [39, 12, 12] ex_full_proc)"
  have "fst (DropCapabilities ref_proc_kernel [39, 12, 12] ex_full_proc) = None"
    by (simp add: ex_proc_defs)
  then have drop: "DropCapabilities ref_proc_kernel [39, 12, 12] ex_full_proc = (None, ?p)" by (simp add: prod_eq_iff)
  obtain cs where get: "GetProcessCapabilities ref_proc_kernel ?p = Inr cs"
    by (simp add: GetProcessCapabilities_def ref_proc_kernel_def Let_def split_beta)
  note * = drop_keeps_exactly [OF ref_caps.cap_proc_axioms drop get]
  then have "cs_Effective cs = [12, 39]"
    by (simp add: upt_rec known_cap_ref)
  moreover from * have "ref_thread ?p 1 = ref_thread ex_full_proc 1" by simp
  then have "rp_other ?p = ex_full_data" by (simp add: ref_thread_def ex_full_proc_def)
  ultimately show ?thesis using drop get by blast
qed

text \<open>\<open>EnsureMinimalCapabilities\<close>, when the kernel accepts the drop and knows them, leaves exactly five capabilities in the main thread: network
  administration, system administration, resources, performance monitoring and BPF.\<close>

theorem minimal_capabilities:
  assumes "cap_proc P caps main ref_known" and "GetProcessCapabilities P p = Inr c0" and "DropCapabilities P minimalCaps p = (None, p')"
    and "GetProcessCapabilities P p' = Inr cs"
  shows "EnsureMinimalCapabilities P p = (Inr cs, p') \<and>
    cs_Effective cs = [12, 21, 24, 38, 39] \<and> cs_Permitted cs = [12, 21, 24, 38, 39]"
  using cap_proc.Drop_then_Get(1,2) [OF assms(1,3,4), unfolded minimal_list] assms
  by (simp add: EnsureMinimalCapabilities_def)

end
