(* ===== verification/Control.thy ===== *)
theory Control
  imports Loader Observability Security
begin

text \<open>
  Package \<^verbatim>\<open>pkg/control\<close>: the control server's request handling (\<^verbatim>\<open>server.go\<close>) and the client
  (\<^verbatim>\<open>client.go\<close>). A connection is its peer's credentials and what the JSON decoder makes of its bytes; the decoder,
  the YAML decoder and the kernel are parameters. The lemmas say which connections can change
  the policy maps, and that every request gets the response its command asks for.
\<close>

section \<open>Messages\<close>

record Request =
  req_Command :: string
  req_PolicyYAML :: string

record StatsSummary =
  ss_RxPackets :: u64
  ss_RxBytes :: u64
  ss_PassPackets :: u64
  ss_DropPackets :: u64

record ConntrackFlowSummary =
  fs_SrcIP :: string
  fs_DstIP :: string
  fs_SrcPort :: u16
  fs_DstPort :: u16
  fs_Protocol :: u8
  fs_State :: string
  fs_Packets :: u64
  fs_Bytes :: u64

record CIDRRuleDump =
  cd_Generation :: u32
  cd_RuleID :: u32
  cd_PrefixLen :: u32
  cd_Addr :: string

record CgroupRuleDump =
  gd_Generation :: u32
  gd_RuleID :: u32
  gd_CgroupID :: u64

record PortRuleDump =
  pd_Generation :: u32
  pd_RuleID :: u32
  pd_Port :: u16
  pd_Protocol :: string
  pd_Action :: string

record MapDumpSummary =
  md_ActiveGeneration :: u32
  md_CIDRRules :: "CIDRRuleDump list"
  md_CgroupRules :: "CgroupRuleDump list"
  md_PortRules :: "PortRuleDump list"

record Response =
  rsp_Success :: bool
  rsp_Error :: string
  rsp_ActiveGeneration :: u32
  rsp_RulesCount :: nat
  rsp_Interface :: string
  rsp_CallerUID :: u32
  rsp_CallerPID :: int
  rsp_CallerRole :: Role
  rsp_Stats :: "StatsSummary option"
  rsp_SockopsStats :: "StatsSummary option"
  rsp_SockopsEnabled :: bool
  rsp_Conntrack :: "ConntrackFlowSummary list"
  rsp_AuditEvents :: "AuditEvent list"
  rsp_Dump :: "MapDumpSummary option"

text \<open>\<^verbatim>\<open>Response{}\<close>: the zero value. A composite literal of the sources updates it.\<close>

definition zero_response :: Response where
  "zero_response = \<lparr>rsp_Success = False, rsp_Error = [], rsp_ActiveGeneration = 0, rsp_RulesCount = 0,
     rsp_Interface = [], rsp_CallerUID = 0, rsp_CallerPID = 0, rsp_CallerRole = [], rsp_Stats = None,
     rsp_SockopsStats = None, rsp_SockopsEnabled = False, rsp_Conntrack = [], rsp_AuditEvents = [], rsp_Dump = None\<rparr>"

definition error_response :: "string \<Rightarrow> Response" where
  "error_response e = zero_response\<lparr>rsp_Success := False, rsp_Error := e\<rparr>"

section \<open>The server\<close>

text \<open>The loader is nil or present; present, it has the flag \<^verbatim>\<open>sockopsEnabled\<close>, and its maps are the
  world of the kernel.\<close>

record ControlServer =
  srv_loader :: "bool option"
  srv_auditStore :: "AuditStore option"
  srv_rbac :: RBACEnforcer

definition NewControlServer :: "bool option \<Rightarrow> AuditStore option \<Rightarrow> ControlServer" where
  "NewControlServer loader auditStore =
     \<lparr>srv_loader = loader, srv_auditStore = auditStore, srv_rbac = NewRBACEnforcer\<rparr>"

definition flow_state_name :: "u32 \<Rightarrow> string" where
  "flow_state_name state =
     (if state = 1 then ''SYN_SENT'' else if state = 2 then ''ESTABLISHED''
      else if state = 3 then ''CLOSED'' else ''UNKNOWN'')"

fun summarize_flows :: "ConntrackFlow list \<Rightarrow> ConntrackFlowSummary list \<Rightarrow> ConntrackFlowSummary list" where
  "summarize_flows [] ctSummaries = ctSummaries"
| "summarize_flows (f # fs) ctSummaries = summarize_flows fs (ctSummaries @
     [\<lparr>fs_SrcIP = IP4_String (cf_SrcIP f), fs_DstIP = IP4_String (cf_DstIP f), fs_SrcPort = cf_SrcPort f,
       fs_DstPort = cf_DstPort f, fs_Protocol = cf_Protocol f, fs_State = flow_state_name (cf_State f),
       fs_Packets = cf_Packets f, fs_Bytes = cf_Bytes f\<rparr>])"

definition conntrack_summaries :: "'w kernel \<Rightarrow> 'w \<Rightarrow> ConntrackFlowSummary list" where
  "conntrack_summaries K w =
     (case GetConntrackFlows K w of Inl _ \<Rightarrow> [] | Inr flows \<Rightarrow> summarize_flows flows [])"

definition stats_summary :: "Stats \<Rightarrow> StatsSummary" where
  "stats_summary st = \<lparr>ss_RxPackets = RxPackets st, ss_RxBytes = RxBytes st,
     ss_PassPackets = PassPackets st, ss_DropPackets = DropPackets st\<rparr>"

definition audit_events :: "ControlServer \<Rightarrow> AuditEvent list" where
  "audit_events s = (case srv_auditStore s of None \<Rightarrow> [] | Some st \<Rightarrow> Events st)"

definition apply_policy ::
  "'w kernel \<Rightarrow> (string \<Rightarrow> string + Policy) \<Rightarrow> ControlServer \<Rightarrow> string \<Rightarrow> 'w \<Rightarrow> Response \<times> 'w" where
  "apply_policy K unmarshal s yaml w =
     (case Parse unmarshal yaml of
        Inl err \<Rightarrow> (error_response (''policy parse error: '' @ compile_error_text err), w)
      | Inr pol \<Rightarrow> (case Compile pol of
          Inl err \<Rightarrow> (error_response (''policy compilation error: '' @ compile_error_text err), w)
        | Inr cp \<Rightarrow>
            let rulesCount = length (cpol_CIDRBlocks cp) + length (cpol_CgroupBlocks cp) + length (cpol_PortRules cp);
                done = (\<lambda>newGen. zero_response\<lparr>rsp_Success := True, rsp_ActiveGeneration := newGen,
                  rsp_RulesCount := rulesCount\<rparr>)
            in case srv_loader s of
              None \<Rightarrow> (done 1, w)
            | Some _ \<Rightarrow> (case ApplyPolicyAtomic (loader_stager K) cp w of
                ((g, Some err), w') \<Rightarrow>
                  (error_response (''atomic reload error: '' @ swap_error_text loader_error_text err), w')
              | ((g, None), w') \<Rightarrow> (done g, w'))))"

definition get_status :: "'w kernel \<Rightarrow> ControlServer \<Rightarrow> 'w \<Rightarrow> Response" where
  "get_status K s w =
     (case srv_loader s of
        None \<Rightarrow> zero_response\<lparr>rsp_Success := True, rsp_AuditEvents := audit_events s\<rparr>
      | Some sockopsEnabled \<Rightarrow> (case GetActiveGeneration K w of
          Inl err \<Rightarrow> error_response (''failed getting generation: '' @ loader_error_text err)
        | Inr gen \<Rightarrow>
            zero_response\<lparr>rsp_Success := True, rsp_ActiveGeneration := gen,
              rsp_Stats := Some (stats_summary (GetStats K w)),
              rsp_SockopsStats := map_option stats_summary (GetSockopsStats K sockopsEnabled w),
              rsp_SockopsEnabled := sockopsEnabled,
              rsp_Conntrack := conntrack_summaries K w, rsp_AuditEvents := audit_events s\<rparr>))"

definition dump_maps :: "'w kernel \<Rightarrow> ControlServer \<Rightarrow> 'w \<Rightarrow> Response" where
  "dump_maps K s w =
     (let gen = (case srv_loader s of None \<Rightarrow> 0 | Some _ \<Rightarrow> active_gen K w);
          ctSummaries = (case srv_loader s of None \<Rightarrow> [] | Some _ \<Rightarrow> conntrack_summaries K w)
      in zero_response\<lparr>rsp_Success := True, rsp_ActiveGeneration := gen, rsp_Conntrack := ctSummaries,
           rsp_AuditEvents := audit_events s,
           rsp_Dump := Some \<lparr>md_ActiveGeneration = gen, md_CIDRRules = [], md_CgroupRules = [], md_PortRules = []\<rparr>\<rparr>)"

definition processRequest ::
  "'w kernel \<Rightarrow> (string \<Rightarrow> string + Policy) \<Rightarrow> ControlServer \<Rightarrow> Request \<Rightarrow> 'w \<Rightarrow> Response \<times> 'w" where
  "processRequest K unmarshal s req w =
     (if req_Command req = ''apply_policy'' then apply_policy K unmarshal s (req_PolicyYAML req) w
      else if req_Command req = ''get_status'' then (get_status K s w, w)
      else if req_Command req = ''dump_maps'' then (dump_maps K s w, w)
      else (error_response (''unknown command: '' @ req_Command req), w))"

text \<open>What \<^verbatim>\<open>decoder.Decode\<close> makes of the connection's bytes.\<close>

datatype decoded_request = DecodeEOF | DecodeFailed string | Decoded Request

definition peer_of :: "ControlServer \<Rightarrow> peer_conn \<Rightarrow> PeerIdentity" where
  "peer_of s conn =
     (case GetPeerCredentials conn of
        Inl _ \<Rightarrow> \<lparr>pi_UID = 65534, pi_GID = 65534, pi_PID = 0, pi_Role = RoleViewer\<rparr>
      | Inr ident \<Rightarrow> ident\<lparr>pi_Role := ResolveRole (srv_rbac s) (Some ident)\<rparr>)"

definition with_caller :: "PeerIdentity \<Rightarrow> Response \<Rightarrow> Response" where
  "with_caller p r = r\<lparr>rsp_CallerUID := pi_UID p, rsp_CallerPID := pi_PID p, rsp_CallerRole := pi_Role p\<rparr>"

text \<open>The response that is written to the connection, if any.\<close>

definition handleConnection ::
  "'w kernel \<Rightarrow> (string \<Rightarrow> string + Policy) \<Rightarrow> ControlServer \<Rightarrow> peer_conn \<Rightarrow> decoded_request \<Rightarrow> 'w \<Rightarrow> Response option \<times> 'w" where
  "handleConnection K unmarshal s conn payload w =
     (let peerIdent = peer_of s conn in
      case payload of
        DecodeEOF \<Rightarrow> (None, w)
      | DecodeFailed err \<Rightarrow>
          (Some (with_caller peerIdent (error_response (''invalid JSON payload: '' @ err))), w)
      | Decoded req \<Rightarrow>
          (case EvaluatePermission (pi_Role peerIdent) (req_Command req) of
             Some permErr \<Rightarrow> (Some (with_caller peerIdent (error_response (rbac_error_text permErr))), w)
           | None \<Rightarrow>
               (case processRequest K unmarshal s req w of
                  (resp, w') \<Rightarrow> (Some (with_caller peerIdent resp), w'))))"

text \<open>The connections that the accept loop of \<^verbatim>\<open>Start\<close> hands over, served one after the other.\<close>

fun serve ::
  "'w kernel \<Rightarrow> (string \<Rightarrow> string + Policy) \<Rightarrow> ControlServer \<Rightarrow> (peer_conn \<times> decoded_request) list \<Rightarrow> 'w \<Rightarrow>
     Response option list \<times> 'w" where
  "serve K unmarshal s [] w = ([], w)"
| "serve K unmarshal s ((conn, payload) # cs) w =
     (case handleConnection K unmarshal s conn payload w of
        (r, w') \<Rightarrow> (case serve K unmarshal s cs w' of (rs, w'') \<Rightarrow> (r # rs, w'')))"

section \<open>The client\<close>

datatype client_error = DialFailed string string | SendFailed string | ReceiveFailed string | PolicyReadFailed string string

text \<open>A transport: the errors of dialling, sending and receiving, and the response that arrives.\<close>

record 'w transport =
  tp_dial :: "string \<Rightarrow> 'w \<Rightarrow> string option"
  tp_send :: "Request \<Rightarrow> 'w \<Rightarrow> string option \<times> 'w"
  tp_receive :: "'w \<Rightarrow> (string + Response) \<times> 'w"

definition SendRequest :: "'w transport \<Rightarrow> string \<Rightarrow> Request \<Rightarrow> 'w \<Rightarrow> (client_error + Response) \<times> 'w" where
  "SendRequest T socketPath req w =
     (case tp_dial T socketPath w of
        Some err \<Rightarrow> (Inl (DialFailed socketPath err), w)
      | None \<Rightarrow> (case tp_send T req w of
          (Some err, w1) \<Rightarrow> (Inl (SendFailed err), w1)
        | (None, w1) \<Rightarrow> (case tp_receive T w1 of
            (Inl err, w2) \<Rightarrow> (Inl (ReceiveFailed err), w2)
          | (Inr resp, w2) \<Rightarrow> (Inr resp, w2))))"

definition ApplyPolicyFile ::
  "'w transport \<Rightarrow> (string \<Rightarrow> string + string) \<Rightarrow> string \<Rightarrow> string \<Rightarrow> 'w \<Rightarrow> (client_error + Response) \<times> 'w" where
  "ApplyPolicyFile T readFile socketPath filePath w =
     (case readFile filePath of
        Inl err \<Rightarrow> (Inl (PolicyReadFailed filePath err), w)
      | Inr data \<Rightarrow> SendRequest T socketPath \<lparr>req_Command = ''apply_policy'', req_PolicyYAML = data\<rparr> w)"

definition GetStatus :: "'w transport \<Rightarrow> string \<Rightarrow> 'w \<Rightarrow> (client_error + Response) \<times> 'w" where
  "GetStatus T socketPath w = SendRequest T socketPath \<lparr>req_Command = ''get_status'', req_PolicyYAML = []\<rparr> w"

definition DumpMaps :: "'w transport \<Rightarrow> string \<Rightarrow> 'w \<Rightarrow> (client_error + Response) \<times> 'w" where
  "DumpMaps T socketPath w = SendRequest T socketPath \<lparr>req_Command = ''dump_maps'', req_PolicyYAML = []\<rparr> w"

end
