(* ===== verification/Reload_Trace.thy ===== *)
theory Reload_Trace
  imports Loader
begin

text \<open>
  A reload seen from the outside: the worlds that \<^verbatim>\<open>ApplyPolicyAtomic\<close> passes through, one per call
  into the kernel. A packet that arrives in between meets one of them. \<open>stager_sim\<close> is the
  interface of a stager that behaves like another one under a projection; through it a
  recorded run is the plain run with a log.
\<close>

section \<open>Stagers that simulate each other\<close>

locale stager_sim =
  fixes S :: "('s, 'e) BPFStager" and S' :: "('t, 'e) BPFStager" and prj :: "'s \<Rightarrow> 't"
  assumes get_sim: "st_GetActiveGeneration S' (prj s) = st_GetActiveGeneration S s"
    and set_sim: "st_SetActiveGeneration S' (prj s) g = map_prod id prj (st_SetActiveGeneration S s g)"
    and cidr_sim: "st_StageCIDRRule S' (prj s) g c i a = map_prod id prj (st_StageCIDRRule S s g c i a)"
    and cgroup_sim: "st_StageCgroupRule S' (prj s) g p i a = map_prod id prj (st_StageCgroupRule S s g p i a)"
    and port_sim: "st_StagePortRule S' (prj s) g q t i a = map_prod id prj (st_StagePortRule S s g q t i a)"
    and clear_sim: "st_ClearGenerationRules S' (prj s) g = map_prod id prj (st_ClearGenerationRules S s g)"
begin

lemma loops_sim:
  "stage_cidrs S' g cs (prj s) = map_prod id prj (stage_cidrs S g cs s)"
  "stage_cgroups S' g ds (prj s) = map_prod id prj (stage_cgroups S g ds s)"
  "stage_ports S' g ps (prj s) = map_prod id prj (stage_ports S g ps s)"
proof -
  show "stage_cidrs S' g cs (prj s) = map_prod id prj (stage_cidrs S g cs s)"
    by (induction cs arbitrary: s) (auto simp: cidr_sim split: prod.splits option.splits)
  show "stage_cgroups S' g ds (prj s) = map_prod id prj (stage_cgroups S g ds s)"
    by (induction ds arbitrary: s) (auto simp: cgroup_sim split: prod.splits option.splits)
  show "stage_ports S' g ps (prj s) = map_prod id prj (stage_ports S g ps s)"
    by (induction ps arbitrary: s) (auto simp: port_sim split: prod.splits option.splits)
qed

lemma stage_all_sim: "stage_all S' g cp (prj s) = map_prod id prj (stage_all S g cp s)"
  by (auto simp: stage_all_def loops_sim split: prod.splits option.splits)

lemma clear_snd_sim: "snd (st_ClearGenerationRules S' (prj s) g) = prj (snd (st_ClearGenerationRules S s g))"
  by (simp add: clear_sim)

lemma apply_sim: "ApplyPolicyAtomic S' cp (prj s) = map_prod id prj (ApplyPolicyAtomic S cp s)"
  by (auto simp: ApplyPolicyAtomic_def get_sim stage_all_sim set_sim clear_snd_sim Let_def
      split: prod.splits option.splits sum.splits)

end

section \<open>Recorded runs\<close>

text \<open>\<open>run P s s'\<close>: if \<open>P\<close> holds of the world of \<open>s\<close>, it holds of the world of \<open>s'\<close> and of every
  world recorded between them.\<close>

definition run :: "('w \<Rightarrow> bool) \<Rightarrow> 'w \<times> 'w list \<Rightarrow> 'w \<times> 'w list \<Rightarrow> bool" where
  "run P s s' \<longleftrightarrow> (\<exists>l. snd s' = snd s @ l \<and> (P (fst s) \<longrightarrow> P (fst s') \<and> (\<forall>x \<in> set l. P x)))"

lemma run_refl [simp]: "run P s s"
  by (simp add: run_def)

lemma run_trans [trans]: "run P s s' \<Longrightarrow> run P s' s'' \<Longrightarrow> run P s s''"
  unfolding run_def by fastforce

lemma run_call: "(P (fst s) \<Longrightarrow> P (snd c)) \<Longrightarrow> run P s (snd (log_call (snd s) c))"
  by (auto simp: run_def log_call_def)

lemma run_deletes:
  assumes "\<And>w k. k \<in> set ks \<Longrightarrow> P w \<Longrightarrow> P (snd (del w k))"
    and "\<And>s k. del' s k = log_call (snd s) (del (fst s) k)"
  shows "run P s (delete_keys del' ks s)"
  using assms(1)
proof (induction ks arbitrary: s)
  case (Cons k ks)
  have "run P s (snd (del' s k))" unfolding assms(2) by (rule run_call) (simp add: Cons.prems)
  moreover have "run P (snd (del' s k)) (delete_keys del' ks (snd (del' s k)))"
    by (rule Cons.IH) (simp add: Cons.prems)
  ultimately show ?case by (auto intro: run_trans)
qed simp

lemma traced_simps [simp]:
  "k_gen_lookup (traced K) s = k_gen_lookup K (fst s)"
  "k_gen_put (traced K) s k g = log_call (snd s) (k_gen_put K (fst s) k g)"
  "k_lpm_put (traced K) s k2 v = log_call (snd s) (k_lpm_put K (fst s) k2 v)"
  "k_lpm_delete (traced K) s k2 = log_call (snd s) (k_lpm_delete K (fst s) k2)"
  "k_lpm_iterate (traced K) s = k_lpm_iterate K (fst s)"
  "k_cg_put (traced K) s k3 v = log_call (snd s) (k_cg_put K (fst s) k3 v)"
  "k_cg_delete (traced K) s k3 = log_call (snd s) (k_cg_delete K (fst s) k3)"
  "k_cg_iterate (traced K) s = k_cg_iterate K (fst s)"
  "k_port_put (traced K) s k4 v4 = log_call (snd s) (k_port_put K (fst s) k4 v4)"
  "k_port_delete (traced K) s k4 = log_call (snd s) (k_port_delete K (fst s) k4)"
  "k_port_iterate (traced K) s = k_port_iterate K (fst s)"
  "k_stat (traced K) s p = k_stat K (fst s) p"
  "k_mkdirall (traced K) s p = log_call (snd s) (k_mkdirall K (fst s) p)"
  by (simp_all add: traced_def)

lemma delete_keys_sim:
  assumes "\<And>s k. del' s k = log_call (snd s) (del (fst s) k)"
  shows "fst (delete_keys del' ks s) = delete_keys del ks (fst s)"
  by (induction ks arbitrary: s) (simp_all add: assms)

lemma wrap_log: "map_prod id fst (wrap_call f (log_call l c)) = wrap_call f c"
  by (simp add: wrap_call_def log_call_def)

interpretation tr: stager_sim "loader_stager (traced K)" "loader_stager K" fst for K :: "'w kernel"
proof (unfold_locales, goal_cases)
  case (3 s g c i a)
  show ?case
    by (auto simp: loader_stager_def StageCIDRRule_def wrap_log split: sum.splits option.splits)
next
  case (4 s g p i a)
  have "GetCgroupID K p (fst s) = map_prod id fst (GetCgroupID (traced K) p s)"
    by (auto simp: GetCgroupID_def Let_def log_call_def split: sum.splits option.splits prod.splits)
  then show ?case
    by (auto simp: loader_stager_def StageCgroupRule_def wrap_log split: prod.splits sum.splits)
next
  case (6 s g)
  have "fst (clear_lpm (traced K) g s) = clear_lpm K g (fst s)"
    "fst (clear_cgroups (traced K) g s) = clear_cgroups K g (fst s)"
    "fst (clear_ports (traced K) g s) = clear_ports K g (fst s)" for s :: "'w \<times> 'w list"
    by (simp_all add: clear_lpm_def clear_cgroups_def clear_ports_def delete_keys_sim [where del = "k_lpm_delete K"]
        delete_keys_sim [where del = "k_cg_delete K"] delete_keys_sim [where del = "k_port_delete K"])
  then show ?case by (simp add: loader_stager_def ClearGenerationRules_def)
qed (simp_all add: loader_stager_def GetActiveGeneration_def SetActiveGeneration_def StagePortRule_def wrap_log)

section \<open>What is active in a world\<close>

definition active_is :: "u32 \<Rightarrow> gen_rules \<Rightarrow> map_view \<Rightarrow> bool" where
  "active_is g r v \<longleftrightarrow> v_gen v = g \<and> rules_of v g = r \<and> lpm_wf v"

lemma active_is_other:
  "lpm_gen k \<noteq> g \<Longrightarrow> 32 \<le> unat (lpm_prefixlen k) \<Longrightarrow> unat (lpm_prefixlen k) \<le> 64 \<Longrightarrow>
     active_is g r v \<Longrightarrow> active_is g r (v\<lparr>v_lpm := (v_lpm v)(k \<mapsto> i)\<rparr>)"
  "lpm_gen k \<noteq> g \<Longrightarrow> active_is g r v \<Longrightarrow> active_is g r (v\<lparr>v_lpm := (v_lpm v)(k := None)\<rparr>)"
  "cgk_gen c \<noteq> g \<Longrightarrow> active_is g r (v\<lparr>v_cgroup := (v_cgroup v)(c := x)\<rparr>) = active_is g r v"
  "prk_gen p \<noteq> g \<Longrightarrow> active_is g r (v\<lparr>v_port := (v_port v)(p := y)\<rparr>) = active_is g r v"
  by (cases k; cases c; cases p; auto simp: active_is_def rules_of_def lpm_wf_def fun_eq_iff)+

context bpf_kernel
begin

abbreviation act :: "u32 \<Rightarrow> gen_rules \<Rightarrow> 'w \<Rightarrow> bool" where
  "act g r w \<equiv> active_is g r (view w)"

lemma put_keeps [inv_intros]:
  assumes "act g r w"
  shows "lpm_gen k \<noteq> g \<Longrightarrow> lpm_ok k \<and> 32 \<le> unat (lpm_prefixlen k) \<or> 64 < unat (lpm_prefixlen k) \<Longrightarrow>
      act g r (snd (k_lpm_put K w k i))"
    and "cgk_gen c \<noteq> g \<Longrightarrow> act g r (snd (k_cg_put K w c i))"
    and "prk_gen p \<noteq> g \<Longrightarrow> act g r (snd (k_port_put K w p y))"
proof -
  show "act g r (snd (k_lpm_put K w k i))" if "lpm_gen k \<noteq> g" "lpm_ok k \<and> 32 \<le> unat (lpm_prefixlen k) \<or> 64 < unat (lpm_prefixlen k)"
  proof (cases "k_lpm_put K w k i")
    case (Pair e w')
    with that assms lpm_put_long [of k w i] show ?thesis
      by (cases e) (auto simp: lpm_ok_def intro!: active_is_other dest: lpm.put_ok [unfolded lpm_ok_def] lpm.put_err)
  qed
  show "act g r (snd (k_cg_put K w c i))" if "cgk_gen c \<noteq> g"
  proof (cases "k_cg_put K w c i")
    case (Pair e w')
    with that assms show ?thesis
      by (cases e) (auto simp: active_is_other dest: cg.put_ok cg.put_err)
  qed
  show "act g r (snd (k_port_put K w p y))" if "prk_gen p \<noteq> g"
  proof (cases "k_port_put K w p y")
    case (Pair e w')
    with that assms show ?thesis
      by (cases e) (auto simp: active_is_other dest: port.put_ok port.put_err)
  qed
qed

lemma delete_keeps [inv_intros]:
  assumes "act g r w"
  shows "lpm_gen k \<noteq> g \<Longrightarrow> lpm_ok k \<Longrightarrow> act g r (snd (k_lpm_delete K w k))"
    and "cgk_gen c \<noteq> g \<Longrightarrow> act g r (snd (k_cg_delete K w c))"
    and "prk_gen p \<noteq> g \<Longrightarrow> act g r (snd (k_port_delete K w p))"
  using assms by (simp_all add: lpm.delete_view cg.delete_view port.delete_view active_is_other)

text \<open>Clearing, staging and a failed switch of another generation keep what is active, call by call.\<close>

lemma run_clear:
  assumes "h \<noteq> g"
  shows "run (act g r) s (snd (st_ClearGenerationRules (loader_stager (traced K)) s h))"
proof -
  have "run (act g r) s (clear_lpm (traced K) h s)" for s
    unfolding clear_lpm_def
    by (rule run_deletes [where del = "k_lpm_delete K"])
      (use assms in \<open>auto simp: lpm.iterate_all intro!: inv_intros lpm.stored_ok\<close>)
  moreover have "run (act g r) s (clear_cgroups (traced K) h s)" for s
    unfolding clear_cgroups_def
    by (rule run_deletes [where del = "k_cg_delete K"]) (use assms in \<open>auto intro!: inv_intros\<close>)
  moreover have "run (act g r) s (clear_ports (traced K) h s)" for s
    unfolding clear_ports_def
    by (rule run_deletes [where del = "k_port_delete K"]) (use assms in \<open>auto intro!: inv_intros\<close>)
  ultimately show ?thesis
    by (simp add: loader_stager_def ClearGenerationRules_def) (blast intro: run_trans)
qed

lemma run_wrap: "run P s (snd c) \<Longrightarrow> run P s (snd (wrap_call f c))"
  by (simp add: wrap_call_def)

lemma run_stage:
  assumes "h \<noteq> g"
  shows "run (act g r) s (snd (st_StageCIDRRule (loader_stager (traced K)) s h c i a))"
    and "run (act g r) s (snd (st_StageCgroupRule (loader_stager (traced K)) s h p i a))"
    and "run (act g r) s (snd (st_StagePortRule (loader_stager (traced K)) s h q t i a))"
proof -
  let ?P = "act g r"
  show "run ?P s (snd (st_StageCIDRRule (loader_stager (traced K)) s h c i a))"
  proof (cases rule: StageCIDRRule_cases [of c h "traced K" s i a])
    case (entry net ad)
    moreover have "lpm_gen (block_key h net ad) \<noteq> g" "32 \<le> unat (lpm_prefixlen (block_key h net ad))"
      using assms cidr_entry_prefix [OF entry(1)] by (simp_all add: block_key_def)
    ultimately show ?thesis by (auto simp: loader_stager_def intro!: run_wrap run_call inv_intros)
  next
    case (long net ad)
    moreover have "lpm_gen (block_key h net ad) \<noteq> g" using assms by (simp add: block_key_def)
    ultimately show ?thesis by (auto simp: loader_stager_def intro!: run_wrap run_call inv_intros)
  qed (simp add: loader_stager_def)
  have res: "run ?P s (snd (GetCgroupID (traced K) p s))"
    by (auto simp: GetCgroupID_def Let_def run_def mkdirall_view split: sum.splits option.splits prod.splits)
      (metis mkdirall_view snd_conv)+
  have put: "run ?P s' (snd (k_cg_put (traced K) s' (cgroup_rule_key h n) i))" for s' n
    using assms by (auto simp: cgroup_rule_key_def intro!: run_call inv_intros)
  show "run ?P s (snd (st_StageCgroupRule (loader_stager (traced K)) s h p i a))"
    using res put by (auto simp: loader_stager_def StageCgroupRule_def
        split: prod.splits sum.splits intro!: run_wrap intro: run_trans)
  show "run ?P s (snd (st_StagePortRule (loader_stager (traced K)) s h q t i a))"
    using assms by (auto simp: loader_stager_def StagePortRule_def intro!: run_wrap run_call inv_intros)
qed

end

section \<open>Every world of a reload\<close>

context bpf_kernel
begin

lemma run_loops:
  assumes "h \<noteq> g"
  shows "run (act g r) s (snd (stage_cidrs (loader_stager (traced K)) h cs s))"
    and "run (act g r) s (snd (stage_cgroups (loader_stager (traced K)) h ds s))"
    and "run (act g r) s (snd (stage_ports (loader_stager (traced K)) h ps s))"
proof -
  show "run (act g r) s (snd (stage_cidrs (loader_stager (traced K)) h cs s))"
  proof (induction cs arbitrary: s)
    case (Cons c cs)
    obtain x s1 where 1: "st_StageCIDRRule (loader_stager (traced K)) s h (cc_CIDRStr c) (cc_RuleID c) (cc_Action c) = (x, s1)"
      by (rule prod.exhaust)
    with run_stage(1) [OF assms, of r s "cc_CIDRStr c" "cc_RuleID c" "cc_Action c"] have "run (act g r) s s1" by simp
    with Cons.IH [of s1] 1 show ?case by (cases x) (auto intro: run_trans)
  qed simp
  show "run (act g r) s (snd (stage_cgroups (loader_stager (traced K)) h ds s))"
  proof (induction ds arbitrary: s)
    case (Cons c cs)
    obtain x s1 where 1: "st_StageCgroupRule (loader_stager (traced K)) s h (cg_CgroupPath c) (cg_RuleID c) (cg_Action c) = (x, s1)"
      by (rule prod.exhaust)
    with run_stage(2) [OF assms, of r s "cg_CgroupPath c" "cg_RuleID c" "cg_Action c"] have "run (act g r) s s1" by simp
    with Cons.IH [of s1] 1 show ?case by (cases x) (auto intro: run_trans)
  qed simp
  show "run (act g r) s (snd (stage_ports (loader_stager (traced K)) h ps s))"
  proof (induction ps arbitrary: s)
    case (Cons c cs)
    obtain x s1 where 1: "st_StagePortRule (loader_stager (traced K)) s h (cp_DstPort c) (cp_Protocol c) (cp_RuleID c) (cp_Action c) = (x, s1)"
      by (rule prod.exhaust)
    with run_stage(3) [OF assms, of r s "cp_DstPort c" "cp_Protocol c" "cp_RuleID c" "cp_Action c"] have "run (act g r) s s1" by simp
    with Cons.IH [of s1] 1 show ?case by (cases x) (auto intro: run_trans)
  qed simp
qed

lemma run_stage_all:
  assumes "h \<noteq> g" and "stage_all (loader_stager (traced K)) h cp s = (x, s')"
  shows "run (act g r) s s'"
proof -
  note loops = run_loops [OF assms(1), of r]
  obtain x1 s1 where 1: "stage_cidrs (loader_stager (traced K)) h (cpol_CIDRBlocks cp) s = (x1, s1)"
    by (rule prod.exhaust)
  obtain x2 s2 where 2: "stage_cgroups (loader_stager (traced K)) h (cpol_CgroupBlocks cp) s1 = (x2, s2)"
    by (rule prod.exhaust)
  obtain x3 s3 where 3: "stage_ports (loader_stager (traced K)) h (cpol_PortRules cp) s2 = (x3, s3)"
    by (rule prod.exhaust)
  from loops(1) [of s "cpol_CIDRBlocks cp"] loops(2) [of s1 "cpol_CgroupBlocks cp"]
    loops(3) [of s2 "cpol_PortRules cp"]
  have "run (act g r) s s1" "run (act g r) s1 s2" "run (act g r) s2 s3" by (simp_all add: 1 2 3)
  moreover have "s' = s1 \<or> s' = s2 \<or> s' = s3"
    using assms(2) by (cases x1; cases x2) (simp_all add: stage_all_def 1 2 3)
  ultimately show ?thesis by (blast intro: run_trans)
qed

lemma stager: "bpf_stager (loader_stager K) (\<lambda>w. v_gen (view w)) (\<lambda>w. rules_of (view w))
    no_rules add_cidr_rule add_cgroup_rule add_port_rule (path_denotes inode)"
  by unfold_locales

lemmas traced_stager = bpf_kernel.stager [OF traced_kernel]

text \<open>Up to the switch every world has the old policy active; after it the new one.\<close>

lemma traced_apply_ok:
  assumes run: "ApplyPolicyAtomic (loader_stager (traced K)) cp (w, []) = ((h, None), (w', l))"
    and wf: "lpm_wf (view w)"
  defines "g \<equiv> v_gen (view w)"
  shows "\<exists>ids l1 l2. resolved (path_denotes inode) cp ids \<and> l = l1 @ l2 \<and> l2 \<noteq> [] \<and>
    (\<forall>x \<in> set l1. act g (rules_of (view w) g) x) \<and> (\<forall>x \<in> set l2. act h (policy_rules cp ids) x)"
proof -
  let ?S = "loader_stager (traced K)" and ?P = "act g (rules_of (view w) g)"
  let ?s1 = "snd (st_ClearGenerationRules ?S (w, []) (g + 1))"
  have "st_GetActiveGeneration ?S (w, []) = Inr g"
    using bpf_stager.get [OF traced_stager, of "(w, [])"] by (simp add: g_def)
  with run obtain s2 s3 where stage: "stage_all ?S (g + 1) cp ?s1 = (None, s2)"
    and set: "st_SetActiveGeneration ?S s2 (g + 1) = (None, s3)" and h: "h = g + 1"
    and fin: "(w', l) = snd (st_ClearGenerationRules ?S s3 g)"
    by (auto simp: ApplyPolicyAtomic_def Let_def split: prod.splits option.splits)
  have gh: "g + 1 \<noteq> g" "g \<noteq> g + 1" by simp_all
  have "run ?P (w, []) s2"
    using run_clear [OF gh(1)] run_stage_all [OF gh(1) stage] by (blast intro: run_trans)
  then have before: "?P (fst s2)" "\<forall>x \<in> set (snd s2). ?P x"
    using wf by (auto simp: run_def active_is_def g_def)
  from bpf_stager.clear_state [OF traced_stager, of "(w, [])" "g + 1"]
  have "rules_of (view (fst ?s1)) (g + 1) = no_rules" by simp
  from bpf_stager.stage_all_ok [OF traced_stager stage this] obtain ids where
    ids: "resolved (path_denotes inode) cp ids" "rules_of (view (fst s2)) (g + 1) = policy_rules cp ids"
    by (auto simp: policy_rules_def)
  let ?Q = "act h (policy_rules cp ids)"
  from set have s3: "k_gen_put K (fst s2) 0 (g + 1) = (None, fst s3)" "snd s3 = snd s2 @ [fst s3]"
    by (simp_all add: loader_stager_def SetActiveGeneration_def)
  from gen_put_ok [OF s3(1)] ids before(1) have new: "?Q (fst s3)"
    by (simp add: active_is_def h lpm_wf_upd)
  from gh(2) have "run ?Q s3 (w', l)" unfolding fin h by (rule run_clear)
  then obtain l3 where "l = snd s3 @ l3" "?Q (fst s3) \<longrightarrow> (\<forall>x \<in> set l3. ?Q x)"
    by (auto simp: run_def)
  with new before ids s3 show ?thesis
    by (intro exI [of _ ids] exI [of _ "snd s2"] exI [of _ "fst s3 # l3"]) auto
qed

text \<open>A failed reload never leaves the old policy.\<close>

lemma traced_apply_err:
  assumes run: "ApplyPolicyAtomic (loader_stager (traced K)) cp (w, []) = ((h, Some e), (w', l))"
    and wf: "lpm_wf (view w)"
  defines "g \<equiv> v_gen (view w)"
  shows "\<forall>x \<in> set l. act g (rules_of (view w) g) x"
proof -
  let ?S = "loader_stager (traced K)" and ?P = "act g (rules_of (view w) g)"
  let ?s1 = "snd (st_ClearGenerationRules ?S (w, []) (g + 1))"
  have get: "st_GetActiveGeneration ?S (w, []) = Inr g"
    using bpf_stager.get [OF traced_stager, of "(w, [])"] by (simp add: g_def)
  obtain x s2 where stage: "stage_all ?S (g + 1) cp ?s1 = (x, s2)" by (rule prod.exhaust)
  have gh: "g + 1 \<noteq> g" by simp
  have r2: "run ?P (w, []) s2"
    using run_clear [OF gh] run_stage_all [OF gh stage] by (blast intro: run_trans)
  have "\<exists>t. run ?P (w, []) t \<and> (w', l) = snd (st_ClearGenerationRules ?S t (g + 1))"
  proof (cases x)
    case (Some y)
    with run get stage r2 show ?thesis
      by (intro exI [of _ s2]) (auto simp: ApplyPolicyAtomic_def Let_def)
  next
    case None
    with run get stage obtain e' s3 where set: "st_SetActiveGeneration ?S s2 (g + 1) = (Some e', s3)"
      and fin: "(w', l) = snd (st_ClearGenerationRules ?S s3 (g + 1))"
      by (auto simp: ApplyPolicyAtomic_def Let_def split: prod.splits option.splits)
    from set obtain e2 where "k_gen_put K (fst s2) 0 (g + 1) = (Some e2, fst s3)" "snd s3 = snd s2 @ [fst s3]"
      by (auto simp: loader_stager_def SetActiveGeneration_def)
    then have "run ?P s2 s3" by (auto simp: run_def dest: gen_put_err)
    with r2 fin show ?thesis by (blast intro: run_trans)
  qed
  then obtain t where "run ?P (w, []) t" "(w', l) = snd (st_ClearGenerationRules ?S t (g + 1))" by blast
  moreover have "run ?P t (snd (st_ClearGenerationRules ?S t (g + 1)))"
    by (rule run_clear [OF gh])
  ultimately have "run ?P (w, []) (w', l)" by (metis run_trans)
  then show ?thesis using wf by (auto simp: run_def active_is_def g_def)
qed

end

end
