(* ===== verification/Xdp_Program.thy ===== *)
theory Xdp_Program
  imports Reload_Trace Observability
begin

text \<open>
  \<^verbatim>\<open>bpf/xdp_firewall.c\<close>: the program that the loader attaches to the interface, on the bytes of a
  packet. The three table lookups and the generation are arguments (\<open>xdp_reads\<close>), so that a run can
  read all of them from one world or, between the calls of a reload, from several. The lemmas
  relate its verdict to the rules of the active generation.
\<close>

section \<open>Packets\<close>

definition be16 :: "u8 list \<Rightarrow> nat \<Rightarrow> u16" where
  "be16 pkt i = push_bit 8 (ucast (pkt ! i)) OR ucast (pkt ! (i + 1))"

definition ld32 :: "u8 list \<Rightarrow> nat \<Rightarrow> u32" where
  "ld32 pkt i = le_decode (take 4 (drop i pkt))"

text \<open>\<^verbatim>\<open>iph->protocol\<close>, \<^verbatim>\<open>iph->saddr\<close>, \<^verbatim>\<open>iph->daddr\<close> behind an Ethernet header of 14 bytes.\<close>

definition ip_protocol :: "u8 list \<Rightarrow> u8" where "ip_protocol pkt = pkt ! 23"
definition ip_saddr :: "u8 list \<Rightarrow> u32" where "ip_saddr pkt = ld32 pkt 26"
definition ip_daddr :: "u8 list \<Rightarrow> u32" where "ip_daddr pkt = ld32 pkt 30"

text \<open>The ports, taken at a fixed offset behind an IP header of 20 bytes; 0 when the segment is too short.\<close>

definition l4_ports :: "u8 list \<Rightarrow> u16 \<times> u16" where
  "l4_ports pkt =
     (if ip_protocol pkt = 6 then (if 54 \<le> length pkt then (be16 pkt 34, be16 pkt 36) else (0, 0))
      else if ip_protocol pkt = 17 then (if 42 \<le> length pkt then (be16 pkt 34, be16 pkt 36) else (0, 0))
      else (0, 0))"

definition is_ipv4 :: "u8 list \<Rightarrow> bool" where
  "is_ipv4 pkt \<longleftrightarrow> 14 \<le> length pkt \<and> be16 pkt 12 = 0x0800 \<and> 34 \<le> length pkt"

section \<open>The program\<close>

record xdp_reads =
  rd_gen :: "u32 option"
  rd_cgroup :: "cgroup_key \<Rightarrow> u32 option"
  rd_lpm :: "lpm_key_ipv4 \<Rightarrow> u32 option"
  rd_port :: "port_rule_key \<Rightarrow> port_rule_val option"

record xdp_ctx =
  xc_cgroup_id :: u64
  xc_ktime :: u64
  xc_ring_space :: bool

datatype xdp_action = XDP_PASS | XDP_DROP

definition mk_event :: "xdp_ctx \<Rightarrow> u8 list \<Rightarrow> u8 \<Rightarrow> u16 \<Rightarrow> u32 \<Rightarrow> u32 \<Rightarrow> AuditEvent option" where
  "mk_event ctx pkt verdict reason rule identity =
     (if xc_ring_space ctx then
        Some \<lparr>ev_TimestampNS = xc_ktime ctx, ev_SrcIP = ip_saddr pkt, ev_DstIP = ip_daddr pkt,
          ev_SrcPort = fst (l4_ports pkt), ev_DstPort = snd (l4_ports pkt), ev_Protocol = ip_protocol pkt,
          ev_Verdict = verdict, ev_ReasonCode = reason, ev_RuleID = rule,
          ev_CgroupID = xc_cgroup_id ctx, ev_IdentityID = identity\<rparr>
      else None)"

definition count_rx :: "u8 list \<Rightarrow> stats_value \<Rightarrow> stats_value" where
  "count_rx pkt st = st\<lparr>sv_rx_packets := sv_rx_packets st + 1, sv_rx_bytes := sv_rx_bytes st + of_nat (length pkt)\<rparr>"

definition count_drop :: "stats_value \<Rightarrow> stats_value" where
  "count_drop st = st\<lparr>sv_drop_packets := sv_drop_packets st + 1\<rparr>"

definition count_pass :: "stats_value \<Rightarrow> stats_value" where
  "count_pass st = st\<lparr>sv_pass_packets := sv_pass_packets st + 1\<rparr>"

text \<open>The verdict, the counters of this CPU (\<^const>\<open>None\<close> when the lookup fails) and the event submitted.\<close>

definition xdp_firewall_func ::
  "xdp_reads \<Rightarrow> xdp_ctx \<Rightarrow> u8 list \<Rightarrow> stats_value option \<Rightarrow> xdp_action \<times> stats_value option \<times> AuditEvent option" where
  "xdp_firewall_func R ctx pkt stats0 =
     (if \<not> 14 \<le> length pkt then (XDP_PASS, stats0, None)
      else if be16 pkt 12 \<noteq> 0x0800 then (XDP_PASS, stats0, None)
      else if \<not> 34 \<le> length pkt then (XDP_PASS, stats0, None)
      else
        let stats = map_option (count_rx pkt) stats0;
            active_gen = (case rd_gen R of Some g \<Rightarrow> g | None \<Rightarrow> 0);
            dst_port = snd (l4_ports pkt);
            cgroup_id = xc_cgroup_id ctx;
            by_cgroup = (if cgroup_id > 0 then
              rd_cgroup R \<lparr>cgk_gen = active_gen, cgk_pad = 0, cgk_cgroup_id = cgroup_id\<rparr> else None)
        in case by_cgroup of
          Some rule_id \<Rightarrow> (XDP_DROP, map_option count_drop stats, mk_event ctx pkt 1 4 rule_id rule_id)
        | None \<Rightarrow>
            (case rd_lpm R \<lparr>lpm_prefixlen = 64, lpm_gen = active_gen, lpm_addr = ip_saddr pkt\<rparr> of
               Some rule_id \<Rightarrow> (XDP_DROP, map_option count_drop stats, mk_event ctx pkt 1 1 rule_id 0)
             | None \<Rightarrow>
                 let by_port = (if dst_port > 0 then
                   rd_port R \<lparr>prk_gen = active_gen, prk_dst_port = dst_port, prk_protocol = ip_protocol pkt, prk_pad = 0\<rparr>
                   else None)
                 in case by_port of
                   None \<Rightarrow> (XDP_PASS, map_option count_pass stats, None)
                 | Some v \<Rightarrow>
                     if prv_action v = 2 then
                       (XDP_DROP, map_option count_drop stats, mk_event ctx pkt 1 2 (prv_rule_id v) 0)
                     else if prv_action v = 1 then
                       (XDP_PASS, map_option count_pass stats, mk_event ctx pkt 0 0 (prv_rule_id v) 0)
                     else (XDP_PASS, map_option count_pass stats, None)))"

text \<open>The reads of a run that sees one world throughout, and of one that reads the generation in \<open>w\<close>
  and the tables later, in \<open>w'\<close>.\<close>

definition reads_split :: "'w kernel \<Rightarrow> 'w \<Rightarrow> 'w \<Rightarrow> xdp_reads" where
  "reads_split K w w' = \<lparr>rd_gen = k_gen_lookup K w 0, rd_cgroup = k_cg_lookup K w',
     rd_lpm = k_lpm_lookup K w', rd_port = k_port_lookup K w'\<rparr>"

definition reads_of :: "'w kernel \<Rightarrow> 'w \<Rightarrow> xdp_reads" where
  "reads_of K w = reads_split K w w"

section \<open>The verdict that a set of rules asks for\<close>

text \<open>An entry of the trie covers a source address when the first bits agree.\<close>

definition entry_covers :: "u32 \<times> u32 \<Rightarrow> u32 \<Rightarrow> bool" where
  "entry_covers e src \<longleftrightarrow>
     take (unat (fst e) - 32) (bits_of (le_bytes32 (snd e))) = take (unat (fst e) - 32) (bits_of (le_bytes32 src))"

definition rules_verdict :: "gen_rules \<Rightarrow> u64 \<Rightarrow> u8 list \<Rightarrow> xdp_action" where
  "rules_verdict r c pkt =
     (if \<not> is_ipv4 pkt then XDP_PASS
      else if c > 0 \<and> gr_cgroup r c \<noteq> None then XDP_DROP
      else if \<exists>e \<in> dom (gr_cidr r). entry_covers e (ip_saddr pkt) then XDP_DROP
      else if snd (l4_ports pkt) > 0 \<and>
        (\<exists>v. gr_port r (snd (l4_ports pkt), ip_protocol pkt) = Some v \<and> prv_action v = 2) then XDP_DROP
      else XDP_PASS)"

lemma all_lpm_key: "(\<forall>k. P k) \<longleftrightarrow> (\<forall>p g a. P \<lparr>lpm_prefixlen = p, lpm_gen = g, lpm_addr = a\<rparr>)"
proof (intro iffI allI)
  show "P k" if "\<forall>p g a. P \<lparr>lpm_prefixlen = p, lpm_gen = g, lpm_addr = a\<rparr>" for k
    using that by (cases k) simp
qed simp

lemma covers_split:
  assumes "32 \<le> unat (lpm_prefixlen k)" "unat (lpm_prefixlen k) \<le> 64"
  shows "lpm_covers k \<lparr>lpm_prefixlen = 64, lpm_gen = g, lpm_addr = a\<rparr> \<longleftrightarrow>
    lpm_gen k = g \<and> entry_covers (lpm_prefixlen k, lpm_addr k) a"
  using assms by (auto simp: lpm_covers_def lpm_bits_def entry_covers_def take_append)

context bpf_kernel
begin

lemma lpm_hit:
  assumes "lpm_wf (view w)"
  shows "k_lpm_lookup K w \<lparr>lpm_prefixlen = 64, lpm_gen = g, lpm_addr = a\<rparr> = None \<longleftrightarrow>
    (\<forall>e \<in> dom (gr_cidr (rules_of (view w) g)). \<not> entry_covers e a)"
proof -
  let ?k = "\<lparr>lpm_prefixlen = 64, lpm_gen = g, lpm_addr = a\<rparr>"
  have covers: "lpm_covers k ?k \<longleftrightarrow> lpm_gen k = g \<and> entry_covers (lpm_prefixlen k, lpm_addr k) a"
    if "v_lpm (view w) k \<noteq> None" for k
    using assms that covers_split [of k g a] by (simp add: lpm_wf_def)
  have "k_lpm_lookup K w ?k = None \<longleftrightarrow> (\<forall>k. v_lpm (view w) k \<noteq> None \<longrightarrow> \<not> lpm_covers k ?k)"
    by (rule lpm_lookup_None)
  also have "\<dots> \<longleftrightarrow> (\<forall>k. v_lpm (view w) k \<noteq> None \<longrightarrow> lpm_gen k = g \<longrightarrow> \<not> entry_covers (lpm_prefixlen k, lpm_addr k) a)"
    using covers by blast
  also have "\<dots> \<longleftrightarrow> (\<forall>p b. v_lpm (view w) \<lparr>lpm_prefixlen = p, lpm_gen = g, lpm_addr = b\<rparr> \<noteq> None \<longrightarrow>
      \<not> entry_covers (p, b) a)"
    unfolding all_lpm_key by simp
  also have "\<dots> \<longleftrightarrow> (\<forall>e \<in> dom (gr_cidr (rules_of (view w) g)). \<not> entry_covers e a)"
    by (auto simp: rules_of_def dom_def)
  finally show ?thesis .
qed

text \<open>The generation may be read in an earlier world: the verdict is that of its rules in the later one.\<close>

lemma xdp_split_verdict:
  assumes "lpm_wf (view w')"
  shows "fst (xdp_firewall_func (reads_split K w w') ctx pkt st) =
    rules_verdict (rules_of (view w') (v_gen (view w))) (xc_cgroup_id ctx) pkt"
proof -
  let ?g = "v_gen (view w)" and ?c = "xc_cgroup_id ctx"
  have lk: "rd_gen (reads_split K w w') = Some ?g" "rd_cgroup (reads_split K w w') = v_cgroup (view w')"
    "rd_lpm (reads_split K w w') = k_lpm_lookup K w'" "rd_port (reads_split K w w') = v_port (view w')"
    by (simp_all add: reads_split_def gen_lookup cg_lookup port_lookup fun_eq_iff)
  have lpm: "(\<exists>e \<in> dom (gr_cidr (rules_of (view w') ?g)). entry_covers e (ip_saddr pkt)) \<longleftrightarrow>
      k_lpm_lookup K w' \<lparr>lpm_prefixlen = 64, lpm_gen = ?g, lpm_addr = ip_saddr pkt\<rparr> \<noteq> None"
    using lpm_hit [OF assms, of ?g "ip_saddr pkt"] by simp
  show ?thesis
    unfolding xdp_firewall_func_def rules_verdict_def is_ipv4_def lpm
    by (auto simp: lk rules_of_def Let_def split: option.splits)
qed

end

section \<open>The loader keeps the prefixes well formed\<close>

sublocale bpf_kernel \<subseteq> wf: stager_invariant "loader_stager K" "\<lambda>w. lpm_wf (view w)"
proof (unfold_locales, goal_cases)
  case (1 w g)
  obtain e w' where "k_gen_put K w 0 g = (e, w')" by (rule prod.exhaust)
  with 1 show ?case
    by (cases e) (auto simp: loader_stager_def SetActiveGeneration_def wrap_call_def lpm_wf_upd
        dest: gen_put_ok gen_put_err)
next
  case (2 w g c i a)
  obtain e w' where r: "StageCIDRRule K w g c i a = (e, w')" by (rule prod.exhaust)
  show ?case
  proof (cases e)
    case None
    with r have "StageCIDRRule K w g c i a = (None, w')" by simp
    then show ?thesis
      by (rule StageCIDRRule_ok) (use 2 r in \<open>auto simp: loader_stager_def dest!: cidr_entry_prefix intro!: lpm_wf_upd\<close>)
  next
    case (Some x)
    with r 2 StageCIDRRule_err [of w g c i a x w'] show ?thesis by (simp add: loader_stager_def)
  qed
next
  case (3 w g p i a)
  obtain e w' where r: "StageCgroupRule K w g p i a = (e, w')" by (rule prod.exhaust)
  with 3 show ?case
    by (cases e) (auto simp: loader_stager_def lpm_wf_upd dest!: StageCgroupRule_ok StageCgroupRule_err)
next
  case (4 w g q t i a)
  then show ?case
    by (auto simp: loader_stager_def StagePortRule_def wrap_call_def)
      (metis lpm_wf_upd(3) option.exhaust port.put_err port.put_ok prod.collapse)
next
  case (5 w g)
  then show ?case by (simp add: loader_stager_def ClearGenerationRules_def clear_views lpm_wf_upd)
qed

context bpf_kernel
begin

lemma wf_invariant: "stager_invariant (loader_stager K) (\<lambda>w. lpm_wf (view w))"
  by unfold_locales

end

section \<open>Properties\<close>

lemma mk_event_sel:
  "mk_event ctx pkt v r i n = Some e \<Longrightarrow> ev_Verdict e = v \<and> ev_ReasonCode e = r \<and> ev_RuleID e = i \<and>
     ev_SrcIP e = ip_saddr pkt \<and> ev_DstIP e = ip_daddr pkt \<and> ev_Protocol e = ip_protocol pkt \<and> xc_ring_space ctx"
  by (auto simp: mk_event_def split: if_splits)

lemma mk_event_Some: "xc_ring_space ctx \<Longrightarrow> \<exists>e. mk_event ctx pkt v r i n = Some e"
  by (simp add: mk_event_def)

text \<open>The five ways through the program.\<close>

lemma xdp_cases:
  obtains (other) "\<not> is_ipv4 pkt" "xdp_firewall_func R ctx pkt st = (XDP_PASS, st, None)"
  | (drop) reason rule ident where "is_ipv4 pkt" "reason \<in> {4, 1, 2}"
      "xdp_firewall_func R ctx pkt st =
        (XDP_DROP, map_option count_drop (map_option (count_rx pkt) st), mk_event ctx pkt 1 reason rule ident)"
  | (allow) rule where "is_ipv4 pkt" "xdp_firewall_func R ctx pkt st =
        (XDP_PASS, map_option count_pass (map_option (count_rx pkt) st), mk_event ctx pkt 0 0 rule 0)"
  | (pass) "is_ipv4 pkt" "xdp_firewall_func R ctx pkt st =
        (XDP_PASS, map_option count_pass (map_option (count_rx pkt) st), None)"
proof (cases "is_ipv4 pkt")
  case False
  then show thesis by (intro other) (auto simp: is_ipv4_def xdp_firewall_func_def)
next
  case True
  let ?g = "case rd_gen R of Some g \<Rightarrow> g | None \<Rightarrow> 0"
  let ?cg = "if xc_cgroup_id ctx > 0 then
      rd_cgroup R \<lparr>cgk_gen = ?g, cgk_pad = 0, cgk_cgroup_id = xc_cgroup_id ctx\<rparr> else None"
  let ?lpm = "rd_lpm R \<lparr>lpm_prefixlen = 64, lpm_gen = ?g, lpm_addr = ip_saddr pkt\<rparr>"
  let ?port = "if snd (l4_ports pkt) > 0 then
      rd_port R \<lparr>prk_gen = ?g, prk_dst_port = snd (l4_ports pkt), prk_protocol = ip_protocol pkt, prk_pad = 0\<rparr> else None"
  note run = xdp_firewall_func_def [of R ctx pkt st] True [unfolded is_ipv4_def]
  consider i where "?cg = Some i" | i where "?cg = None" "?lpm = Some i"
    | "?cg = None" "?lpm = None" "?port = None" | v where "?cg = None" "?lpm = None" "?port = Some v"
    by fastforce
  then show thesis
  proof cases
    case (1 i)
    with run True show thesis by (intro drop [of 4 i i]) (simp_all add: Let_def)
  next
    case (2 i)
    with run True show thesis by (intro drop [of 1 i 0]) (simp_all add: Let_def)
  next
    case 3
    with run True show thesis by (intro pass) (simp_all add: Let_def)
  next
    case (4 v)
    with run have eq: "xdp_firewall_func R ctx pkt st =
        (if prv_action v = 2 then
           (XDP_DROP, map_option count_drop (map_option (count_rx pkt) st), mk_event ctx pkt 1 2 (prv_rule_id v) 0)
         else if prv_action v = 1 then
           (XDP_PASS, map_option count_pass (map_option (count_rx pkt) st), mk_event ctx pkt 0 0 (prv_rule_id v) 0)
         else (XDP_PASS, map_option count_pass (map_option (count_rx pkt) st), None))"
      by (simp add: Let_def)
    consider "prv_action v = 2" | "prv_action v = 1" | "prv_action v \<noteq> 2" "prv_action v \<noteq> 1" by blast
    then show thesis
    proof cases
      case 1
      with eq True show thesis by (intro drop [of 2 "prv_rule_id v" 0]) simp_all
    next
      case 2
      with eq True show thesis by (intro allow [of "prv_rule_id v"]) simp_all
    next
      case 3
      with eq True show thesis by (intro pass) simp_all
    qed
  qed
qed

text \<open>C36: Every IPv4 packet is counted once as received, with its length, and once as passed or dropped according to its
  verdict; no other packet touches the counters. The counters wrap around at 64 bits.\<close>

theorem packets_counted_once:
  assumes "xdp_firewall_func R ctx pkt (Some st) = (a, st', ev)"
  shows "st' = Some (if is_ipv4 pkt
    then \<lparr>sv_rx_packets = sv_rx_packets st + 1, sv_rx_bytes = sv_rx_bytes st + of_nat (length pkt),
      sv_pass_packets = sv_pass_packets st + (if a = XDP_PASS then 1 else 0),
      sv_drop_packets = sv_drop_packets st + (if a = XDP_DROP then 1 else 0)\<rparr>
    else st)"
  by (cases rule: xdp_cases [of pkt R ctx "Some st"])
    (use assms in \<open>auto simp: count_rx_def count_drop_def count_pass_def\<close>)

theorem packets_counted_once_witness:
  "xdp_firewall_func \<lparr>rd_gen = Some 0, rd_cgroup = (\<lambda>_. None), rd_lpm = (\<lambda>_. Some 9), rd_port = (\<lambda>_. None)\<rparr>
     \<lparr>xc_cgroup_id = 0, xc_ktime = 5, xc_ring_space = False\<rparr>
     (replicate 12 0 @ [8, 0] @ replicate 20 0)
     (Some \<lparr>sv_rx_packets = 0, sv_rx_bytes = 0, sv_pass_packets = 0, sv_drop_packets = 0\<rparr>) =
   (XDP_DROP, Some \<lparr>sv_rx_packets = 1, sv_rx_bytes = 34, sv_pass_packets = 0, sv_drop_packets = 1\<rparr>, None)"
proof -
  let ?R = "\<lparr>rd_gen = Some 0, rd_cgroup = (\<lambda>_. None), rd_lpm = (\<lambda>_. Some 9), rd_port = (\<lambda>_. None)\<rparr>"
    and ?c = "\<lparr>xc_cgroup_id = 0, xc_ktime = 5, xc_ring_space = False\<rparr>"
    and ?p = "replicate 12 0 @ [8, 0] @ replicate 20 0 :: u8 list"
    and ?s = "\<lparr>sv_rx_packets = 0, sv_rx_bytes = 0, sv_pass_packets = 0, sv_drop_packets = 0\<rparr>"
  have v4: "is_ipv4 ?p" by (simp add: is_ipv4_def be16_def nth_append push_bit_eq_mult)
  obtain st' where run: "xdp_firewall_func ?R ?c ?p (Some ?s) = (XDP_DROP, st', None)"
    using v4 by (simp add: xdp_firewall_func_def is_ipv4_def mk_event_def)
  from packets_counted_once [OF run] v4 run show ?thesis by simp
qed

text \<open>C30: Every drop is audited when the ring buffer has space: the event carries the packet's addresses, the verdict
  \<^verbatim>\<open>DROP\<close>, and one of the three reasons for which the program drops.\<close>

theorem drops_are_audited:
  assumes "fst (xdp_firewall_func R ctx pkt st) = XDP_DROP" and "xc_ring_space ctx"
  shows "\<exists>e. snd (snd (xdp_firewall_func R ctx pkt st)) = Some e \<and> VerdictString e = ''DROP'' \<and>
    ReasonString e \<in> {''IDENTITY_DENY'', ''CIDR_BLOCKED'', ''PORT_BLOCKED''} \<and>
    ev_SrcIP e = ip_saddr pkt \<and> ev_DstIP e = ip_daddr pkt \<and> ev_Protocol e = ip_protocol pkt"
proof (cases rule: xdp_cases [of pkt R ctx st])
  case (drop reason rule ident)
  then obtain e where "mk_event ctx pkt 1 reason rule ident = Some e"
    using mk_event_Some [OF assms(2)] by blast
  with mk_event_sel [OF this] drop show ?thesis
    by (auto simp: VerdictString_def ReasonString_def)
qed (use assms in simp_all)

theorem drops_are_audited_witness:
  "\<exists>e. snd (snd (xdp_firewall_func \<lparr>rd_gen = Some 0, rd_cgroup = (\<lambda>_. None), rd_lpm = (\<lambda>_. Some 9), rd_port = (\<lambda>_. None)\<rparr>
     \<lparr>xc_cgroup_id = 0, xc_ktime = 5, xc_ring_space = True\<rparr> (replicate 12 0 @ [8, 0] @ replicate 20 0) None)) = Some e \<and>
     VerdictString e = ''DROP''"
proof -
  let ?R = "\<lparr>rd_gen = Some 0, rd_cgroup = (\<lambda>_. None), rd_lpm = (\<lambda>_. Some 9), rd_port = (\<lambda>_. None)\<rparr>"
    and ?c = "\<lparr>xc_cgroup_id = 0, xc_ktime = 5, xc_ring_space = True\<rparr>"
    and ?p = "replicate 12 0 @ [8, 0] @ replicate 20 0 :: u8 list"
  have "fst (xdp_firewall_func ?R ?c ?p None) = XDP_DROP"
    by (simp add: xdp_firewall_func_def be16_def nth_append push_bit_eq_mult)
  from drops_are_audited [OF this] show ?thesis by auto
qed

end
