(* ===== verification/Firewall.thy ===== *)
theory Firewall
  imports Control Xdp_Program
begin

text \<open>
  From the policy file to the verdict on a packet: what a packet meets after a reload, read off the
  rules of the policy, and what the control server does to the active policy over a sequence of
  connections, as a transition system on the active generation and its rules.
\<close>

section \<open>The verdict a policy asks for\<close>

text \<open>The source address lies in the network that a text of \<^verbatim>\<open>srcCIDRs\<close> denotes.\<close>

definition in_network :: "string \<Rightarrow> u32 \<Rightarrow> bool" where
  "in_network s src \<longleftrightarrow>
     (case block_net s of
        Inr (Some net) \<Rightarrow>
          (case To4 (net_IP net) of
             Some ip4 \<Rightarrow> Mask_Size (net_Mask net) \<le> 32 \<and>
               take (Mask_Size (net_Mask net)) (bits_of ip4) =
               take (Mask_Size (net_Mask net)) (bits_of (le_bytes32 src))
           | None \<Rightarrow> False)
      | _ \<Rightarrow> False)"

text \<open>The last entry for a port and a protocol decides.\<close>

definition port_decision :: "Rule list \<Rightarrow> u16 \<Rightarrow> u8 \<Rightarrow> CompiledPortRule option" where
  "port_decision rs port proto =
     find (\<lambda>e. cp_DstPort e = port \<and> proto_number (cp_Protocol e) = proto) (rev (concat (map rule_ports rs)))"

text \<open>\<open>ids\<close> are the IDs of the cgroups that the rules name.\<close>

definition policy_verdict :: "Rule list \<Rightarrow> u64 list \<Rightarrow> u64 \<Rightarrow> u8 list \<Rightarrow> xdp_action" where
  "policy_verdict rs ids c pkt =
     (if \<not> is_ipv4 pkt then XDP_PASS
      else if c > 0 \<and> c \<in> set ids then XDP_DROP
      else if \<exists>r \<in> set rs. \<exists>s \<in> set (r_SrcCIDRs r). in_network s (ip_saddr pkt) then XDP_DROP
      else case (if snd (l4_ports pkt) > 0 then port_decision rs (snd (l4_ports pkt)) (ip_protocol pkt) else None) of
        Some e \<Rightarrow> if cp_Action e = ''deny'' then XDP_DROP else XDP_PASS
      | None \<Rightarrow> XDP_PASS)"

lemma in_network_entry: "in_network s src \<longleftrightarrow> (\<exists>e. cidr_entry s = Some e \<and> entry_covers e src)"
proof (cases "block_net s")
  case (Inl e)
  then show ?thesis by (simp add: in_network_def cidr_entry_def)
next
  case (Inr n)
  then obtain net where net: "block_net s = Inr (Some net)"
    using block_net_not_nil [of s] by (cases n) auto
  then obtain t where t: "ParseCIDR t = Some net" using block_net_parsed by blast
  let ?m = "Mask_Size (net_Mask net)"
  show ?thesis
  proof (cases "To4 (net_IP net)")
    case None
    with net show ?thesis by (simp add: in_network_def cidr_entry_def)
  next
    case (Some ip4)
    then obtain a where a: "le_uint32 ip4 = Some a" "le_bytes32 a = ip4"
      using le_uint32_total ParseCIDR_To4(1) [OF t Some] by blast
    have "unat (of_nat (32 + ?m) :: u32) = 32 + ?m" if "?m \<le> 32"
      using unat_prefixlen [of ?m] that by simp
    with net Some a show ?thesis
      by (auto simp: in_network_def cidr_entry_def entry_covers_def simp del: of_nat_add)
  qed
qed

lemma add_cidrs_rules:
  "dom (gr_cidr (add_cidrs add_cidr_rule cs r)) =
     dom (gr_cidr r) \<union> {e. \<exists>c \<in> set cs. cidr_entry (cc_CIDRStr c) = Some e}"
  "gr_cgroup (add_cidrs add_cidr_rule cs r) = gr_cgroup r"
  "gr_port (add_cidrs add_cidr_rule cs r) = gr_port r"
  by (induction cs arbitrary: r) (auto simp: add_cidr_rule_def split: option.splits)

lemma add_cgroups_rules:
  "length ids = length ds \<Longrightarrow>
     gr_cidr (add_cgroups add_cgroup_rule (zip ds ids) r) = gr_cidr r \<and>
     dom (gr_cgroup (add_cgroups add_cgroup_rule (zip ds ids) r)) = dom (gr_cgroup r) \<union> set ids \<and>
     gr_port (add_cgroups add_cgroup_rule (zip ds ids) r) = gr_port r"
  by (induction ids ds arbitrary: r rule: list_induct2) (auto simp: add_cgroup_rule_def)

lemma find_append: "find P (xs @ ys) = (case find P xs of Some x \<Rightarrow> Some x | None \<Rightarrow> find P ys)"
  by (induction xs) auto

lemma add_ports_rules:
  "gr_cidr (add_ports add_port_rule ps r) = gr_cidr r"
  "gr_cgroup (add_ports add_port_rule ps r) = gr_cgroup r"
  "gr_port (add_ports add_port_rule ps r) (q, t) =
     (case find (\<lambda>e. cp_DstPort e = q \<and> proto_number (cp_Protocol e) = t) (rev ps) of
        Some e \<Rightarrow> Some \<lparr>prv_action = action_number (cp_Action e), prv_rule_id = cp_RuleID e\<rparr>
      | None \<Rightarrow> gr_port r (q, t))"
  by (induction ps arbitrary: r) (auto simp: add_port_rule_def find_append split: option.splits)

lemma action_numbers [simp]: "action_number ''allow'' = 1" "action_number ''deny'' = 2"
  by (code_simp, code_simp)

lemma find_SomeD: "find P xs = Some x \<Longrightarrow> x \<in> set xs \<and> P x"
  by (auto simp: find_Some_iff)

lemma rules_verdict_policy:
  assumes comp: "Compile p = Inr cp" and ids: "length ids = length (cpol_CgroupBlocks cp)"
  shows "rules_verdict (policy_rules cp ids) c pkt = policy_verdict (ps_Rules (p_Spec p)) ids c pkt"
proof -
  let ?rs = "ps_Rules (p_Spec p)" and ?r = "policy_rules cp ids"
  let ?q = "snd (l4_ports pkt)" and ?t = "ip_protocol pkt"
  have cp: "cpol_CIDRBlocks cp = concat (map rule_cidrs ?rs)" "cpol_PortRules cp = concat (map rule_ports ?rs)"
    using comp by (simp_all add: Compile_Inr)
  have r: "?r = add_ports add_port_rule (cpol_PortRules cp) (add_cgroups add_cgroup_rule
      (zip (cpol_CgroupBlocks cp) ids) (add_cidrs add_cidr_rule (cpol_CIDRBlocks cp) no_rules))"
    by (simp add: policy_rules_def compiled_rules_with_def)
  have cgroup: "gr_cgroup ?r c \<noteq> None \<longleftrightarrow> c \<in> set ids"
    using add_cgroups_rules [OF ids, of "add_cidrs add_cidr_rule (cpol_CIDRBlocks cp) no_rules"]
    by (auto simp: r add_ports_rules add_cidrs_rules no_rules_def dom_def)
  have "dom (gr_cidr ?r) = {e. \<exists>x \<in> set (cpol_CIDRBlocks cp). cidr_entry (cc_CIDRStr x) = Some e}"
    using add_cgroups_rules [OF ids, of "add_cidrs add_cidr_rule (cpol_CIDRBlocks cp) no_rules"]
    by (simp add: r add_ports_rules add_cidrs_rules no_rules_def)
  then have cidr: "(\<exists>e \<in> dom (gr_cidr ?r). entry_covers e a) \<longleftrightarrow>
      (\<exists>x \<in> set ?rs. \<exists>s \<in> set (r_SrcCIDRs x). in_network s a)" for a
    unfolding in_network_entry cp(1) by (fastforce simp: rule_cidrs_def)
  have port: "gr_port ?r (?q, ?t) = map_option
      (\<lambda>e. \<lparr>prv_action = action_number (cp_Action e), prv_rule_id = cp_RuleID e\<rparr>) (port_decision ?rs ?q ?t)"
    using add_cgroups_rules [OF ids, of "add_cidrs add_cidr_rule (cpol_CIDRBlocks cp) no_rules"]
    by (simp add: r add_ports_rules add_cidrs_rules no_rules_def port_decision_def cp split: option.splits)
  have action: "action_number (cp_Action e) = 2 \<longleftrightarrow> cp_Action e = ''deny''"
    if "port_decision ?rs ?q ?t = Some e" for e
  proof -
    from find_SomeD [OF that [unfolded port_decision_def]] have "e \<in> set (cpol_PortRules cp)"
      by (simp add: cp)
    with Compile_wf [OF comp] have "cp_Action e = ''allow'' \<or> cp_Action e = ''deny''"
      by (auto simp: wf_compiled_def)
    then show ?thesis by auto
  qed
  show ?thesis
    unfolding rules_verdict_def policy_verdict_def cgroup cidr port
    using action by (cases "port_decision ?rs ?q ?t") auto
qed

section \<open>What one connection does\<close>

text \<open>A connection that may change the policy: it asks for \<^verbatim>\<open>apply_policy\<close> and its peer is an admin or an operator.\<close>

definition authorised :: "ControlServer \<Rightarrow> peer_conn \<Rightarrow> decoded_request \<Rightarrow> bool" where
  "authorised s conn payload \<longleftrightarrow>
     (\<exists>req. payload = Decoded req \<and> req_Command req = ''apply_policy'') \<and>
     pi_Role (peer_of s conn) \<in> {RoleAdmin, RoleOperator}"

lemma ToLower_apply: "ToLower ''apply_policy'' = ''apply_policy''"
  by code_simp

lemma handle_frame:
  assumes "\<not> authorised s conn payload"
  shows "snd (handleConnection K u s conn payload w) = w"
proof (cases payload)
  case (Decoded req)
  show ?thesis
  proof (cases "req_Command req = ''apply_policy''")
    case True
    with assms Decoded have "pi_Role (peer_of s conn) \<notin> {RoleAdmin, RoleOperator}"
      by (simp add: authorised_def)
    with Decoded True show ?thesis
      by (simp add: handleConnection_def EvaluatePermission_def ToLower_apply Let_def)
  next
    case False
    with Decoded show ?thesis
      by (auto simp: handleConnection_def processRequest_def Let_def split: option.splits)
  qed
qed (simp_all add: handleConnection_def Let_def)

text \<open>The response to an authorised connection is that of \<open>apply_policy\<close>, signed with the caller.\<close>

lemma handle_authorised:
  assumes "authorised s conn payload"
  shows "\<exists>req. payload = Decoded req \<and> handleConnection K u s conn payload w =
      (Some (with_caller (peer_of s conn) (fst (apply_policy K u s (req_PolicyYAML req) w))),
       snd (apply_policy K u s (req_PolicyYAML req) w))"
proof -
  from assms obtain req where req: "payload = Decoded req" "req_Command req = ''apply_policy''"
    and role: "pi_Role (peer_of s conn) \<in> {RoleAdmin, RoleOperator}"
    by (auto simp: authorised_def)
  have "EvaluatePermission (pi_Role (peer_of s conn)) ''apply_policy'' = None"
    using role by (auto simp: EvaluatePermission_def ToLower_apply)
  with req show ?thesis
    by (auto simp: handleConnection_def processRequest_def split: prod.splits)
qed

lemma with_caller_sel [simp]:
  "rsp_Success (with_caller p r) = rsp_Success r" "rsp_ActiveGeneration (with_caller p r) = rsp_ActiveGeneration r"
  "rsp_Error (with_caller p r) = rsp_Error r" "rsp_RulesCount (with_caller p r) = rsp_RulesCount r"
  by (simp_all add: with_caller_def)

lemma error_response_sel [simp]: "\<not> rsp_Success (error_response e)" "rsp_Error (error_response e) = e"
  by (simp_all add: error_response_def)

text \<open>A successful \<open>apply_policy\<close> parsed, compiled and reloaded; every other outcome reports failure.\<close>

lemma apply_policy_success:
  assumes "apply_policy K u s yaml w = (r, w')" "rsp_Success r" "srv_loader s \<noteq> None"
  shows "\<exists>pol cp. u yaml = Inr pol \<and> Compile pol = Inr cp \<and>
    ApplyPolicyAtomic (loader_stager K) cp w = ((rsp_ActiveGeneration r, None), w') \<and>
    rsp_RulesCount r = length (cpol_CIDRBlocks cp) + length (cpol_CgroupBlocks cp) + length (cpol_PortRules cp)"
  using assms
  by (auto simp: apply_policy_def Parse_def Let_def split: sum.splits option.splits prod.splits)

lemma apply_policy_failure:
  assumes "apply_policy K u s yaml w = (r, w')" "\<not> rsp_Success r" "w' \<noteq> w"
  shows "\<exists>cp g e. ApplyPolicyAtomic (loader_stager K) cp w = ((g, Some e), w')"
  using assms
  by (auto simp: apply_policy_def Let_def zero_response_def split: sum.splits option.splits prod.splits)

section \<open>The active policy as a transition system\<close>

text \<open>The state is the active generation and its rules; the only step puts a compiled policy into the
  next generation.\<close>

inductive reload_step :: "(string \<Rightarrow> u64) \<Rightarrow> u32 \<times> gen_rules \<Rightarrow> u32 \<times> gen_rules \<Rightarrow> bool"
  for inode :: "string \<Rightarrow> u64" where
  reload: "Compile p = Inr cp \<Longrightarrow> resolved (path_denotes inode) cp ids \<Longrightarrow>
    reload_step inode (g, r) (g + 1, policy_rules cp ids)"

inductive_cases reload_stepE: "reload_step inode (g, r) t"

definition active_policy :: "map_view \<Rightarrow> u32 \<times> gen_rules" where
  "active_policy v = (v_gen v, rules_of v (v_gen v))"

text \<open>Nothing is left behind in the generations that are not active.\<close>

definition only_active :: "map_view \<Rightarrow> bool" where
  "only_active v \<longleftrightarrow> (\<forall>h. h \<noteq> v_gen v \<longrightarrow> rules_of v h = no_rules)"

context bpf_kernel
begin

lemma apply_ok_view:
  assumes "ApplyPolicyAtomic (loader_stager K) cp w = ((g, None), w')"
  shows "g = v_gen (view w) + 1 \<and> v_gen (view w') = g \<and> (\<exists>ids. resolved (path_denotes inode) cp ids \<and>
    rules_of (view w') = (rules_of (view w))(v_gen (view w) := no_rules, g := policy_rules cp ids))"
  using st.apply_ok [OF assms] unfolding policy_rules_def .

lemma apply_err_view:
  assumes "ApplyPolicyAtomic (loader_stager K) cp w = ((g, Some e), w')"
  shows "g = v_gen (view w) \<and> v_gen (view w') = g \<and>
    rules_of (view w') = (rules_of (view w))(g + 1 := no_rules)"
  using st.apply_err [OF assms] by simp

lemma handle_step:
  assumes "handleConnection K u s conn payload w = (r, w')" and loader: "srv_loader s \<noteq> None"
  shows "if authorised s conn payload \<and> (\<exists>x. r = Some x \<and> rsp_Success x)
    then reload_step inode (active_policy (view w)) (active_policy (view w'))
    else active_policy (view w') = active_policy (view w)" (is ?step)
    and "only_active (view w) \<Longrightarrow> only_active (view w')"
proof -
  have "?step \<and> (only_active (view w) \<longrightarrow> only_active (view w'))"
  proof (cases "authorised s conn payload")
    case False
    with handle_frame [OF False, of K u w] assms show ?thesis by simp
  next
    case True
    from handle_authorised [OF True, of K u w] obtain req :: Request where "handleConnection K u s conn payload w =
      (Some (with_caller (peer_of s conn) (fst (apply_policy K u s (req_PolicyYAML req) w))),
       snd (apply_policy K u s (req_PolicyYAML req) w))" by auto
    with assms obtain x where x: "apply_policy K u s (req_PolicyYAML req) w = (x, w')"
      and r: "r = Some (with_caller (peer_of s conn) x)" by (metis prod.collapse prod.inject)
    show ?thesis
    proof (cases "rsp_Success x")
      case ok: True
      from apply_policy_success [OF x ok loader] obtain pol cp g where comp: "Compile pol = Inr cp"
        and swap: "ApplyPolicyAtomic (loader_stager K) cp w = ((g, None), w')" by blast
      from apply_ok_view [OF swap] comp True ok r show ?thesis
        by (auto simp: active_policy_def only_active_def intro: reload_step.reload)
    next
      case fail: False
      show ?thesis
      proof (cases "w' = w")
        case False
        from apply_policy_failure [OF x fail False] apply_err_view r fail show ?thesis
          by (auto simp: active_policy_def only_active_def)
      qed (use fail r in simp)
    qed
  qed
  then show ?step and "only_active (view w) \<Longrightarrow> only_active (view w')" by auto
qed

end

text \<open>The reloads that a sequence of connections reports as successful.\<close>

definition reloads :: "ControlServer \<Rightarrow> (peer_conn \<times> decoded_request) list \<Rightarrow> Response option list \<Rightarrow> nat" where
  "reloads s cs rs = length (filter (\<lambda>((conn, payload), r).
     authorised s conn payload \<and> (case r of None \<Rightarrow> False | Some x \<Rightarrow> rsp_Success x)) (zip cs rs))"

context bpf_kernel
begin

lemma serve_steps:
  "serve K u s cs w = (rs, w') \<Longrightarrow> srv_loader s \<noteq> None \<Longrightarrow>
     (reload_step inode ^^ reloads s cs rs) (active_policy (view w)) (active_policy (view w')) \<and>
     (only_active (view w) \<longrightarrow> only_active (view w'))"
proof (induction cs arbitrary: w rs)
  case Nil
  then show ?case by (simp add: reloads_def)
next
  case (Cons c cs)
  obtain conn payload where c: "c = (conn, payload)" by (cases c)
  from Cons.prems(1) obtain r w1 rs1 where one: "handleConnection K u s conn payload w = (r, w1)"
    and rest: "serve K u s cs w1 = (rs1, w')" and rs: "rs = r # rs1"
    by (auto simp: c split: prod.splits)
  have IH: "(reload_step inode ^^ reloads s cs rs1) (active_policy (view w1)) (active_policy (view w')) \<and>
      (only_active (view w1) \<longrightarrow> only_active (view w'))"
    by (rule Cons.IH [OF rest Cons.prems(2)])
  show ?case
  proof (cases "authorised s conn payload \<and> (\<exists>x. r = Some x \<and> rsp_Success x)")
    case True
    with handle_step(1) [OF one Cons.prems(2)]
    have "reload_step inode (active_policy (view w)) (active_policy (view w1))" by simp
    moreover have "reloads s (c # cs) rs = Suc (reloads s cs rs1)"
      using True by (auto simp: reloads_def c rs)
    ultimately show ?thesis
      using IH handle_step(2) [OF one Cons.prems(2)] relpowp_Suc_I2 [of "reload_step inode"] by auto
  next
    case False
    with handle_step(1) [OF one Cons.prems(2)] have "active_policy (view w1) = active_policy (view w)"
      by argo
    moreover have "reloads s (c # cs) rs = reloads s cs rs1"
      using False by (auto simp: reloads_def c rs split: option.splits)
    ultimately show ?thesis using IH handle_step(2) [OF one Cons.prems(2)] by auto
  qed
qed

end

text \<open>Each step of the transition system counts the generation up by one.\<close>

lemma reload_steps_gen:
  "(reload_step inode ^^ n) (g, r) (h, t) \<Longrightarrow> h = g + of_nat n"
proof (induction n arbitrary: h t)
  case (Suc n)
  then obtain g1 r1 where "(reload_step inode ^^ n) (g, r) (g1, r1)" "reload_step inode (g1, r1) (h, t)"
    by auto
  with Suc.IH [of g1 r1] show ?case by (auto elim!: reload_stepE)
qed auto

section \<open>Packets after and during a reload\<close>

lemma resolved_length: "resolved D cp ids \<Longrightarrow> length ids = length (cpol_CgroupBlocks cp)"
  by (auto simp: resolved_def dest: list_all2_lengthD)

lemma rules_verdict_none: "rules_verdict no_rules c pkt = XDP_PASS"
  by (simp add: rules_verdict_def no_rules_def)

context bpf_kernel
begin

lemma xdp_active:
  "active_is g r (view x) \<Longrightarrow>
     fst (xdp_firewall_func (reads_of K x) ctx pkt st) = rules_verdict r (xc_cgroup_id ctx) pkt"
  by (simp add: reads_of_def xdp_split_verdict active_is_def)

lemma xdp_after_reload:
  assumes "lpm_wf (view w)" and "Compile p = Inr cp"
    and swap: "ApplyPolicyAtomic (loader_stager K) cp w = ((g, None), w')"
  shows "\<exists>ids. resolved (path_denotes inode) cp ids \<and>
    (\<forall>ctx pkt st. fst (xdp_firewall_func (reads_of K w') ctx pkt st) =
       policy_verdict (ps_Rules (p_Spec p)) ids (xc_cgroup_id ctx) pkt)"
proof -
  from apply_ok_view [OF swap] obtain ids where ids: "resolved (path_denotes inode) cp ids"
    and "v_gen (view w') = g" "rules_of (view w') g = policy_rules cp ids" by auto
  moreover have "lpm_wf (view w')" using wf.apply_keeps [OF assms(1), of cp] swap by simp
  ultimately have "active_is g (policy_rules cp ids) (view w')" by (simp add: active_is_def)
  with ids assms(2) show ?thesis
    by (auto simp: xdp_active rules_verdict_policy resolved_length)
qed

lemma xdp_during_reload:
  assumes "lpm_wf (view w)" and comp: "Compile p = Inr cp"
    and swap: "ApplyPolicyAtomic (loader_stager (traced K)) cp (w, []) = ((g, None), (w', l))"
  shows "\<exists>ids l1 l2. resolved (path_denotes inode) cp ids \<and> l = l1 @ l2 \<and> l2 \<noteq> [] \<and>
    (\<forall>x \<in> set l1. \<forall>ctx pkt st. fst (xdp_firewall_func (reads_of K x) ctx pkt st) =
       fst (xdp_firewall_func (reads_of K w) ctx pkt st)) \<and>
    (\<forall>x \<in> set l2. \<forall>ctx pkt st. fst (xdp_firewall_func (reads_of K x) ctx pkt st) =
       policy_verdict (ps_Rules (p_Spec p)) ids (xc_cgroup_id ctx) pkt)"
proof -
  have old: "active_is (v_gen (view w)) (rules_of (view w) (v_gen (view w))) (view w)"
    using assms(1) by (simp add: active_is_def)
  from traced_apply_ok [OF swap assms(1)] obtain ids l1 l2 where
    ids: "resolved (path_denotes inode) cp ids" "l = l1 @ l2" "l2 \<noteq> []"
    and l1: "\<forall>x \<in> set l1. act (v_gen (view w)) (rules_of (view w) (v_gen (view w))) x"
    and l2: "\<forall>x \<in> set l2. act g (policy_rules cp ids) x" by blast
  have "\<forall>x \<in> set l1. \<forall>ctx pkt st. fst (xdp_firewall_func (reads_of K x) ctx pkt st) =
      fst (xdp_firewall_func (reads_of K w) ctx pkt st)"
    by (simp add: xdp_active [OF bspec [OF l1]] xdp_active [OF old])
  moreover have "\<forall>x \<in> set l2. \<forall>ctx pkt st. fst (xdp_firewall_func (reads_of K x) ctx pkt st) =
      policy_verdict (ps_Rules (p_Spec p)) ids (xc_cgroup_id ctx) pkt"
    by (simp add: xdp_active [OF bspec [OF l2]] rules_verdict_policy [OF comp] resolved_length [OF ids(1)])
  ultimately show ?thesis using ids by blast
qed

lemma xdp_failed_reload:
  assumes "lpm_wf (view w)"
    and swap: "ApplyPolicyAtomic (loader_stager (traced K)) cp (w, []) = ((g, Some e), (w', l))"
  shows "\<forall>x \<in> set l. \<forall>ctx pkt st. fst (xdp_firewall_func (reads_of K x) ctx pkt st) =
    fst (xdp_firewall_func (reads_of K w) ctx pkt st)"
proof -
  have "active_is (v_gen (view w)) (rules_of (view w) (v_gen (view w))) (view w)"
    using assms(1) by (simp add: active_is_def)
  then show ?thesis
    by (simp add: xdp_active [OF bspec [OF traced_apply_err [OF swap assms(1)]]] xdp_active)
qed

text \<open>A packet that read the generation before the switch and looks up the tables after the old
  generation was purged meets no rule.\<close>

lemma xdp_stale_generation:
  assumes "lpm_wf (view w)"
    and swap: "ApplyPolicyAtomic (loader_stager K) cp w = ((g, None), w')"
  shows "fst (xdp_firewall_func (reads_split K w w') ctx pkt st) = XDP_PASS"
proof -
  have "lpm_wf (view w')" using wf.apply_keeps [OF assms(1), of cp] swap by simp
  moreover from apply_ok_view [OF swap] have "rules_of (view w') (v_gen (view w)) = no_rules" by auto
  ultimately show ?thesis by (simp add: xdp_split_verdict rules_verdict_none)
qed

end

section \<open>Reading a printed network\<close>

lemma in_network_printed:
  assumes "n \<le> 32"
  shows "in_network (IP4_String [a, b, c, d] @ ''/'' @ dec n) src \<longleftrightarrow>
    take n (bits_of [a, b, c, d]) = take n (bits_of (le_bytes32 src))"
proof -
  let ?s = "IP4_String [a, b, c, d] @ ''/'' @ dec n" and ?m = "map2 (AND) [a, b, c, d] (CIDRMask n 4)"
  have len: "length ?m = 4" by simp
  have "block_net ?s = Inr (Some \<lparr>net_IP = ?m, net_Mask = CIDRMask n 4\<rparr>)"
    unfolding block_net_def ParseCIDR_String [OF assms] by simp
  moreover have "To4 ?m = Some ?m" unfolding To4_def len by simp
  moreover have "Mask_Size (CIDRMask n 4) = n" using assms by simp
  moreover have "take n (bits_of ?m) = take n (bits_of [a, b, c, d])"
    by (subst bits_of_masked) (use assms in \<open>simp_all del: bits_of_simps\<close>)
  ultimately show ?thesis
    unfolding in_network_def using assms by (simp only: IPNet.simps sum.case option.case simp_thms)
qed

lemma serve_frame:
  "(\<And>conn payload. (conn, payload) \<in> set cs \<Longrightarrow> \<not> authorised s conn payload) \<Longrightarrow> snd (serve K u s cs w) = w"
proof (induction cs)
  case (Cons c cs)
  obtain conn payload where c: "c = (conn, payload)" by (cases c)
  with Cons.prems have "snd (handleConnection K u s conn payload w) = w" by (intro handle_frame) simp
  moreover have "snd (serve K u s cs w) = w" using Cons by simp
  ultimately show ?case by (auto simp: c split: prod.splits)
qed simp

text \<open>A policy with another default action compiles to the same entries.\<close>

lemma ApplyPolicyAtomic_default:
  "ApplyPolicyAtomic S (cp\<lparr>cpol_DefaultAction := d\<rparr>) s = ApplyPolicyAtomic S cp s"
proof -
  have "stage_all S g (cp\<lparr>cpol_DefaultAction := d\<rparr>) = stage_all S g cp" for g
    by (auto simp: stage_all_def fun_eq_iff split: prod.splits option.splits)
  then show ?thesis by (cases "st_GetActiveGeneration S s") (simp_all add: ApplyPolicyAtomic_def Let_def)
qed

end
