(* ===== verification/Conntrack.thy ===== *)
theory Conntrack
  imports Loader
begin

text \<open>
  \<^verbatim>\<open>pkg/conntrack/table.go\<close>: the mirror of the kernel's connection table in user space. A pointer
  \<^verbatim>\<open>*FlowState\<close> is written once and never changed, so the value stands for it. The text that keys the
  map is shown to identify the 5-tuple.
\<close>

section \<open>The table\<close>

record FlowState =
  ft_SrcIP :: string
  ft_DstIP :: string
  ft_SrcPort :: u16
  ft_DstPort :: u16
  ft_Protocol :: u8
  ft_State :: string
  ft_Packets :: u64
  ft_Bytes :: u64
  ft_LastSeen :: int

type_synonym Table = "string \<rightharpoonup> FlowState"

definition NewTable :: Table where
  "NewTable = Map.empty"

definition flowKey :: "ConntrackFlow \<Rightarrow> string" where
  "flowKey kf =
     IP4_String (cf_SrcIP kf) @ '':'' @ dec (unat (cf_SrcPort kf)) @ ''->'' @
     IP4_String (cf_DstIP kf) @ '':'' @ dec (unat (cf_DstPort kf)) @ ''('' @ dec (unat (cf_Protocol kf)) @ '')''"

definition table_state_name :: "u32 \<Rightarrow> string" where
  "table_state_name state =
     (if state = 3 then ''ESTABLISHED'' else if state = 5 then ''CLOSED'' else ''SYN_SENT'')"

definition mirror :: "int \<Rightarrow> ConntrackFlow \<Rightarrow> FlowState" where
  "mirror now kf =
     \<lparr>ft_SrcIP = IP4_String (cf_SrcIP kf), ft_DstIP = IP4_String (cf_DstIP kf), ft_SrcPort = cf_SrcPort kf,
       ft_DstPort = cf_DstPort kf, ft_Protocol = cf_Protocol kf, ft_State = table_state_name (cf_State kf),
       ft_Packets = cf_Packets kf, ft_Bytes = cf_Bytes kf, ft_LastSeen = now\<rparr>"

fun sync_flows :: "int \<Rightarrow> ConntrackFlow list \<Rightarrow> Table \<Rightarrow> FlowState list \<Rightarrow> Table \<times> FlowState list" where
  "sync_flows now [] flows active = (flows, active)"
| "sync_flows now (kf # kfs) flows active =
     (let fs = mirror now kf in sync_flows now kfs (flows(flowKey kf \<mapsto> fs)) (active @ [fs]))"

datatype sync_error = FetchFailed loader_error

text \<open>The error, or the flows of this poll; and the table. \<open>now\<close> is \<^verbatim>\<open>time.Now\<close>.\<close>

definition SyncFromKernel ::
  "'w kernel \<Rightarrow> int \<Rightarrow> Table \<Rightarrow> 'w \<Rightarrow> (sync_error + FlowState list) \<times> Table" where
  "SyncFromKernel K now t w =
     (case GetConntrackFlows K w of
        Inl err \<Rightarrow> (Inl (FetchFailed err), t)
      | Inr kernelFlows \<Rightarrow> (case sync_flows now kernelFlows t [] of (t', active) \<Rightarrow> (Inr active, t')))"

section \<open>The key identifies the connection\<close>

text \<open>Two texts of digits followed by a separator that is no digit are equal only piece by piece.\<close>

lemma dec_sep:
  assumes "dec m @ c # s = dec n @ d # t" "\<not> is_digit c" "\<not> is_digit d"
  shows "m = n \<and> c = d \<and> s = t"
proof -
  have tw: "takeWhile is_digit (dec k @ e # u) = dec k" if "\<not> is_digit e" for k e u
    using that by (simp add: takeWhile_append2 dec_digits)
  from arg_cong [OF assms(1), of "takeWhile is_digit"] tw assms(2,3) have "dec m = dec n" by metis
  with assms(1) show ?thesis by simp
qed

lemma dec_unat_sep:
  fixes x y :: "'a::len word"
  assumes "dec (unat x) @ c # s = dec (unat y) @ d # t" "\<not> is_digit c" "\<not> is_digit d"
  shows "x = y \<and> c = d \<and> s = t"
  using dec_sep [OF assms] by (simp add: word_unat_eq_iff)

lemma not_digits [simp]:
  "\<not> is_digit CHR ''-''" "\<not> is_digit CHR ''(''" "\<not> is_digit CHR '')''"
  by (simp_all add: is_digit_def)

lemma length4: "length xs = 4 \<Longrightarrow> \<exists>a b c d. xs = [a, b, c, d]"
  by (auto simp: eval_nat_numeral length_Suc_conv)

lemma IP4_String_sep:
  assumes "IP4_String xs @ c # s = IP4_String ys @ d # t" "\<not> is_digit c" "\<not> is_digit d"
    and "length xs = 4" "length ys = 4"
  shows "xs = ys \<and> c = d \<and> s = t"
proof -
  from assms(4,5) obtain a1 a2 a3 a4 b1 b2 b3 b4 where xs: "xs = [a1, a2, a3, a4]" and ys: "ys = [b1, b2, b3, b4]"
    using length4 by meson
  from assms(1-3) show ?thesis
    unfolding xs ys IP4_String_def by (auto dest!: dec_unat_sep)
qed

definition same_tuple :: "ConntrackFlow \<Rightarrow> ConntrackFlow \<Rightarrow> bool" where
  "same_tuple a b \<longleftrightarrow> cf_SrcIP a = cf_SrcIP b \<and> cf_DstIP a = cf_DstIP b \<and> cf_SrcPort a = cf_SrcPort b \<and>
     cf_DstPort a = cf_DstPort b \<and> cf_Protocol a = cf_Protocol b"

lemma flowKey_inject:
  assumes "length (cf_SrcIP a) = 4" "length (cf_DstIP a) = 4" "length (cf_SrcIP b) = 4" "length (cf_DstIP b) = 4"
  shows "flowKey a = flowKey b \<longleftrightarrow> same_tuple a b"
proof
  let ?p = "\<lambda>x. dec (unat (cf_DstPort x)) @ ''('' @ dec (unat (cf_Protocol x)) @ '')''"
  let ?d = "\<lambda>x. IP4_String (cf_DstIP x) @ '':'' @ ?p x"
  let ?s = "\<lambda>x. dec (unat (cf_SrcPort x)) @ ''->'' @ ?d x"
  assume key: "flowKey a = flowKey b"
  then have "IP4_String (cf_SrcIP a) @ CHR '':'' # ?s a = IP4_String (cf_SrcIP b) @ CHR '':'' # ?s b"
    by (simp add: flowKey_def)
  from IP4_String_sep [OF this _ _ assms(1,3)] have 1: "cf_SrcIP a = cf_SrcIP b" and s: "?s a = ?s b" by simp_all
  from s have "dec (unat (cf_SrcPort a)) @ CHR ''-'' # CHR ''>'' # ?d a =
      dec (unat (cf_SrcPort b)) @ CHR ''-'' # CHR ''>'' # ?d b" by simp
  from dec_unat_sep [OF this] have 2: "cf_SrcPort a = cf_SrcPort b" and d: "?d a = ?d b" by simp_all
  from d have "IP4_String (cf_DstIP a) @ CHR '':'' # ?p a = IP4_String (cf_DstIP b) @ CHR '':'' # ?p b" by simp
  from IP4_String_sep [OF this _ _ assms(2,4)] have 3: "cf_DstIP a = cf_DstIP b" and p: "?p a = ?p b" by simp_all
  from p have "dec (unat (cf_DstPort a)) @ CHR ''('' # dec (unat (cf_Protocol a)) @ '')'' =
      dec (unat (cf_DstPort b)) @ CHR ''('' # dec (unat (cf_Protocol b)) @ '')''" by simp
  from dec_unat_sep [OF this] have "cf_DstPort a = cf_DstPort b" "cf_Protocol a = cf_Protocol b"
    by (simp_all add: word_unat_eq_iff)
  with 1 2 3 show "same_tuple a b" by (simp add: same_tuple_def)
qed (simp add: same_tuple_def flowKey_def)

section \<open>A poll\<close>

lemma sync_flows_eq:
  "sync_flows now kfs t acc = (t ++ map_of (rev (map (\<lambda>kf. (flowKey kf, mirror now kf)) kfs)), acc @ map (mirror now) kfs)"
proof (induction kfs arbitrary: t acc)
  case (Cons kf kfs)
  have "t(k \<mapsto> v) ++ m = t ++ ([k \<mapsto> v] ++ m)" for k v and m :: Table
    by (simp add: map_add_assoc)
  with Cons show ?case by (simp add: Let_def fun_upd_def)
qed simp

section \<open>Properties\<close>

text \<open>C33: The text that keys the mirror identifies the connection: two flows of the kernel have the same key
  exactly when their 5-tuples are equal.\<close>

theorem flow_key_identifies:
  "flowKey (flow_of_entry a) = flowKey (flow_of_entry b) \<longleftrightarrow>
     fk_src_ip (fst a) = fk_src_ip (fst b) \<and> fk_dst_ip (fst a) = fk_dst_ip (fst b) \<and>
     fk_src_port (fst a) = fk_src_port (fst b) \<and> fk_dst_port (fst a) = fk_dst_port (fst b) \<and>
     fk_protocol (fst a) = fk_protocol (fst b)"
proof -
  have "flowKey (flow_of_entry a) = flowKey (flow_of_entry b) \<longleftrightarrow> same_tuple (flow_of_entry a) (flow_of_entry b)"
    by (rule flowKey_inject) (simp_all add: flow_of_entry_def intToIP_bytes)
  then show ?thesis by (simp add: same_tuple_def flow_of_entry_def intToIP_bytes)
qed



end
