(* ===== verification/Example_Run.thy ===== *)
theory Example_Run
  imports Firewall Conntrack
begin

text \<open>
  A small policy, the reference kernel before and after it is loaded, and a policy whose staging
  fails. Every step is computed from the definitions; the witnesses of the properties use these facts.
\<close>

definition ex_rule :: Rule where
  "ex_rule = \<lparr>r_ID = 7, r_Name = ''block'', r_Action = ''deny'', r_SrcCIDRs = [''10.0.0.0/8''],
     r_DstPorts = [22], r_Protocols = [''tcp''], r_SrcCgroups = [''web'']\<rparr>"

definition ex_policy :: Policy where
  "ex_policy = \<lparr>p_APIVersion = ''v1'', p_Kind = ''FirewallPolicy'', p_Metadata = \<lparr>md_Name = ''demo''\<rparr>,
     p_Spec = \<lparr>ps_DefaultAction = ''allow'', ps_Rules = [ex_rule]\<rparr>\<rparr>"

definition ex_compiled :: CompiledPolicy where
  "ex_compiled = \<lparr>cpol_Name = ''demo'', cpol_DefaultAction = ''allow'',
     cpol_CIDRBlocks = [\<lparr>cc_RuleID = 7, cc_CIDRStr = ''10.0.0.0/8'', cc_Action = ''deny''\<rparr>],
     cpol_CgroupBlocks = [\<lparr>cg_RuleID = 7, cg_CgroupPath = ''web'', cg_Action = ''deny''\<rparr>],
     cpol_PortRules = [\<lparr>cp_RuleID = 7, cp_DstPort = 22, cp_Protocol = ''tcp'', cp_Action = ''deny''\<rparr>]\<rparr>"

definition ex_start :: ref_world where
  "ex_start = \<lparr>rw_gen = 0, rw_lpm = [], rw_cg = [], rw_port = [], rw_dirs = [], rw_flows = [], rw_stats = []\<rparr>"

definition ex_loaded :: ref_world where
  "ex_loaded = \<lparr>rw_gen = 1, rw_lpm = [(\<lparr>lpm_prefixlen = 40, lpm_gen = 1, lpm_addr = 10\<rparr>, 7)],
     rw_cg = [(\<lparr>cgk_gen = 1, cgk_pad = 0, cgk_cgroup_id = 18\<rparr>, 7)],
     rw_port = [(\<lparr>prk_gen = 1, prk_dst_port = 22, prk_protocol = 6, prk_pad = 0\<rparr>, \<lparr>prv_action = 2, prv_rule_id = 7\<rparr>)],
     rw_dirs = [(''/sys/fs/cgroup/web'', 18)], rw_flows = [], rw_stats = []\<rparr>"

lemma ex_text: "IP4_String [10,0,0,0] @ ''/'' @ dec 8 = ''10.0.0.0/8''"
  by code_simp

lemma ex_cidr: "ParseCIDR ''10.0.0.0/8'' = Some \<lparr>net_IP = [10,0,0,0], net_Mask = [255,0,0,0]\<rparr>" 
proof -
  have "CIDRMask 8 4 = [255, 0, 0, 0]" by (simp add: mask_byte_values eval_nat_numeral)
  with ParseCIDR_String [of 8 10 0 0 0] show ?thesis by (simp only: ex_text) simp
qed

lemma ex_compile: "Compile ex_policy = Inr ex_compiled"
proof -
  have "wf_policy ex_policy"
    by (simp add: wf_policy_def wf_rules_def wf_rule_def ex_policy_def ex_rule_def ex_cidr)
  then show ?thesis
    by (simp add: Compile_Inr) (simp add: ex_compiled_def ex_policy_def ex_rule_def rule_cidrs_def rule_cgroups_def
       rule_ports_def default_protocols_def)
qed

lemma ex_lpm_ok: "lpm_ok \<lparr>lpm_prefixlen = 40, lpm_gen = 1, lpm_addr = 10\<rparr>"
  by code_simp

lemma ex_numbers: "proto_number ''tcp'' = 6" "cgroup_target ''web'' = ''/sys/fs/cgroup/web''"
  by (code_simp, code_simp)

lemma ex_stage_cidr: "StageCIDRRule ref_kernel ex_start 1 ''10.0.0.0/8'' 7 ''deny'' =
   (None, ex_start\<lparr>rw_lpm := [(\<lparr>lpm_prefixlen = 40, lpm_gen = 1, lpm_addr = 10\<rparr>, 7)]\<rparr>)"
  by (simp add: StageCIDRRule_def block_net_def ex_cidr To4_def block_key_def Mask_Size_def count_ones_step
     wrap_call_def ref_kernel_def ref_put_def ex_lpm_ok ref_entries_def ex_start_def)

lemma ex_clear: "ClearGenerationRules ref_kernel ex_start g = (None, ex_start)"
  by (simp add: ClearGenerationRules_def clear_lpm_def clear_cgroups_def clear_ports_def ref_kernel_def ref_entries_def ex_start_def)

lemma ex_clear0: "ClearGenerationRules ref_kernel ex_loaded 0 = (None, ex_loaded)"
  by (simp add: ClearGenerationRules_def clear_lpm_def clear_cgroups_def clear_ports_def ref_kernel_def ref_entries_def ex_loaded_def ex_lpm_ok)

lemma ex_apply: "ApplyPolicyAtomic (loader_stager ref_kernel) ex_compiled ex_start = ((1, None), ex_loaded)"
proof -
  have 1: "st_GetActiveGeneration (loader_stager ref_kernel) ex_start = Inr 0"
    by (simp add: loader_stager_def GetActiveGeneration_def ref_kernel_def ex_start_def)
  have 2: "stage_all (loader_stager ref_kernel) 1 ex_compiled ex_start = (None, ex_loaded\<lparr>rw_gen := 0\<rparr>)"
    by (simp add: stage_all_def ex_compiled_def loader_stager_def ex_stage_cidr)
     (simp add: StageCgroupRule_def GetCgroupID_def ex_numbers ref_kernel_def ref_put_def wrap_call_def ex_start_def
       StagePortRule_def ref_inode_def ex_loaded_def cgroup_rule_key_def)
  have 3: "st_SetActiveGeneration (loader_stager ref_kernel) (ex_loaded\<lparr>rw_gen := 0\<rparr>) 1 = (None, ex_loaded)"
    by (simp add: loader_stager_def SetActiveGeneration_def ref_kernel_def wrap_call_def ex_loaded_def)
  have 4: "st_ClearGenerationRules (loader_stager ref_kernel) = ClearGenerationRules ref_kernel"
    by (simp add: loader_stager_def)
  show ?thesis by (simp add: ApplyPolicyAtomic_def 1 2 3 4 ex_clear ex_clear0)
qed
section \<open>A reload that fails\<close>

definition ex_bad :: CompiledPolicy where
  "ex_bad = \<lparr>cpol_Name = ''bad'', cpol_DefaultAction = ''allow'',
     cpol_CIDRBlocks = [\<lparr>cc_RuleID = 7, cc_CIDRStr = ''10.0.0.0/8'', cc_Action = ''deny''\<rparr>,
       \<lparr>cc_RuleID = 8, cc_CIDRStr = ''x'', cc_Action = ''deny''\<rparr>],
     cpol_CgroupBlocks = [], cpol_PortRules = []\<rparr>"

lemma ex_bad_text: "ParseCIDR ''x'' = None" "ParseIP ''x'' = None"
  by (simp_all add: ParseCIDR_def ParseIP_def ParseAddr_def)

lemma ex_clear1: "ClearGenerationRules ref_kernel
    (ex_start\<lparr>rw_lpm := [(\<lparr>lpm_prefixlen = 40, lpm_gen = 1, lpm_addr = 10\<rparr>, 7)]\<rparr>) 1 = (None, ex_start)"
  by (simp add: ClearGenerationRules_def clear_lpm_def clear_cgroups_def clear_ports_def ref_kernel_def ref_entries_def
      ref_delete_def ex_start_def ex_lpm_ok)

lemma ex_apply_bad: "ApplyPolicyAtomic (loader_stager ref_kernel) ex_bad ex_start =
    ((0, Some (CIDRStagingFailed ''x'' 8 (InvalidCIDROrIPv4 ''x''))), ex_start)"
proof -
  have 1: "st_GetActiveGeneration (loader_stager ref_kernel) ex_start = Inr 0"
    by (simp add: loader_stager_def GetActiveGeneration_def ref_kernel_def ex_start_def)
  have 2: "stage_all (loader_stager ref_kernel) 1 ex_bad ex_start =
      (Some (CIDRStagingFailed ''x'' 8 (InvalidCIDROrIPv4 ''x'')),
       ex_start\<lparr>rw_lpm := [(\<lparr>lpm_prefixlen = 40, lpm_gen = 1, lpm_addr = 10\<rparr>, 7)]\<rparr>)"
    by (simp add: stage_all_def ex_bad_def loader_stager_def ex_stage_cidr)
      (simp add: StageCIDRRule_def block_net_def ex_bad_text)
  have 3: "st_ClearGenerationRules (loader_stager ref_kernel) = ClearGenerationRules ref_kernel"
    by (simp add: loader_stager_def)
  show ?thesis by (simp add: ApplyPolicyAtomic_def 1 2 3 ex_clear ex_clear1)
qed

section \<open>Recorded runs\<close>

lemma ex_traced: "\<exists>l. ApplyPolicyAtomic (loader_stager (traced ref_kernel)) ex_compiled (ex_start, []) = ((1, None), (ex_loaded, l))"
  using tr.apply_sim [of ref_kernel ex_compiled "(ex_start, [])"]
  by (cases "ApplyPolicyAtomic (loader_stager (traced ref_kernel)) ex_compiled (ex_start, [])") (auto simp: ex_apply)

lemma ex_traced_bad: "\<exists>l. ApplyPolicyAtomic (loader_stager (traced ref_kernel)) ex_bad (ex_start, []) =
    ((0, Some (CIDRStagingFailed ''x'' 8 (InvalidCIDROrIPv4 ''x''))), (ex_start, l))"
  using tr.apply_sim [of ref_kernel ex_bad "(ex_start, [])"]
  by (cases "ApplyPolicyAtomic (loader_stager (traced ref_kernel)) ex_bad (ex_start, [])") (auto simp: ex_apply_bad)

lemma ex_wf: "lpm_wf (ref_view ex_start)"
  by (simp add: lpm_wf_def ref_view_def ex_start_def ref_entries_def)

lemma ex_kernel: "bpf_kernel ref_kernel ref_view ref_inode"
  by unfold_locales

section \<open>A connection\<close>

definition ex_unmarshal :: "string \<Rightarrow> string + Policy" where
  "ex_unmarshal yaml = (if yaml = ''demo'' then Inr ex_policy else Inl ''not a policy'')"

definition ex_server :: ControlServer where
  "ex_server = NewControlServer (Some False) (Some (NewAuditStore 1000))"

definition ex_peer :: "u32 \<Rightarrow> peer_conn" where
  "ex_peer uid = \<lparr>pc_is_unix = True, pc_syscall_err = None, pc_control_err = None, pc_ucred = Inr (uid, uid, 42)\<rparr>"

definition ex_request :: decoded_request where
  "ex_request = Decoded \<lparr>req_Command = ''apply_policy'', req_PolicyYAML = ''demo''\<rparr>"

lemma ex_roles: "pi_Role (peer_of ex_server (ex_peer 0)) = RoleAdmin"
    "pi_Role (peer_of ex_server (ex_peer 1002)) = RoleViewer"
  by (simp_all add: peer_of_def ex_peer_def GetPeerCredentials_def ResolveRole_def ex_server_def
      NewControlServer_def NewRBACEnforcer_def flag_def)

lemma ex_authorised: "authorised ex_server (ex_peer 0) ex_request" "\<not> authorised ex_server (ex_peer 1002) ex_request"
  by (simp_all add: authorised_def ex_request_def ex_roles role_defs)

lemma ex_apply_policy: "apply_policy ref_kernel ex_unmarshal ex_server ''demo'' ex_start =
    (zero_response\<lparr>rsp_Success := True, rsp_ActiveGeneration := 1, rsp_RulesCount := 3\<rparr>, ex_loaded)"
proof -
  have "Validate ex_policy = None" using ex_compile by (simp add: Validate_None Compile_Inr)
  then show ?thesis
    by (simp add: apply_policy_def Parse_def ex_unmarshal_def ex_compile ex_server_def NewControlServer_def ex_apply)
      (simp add: ex_compiled_def)
qed

section \<open>An allow rule with a network\<close>

definition ex_allow :: Policy where
  "ex_allow = \<lparr>p_APIVersion = ''v1'', p_Kind = ''FirewallPolicy'', p_Metadata = \<lparr>md_Name = ''lan''\<rparr>,
     p_Spec = \<lparr>ps_DefaultAction = ''deny'', ps_Rules = [\<lparr>r_ID = 7, r_Name = ''lan'', r_Action = ''allow'',
       r_SrcCIDRs = [''10.0.0.0/8''], r_DstPorts = [], r_Protocols = [], r_SrcCgroups = []\<rparr>]\<rparr>\<rparr>"

definition ex_allow_compiled :: CompiledPolicy where
  "ex_allow_compiled = \<lparr>cpol_Name = ''lan'', cpol_DefaultAction = ''deny'',
     cpol_CIDRBlocks = [\<lparr>cc_RuleID = 7, cc_CIDRStr = ''10.0.0.0/8'', cc_Action = ''allow''\<rparr>],
     cpol_CgroupBlocks = [], cpol_PortRules = []\<rparr>"

definition ex_allow_loaded :: ref_world where
  "ex_allow_loaded = \<lparr>rw_gen = 1, rw_lpm = [(\<lparr>lpm_prefixlen = 40, lpm_gen = 1, lpm_addr = 10\<rparr>, 7)],
     rw_cg = [], rw_port = [], rw_dirs = [], rw_flows = [], rw_stats = []\<rparr>"

definition ex_packet :: "u8 list" where
  "ex_packet = replicate 12 0 @ [8, 0] @ replicate 12 0 @ [10, 1, 2, 3] @ replicate 4 0"

lemma ex_allow_compile: "Compile ex_allow = Inr ex_allow_compiled"
proof -
  have "wf_policy ex_allow" by (simp add: wf_policy_def wf_rules_def wf_rule_def ex_allow_def ex_cidr)
  then show ?thesis
    by (simp add: Compile_Inr)
      (simp add: ex_allow_compiled_def ex_allow_def rule_cidrs_def rule_cgroups_def rule_ports_def)
qed

lemma ex_allow_apply:
  "ApplyPolicyAtomic (loader_stager ref_kernel) ex_allow_compiled ex_start = ((1, None), ex_allow_loaded)"
proof -
  have 1: "st_GetActiveGeneration (loader_stager ref_kernel) ex_start = Inr 0"
    by (simp add: loader_stager_def GetActiveGeneration_def ref_kernel_def ex_start_def)
  have allow: "StageCIDRRule ref_kernel ex_start 1 ''10.0.0.0/8'' 7 ''allow'' = StageCIDRRule ref_kernel ex_start 1 ''10.0.0.0/8'' 7 ''deny''"
    by (simp add: StageCIDRRule_def)
  have 2: "stage_all (loader_stager ref_kernel) 1 ex_allow_compiled ex_start = (None, ex_allow_loaded\<lparr>rw_gen := 0\<rparr>)"
    by (simp add: stage_all_def ex_allow_compiled_def loader_stager_def allow ex_stage_cidr)
      (simp add: ex_start_def ex_allow_loaded_def)
  have 3: "st_SetActiveGeneration (loader_stager ref_kernel) (ex_allow_loaded\<lparr>rw_gen := 0\<rparr>) 1 = (None, ex_allow_loaded)"
    by (simp add: loader_stager_def SetActiveGeneration_def ref_kernel_def wrap_call_def ex_allow_loaded_def)
  have 4: "st_ClearGenerationRules (loader_stager ref_kernel) = ClearGenerationRules ref_kernel"
    by (simp add: loader_stager_def)
  have 5: "ClearGenerationRules ref_kernel ex_allow_loaded 0 = (None, ex_allow_loaded)"
    by (simp add: ClearGenerationRules_def clear_lpm_def clear_cgroups_def clear_ports_def ref_kernel_def
        ref_entries_def ex_allow_loaded_def ex_lpm_ok)
  show ?thesis by (simp add: ApplyPolicyAtomic_def 1 2 3 4 5 ex_clear)
qed

lemma ex_packet_source: "le_bytes32 (ip_saddr ex_packet) = [10, 1, 2, 3]" "is_ipv4 ex_packet"
proof -
  have "ip_saddr ex_packet = 0x0302010A"
    by (simp add: ip_saddr_def ld32_def ex_packet_def push_bit_eq_mult)
  then show "le_bytes32 (ip_saddr ex_packet) = [10, 1, 2, 3]"
    by (simp add: le_bytes32_def drop_bit_eq_div)
  show "is_ipv4 ex_packet"
    by (simp add: is_ipv4_def be16_def ex_packet_def nth_append push_bit_eq_mult)
qed

lemma ex_packet_in: "in_network ''10.0.0.0/8'' (ip_saddr ex_packet)"
proof -
  have "in_network (IP4_String [10, 0, 0, 0] @ ''/'' @ dec 8) (ip_saddr ex_packet)"
    by (subst in_network_printed) (simp_all add: ex_packet_source)
  then show ?thesis by (simp only: ex_text)
qed

section \<open>Adding a block by hand\<close>

lemma ex_entry: "cidr_entry ''10.0.0.0/8'' = Some (40, 10)"
  by (simp add: cidr_entry_def block_net_def ex_cidr To4_def Mask_Size_def count_ones_step)

definition ex_blocked :: ref_world where
  "ex_blocked = ex_start\<lparr>rw_lpm := [(\<lparr>lpm_prefixlen = 40, lpm_gen = 0, lpm_addr = 10\<rparr>, 101)]\<rparr>"

lemma ex_lpm_ok0: "lpm_ok \<lparr>lpm_prefixlen = 40, lpm_gen = 0, lpm_addr = 10\<rparr>"
  by code_simp

lemma ex_add_block: "AddBlockCIDR ref_kernel ex_start ''10.0.0.0/8'' 101 = (None, ex_blocked)"
  by (simp add: AddBlockCIDR_def active_gen_def GetActiveGeneration_def StageCIDRRule_def block_net_def ex_cidr To4_def
      block_key_def Mask_Size_def count_ones_step wrap_call_def ref_kernel_def ref_put_def ex_lpm_ok0 ref_entries_def
      ex_start_def ex_blocked_def)

lemma ex_fresh: "gr_cidr (rules_of (ref_view ex_start) g) e = None"
  by (simp add: rules_of_def ref_view_def ex_start_def ref_entries_def split: prod.splits)

end
