(* ===== verification/Concurrent_Reload.thy ===== *)
theory Concurrent_Reload
  imports Example_Run
begin

text \<open>
  Reloads that run at the same time. A reload is taken apart into its calls of the stager, the mutex of \<^verbatim>\<open>MapSwapper\<close> is a lock that is
  taken before the first call and given back after the last, and any number of processes take their steps in any order. Each call of the
  loader is one step, since the loader has a mutex of its own. With one swapper the reloads run one after the other; the
  agent has two, one for its configured policy and one in the control server.
\<close>

section \<open>A reload call by call\<close>

text \<open>Where a reload stands: what is still to be staged, or which clean-up call comes next.\<close>

datatype 'e swap_pc =
    Fresh
  | Clean u32
  | Stage u32 "CompiledCIDR list" "CompiledCgroup list" "CompiledPortRule list"
  | Rollback u32 "'e swap_error"
  | Purge u32
  | Finished "u32 \<times> 'e swap_error option"

definition after_stage :: "u32 \<Rightarrow> 'e swap_pc \<Rightarrow> ('e \<Rightarrow> 'e swap_error) \<Rightarrow> 'e option \<times> 's \<Rightarrow> 'e swap_pc \<times> 's" where
  "after_stage g next fail r = (case r of (None, s) \<Rightarrow> (next, s) | (Some err, s) \<Rightarrow> (Rollback g (fail err), s))"

fun swap_step :: "('s, 'e) BPFStager \<Rightarrow> CompiledPolicy \<Rightarrow> 'e swap_pc \<times> 's \<Rightarrow> 'e swap_pc \<times> 's" where
  "swap_step S cp (Fresh, s) =
     (case st_GetActiveGeneration S s of
        Inl err \<Rightarrow> (Finished (0, Some (GetGenerationFailed err)), s)
      | Inr curGen \<Rightarrow> (Clean curGen, s))"
| "swap_step S cp (Clean g, s) =
     (Stage g (cpol_CIDRBlocks cp) (cpol_CgroupBlocks cp) (cpol_PortRules cp), snd (st_ClearGenerationRules S s (g + 1)))"
| "swap_step S cp (Stage g (c # cs) ds ps, s) =
     after_stage g (Stage g cs ds ps) (CIDRStagingFailed (cc_CIDRStr c) (cc_RuleID c))
       (st_StageCIDRRule S s (g + 1) (cc_CIDRStr c) (cc_RuleID c) (cc_Action c))"
| "swap_step S cp (Stage g [] (d # ds) ps, s) =
     after_stage g (Stage g [] ds ps) (CgroupStagingFailed (cg_CgroupPath d) (cg_RuleID d))
       (st_StageCgroupRule S s (g + 1) (cg_CgroupPath d) (cg_RuleID d) (cg_Action d))"
| "swap_step S cp (Stage g [] [] (p # ps), s) =
     after_stage g (Stage g [] [] ps) (PortStagingFailed (cp_DstPort p) (cp_Protocol p) (cp_RuleID p))
       (st_StagePortRule S s (g + 1) (cp_DstPort p) (cp_Protocol p) (cp_RuleID p) (cp_Action p))"
| "swap_step S cp (Stage g [] [] [], s) =
     after_stage g (Purge g) (SwitchFailed (g + 1)) (st_SetActiveGeneration S s (g + 1))"
| "swap_step S cp (Rollback g err, s) = (Finished (g, Some err), snd (st_ClearGenerationRules S s (g + 1)))"
| "swap_step S cp (Purge g, s) = (Finished (g + 1, None), snd (st_ClearGenerationRules S s g))"
| "swap_step S cp (Finished r, s) = (Finished r, s)"

text \<open>The number of calls of a reload that succeeds: reading, clearing, one per entry, switching and purging.\<close>

definition reload_calls :: "CompiledPolicy \<Rightarrow> nat" where
  "reload_calls cp = length (cpol_CIDRBlocks cp) + length (cpol_CgroupBlocks cp) + length (cpol_PortRules cp) + 4"

text \<open>A reload among other goroutines: \<open>others k\<close> is what they do to the maps between its calls \<open>k\<close> and \<open>k + 1\<close>.\<close>

primrec calls_among :: "(nat \<Rightarrow> 's \<Rightarrow> 's) \<Rightarrow> ('s, 'e) BPFStager \<Rightarrow> CompiledPolicy \<Rightarrow> nat \<Rightarrow> 's \<Rightarrow> 'e swap_pc \<times> 's" where
  "calls_among others S cp 0 s = (Fresh, s)"
| "calls_among others S cp (Suc n) s = (case calls_among others S cp n s of (pc, s') \<Rightarrow> swap_step S cp (pc, others n s'))"

definition reload_among :: "(nat \<Rightarrow> 's \<Rightarrow> 's) \<Rightarrow> ('s, 'e) BPFStager \<Rightarrow> CompiledPolicy \<Rightarrow> 's \<Rightarrow>
    (u32 \<times> 'e swap_error option) option \<times> 's" where
  "reload_among others S cp s =
     (case calls_among others S cp (reload_calls cp) s of
        (Finished r, s') \<Rightarrow> (Some r, s')
      | (_, s') \<Rightarrow> (None, s'))"

section \<open>Processes\<close>

record ('s, 'e) race_state =
  rc_pcs :: "nat \<Rightarrow> 'e swap_pc"
  rc_locks :: "nat \<Rightarrow> nat option"
  rc_maps :: 's

text \<open>\<open>mutex i\<close> is the swapper that process \<open>i\<close> uses and \<open>cps i\<close> the policy that it loads.\<close>

inductive race :: "('s, 'e) BPFStager \<Rightarrow> (nat \<Rightarrow> nat) \<Rightarrow> (nat \<Rightarrow> CompiledPolicy) \<Rightarrow>
    ('s, 'e) race_state \<Rightarrow> ('s, 'e) race_state \<Rightarrow> bool" for S mutex cps where
  acquire: "rc_locks c (mutex i) = None \<Longrightarrow> rc_pcs c i = Fresh \<Longrightarrow>
    race S mutex cps c (c\<lparr>rc_locks := (rc_locks c)(mutex i := Some i)\<rparr>)"
| call: "rc_locks c (mutex i) = Some i \<Longrightarrow> swap_step S (cps i) (rc_pcs c i, rc_maps c) = (pc, s) \<Longrightarrow>
    race S mutex cps c (c\<lparr>rc_pcs := (rc_pcs c)(i := pc), rc_maps := s\<rparr>)"
| release: "rc_locks c (mutex i) = Some i \<Longrightarrow> rc_pcs c i = Finished r \<Longrightarrow>
    race S mutex cps c (c\<lparr>rc_locks := (rc_locks c)(mutex i := None)\<rparr>)"

definition race_start :: "'s \<Rightarrow> ('s, 'e) race_state" where
  "race_start s = \<lparr>rc_pcs = (\<lambda>_. Fresh), rc_locks = (\<lambda>_. None), rc_maps = s\<rparr>"

text \<open>Reloads one after the other: their results, and the maps at the end.\<close>

fun serial :: "('s, 'e) BPFStager \<Rightarrow> (nat \<Rightarrow> CompiledPolicy) \<Rightarrow> nat list \<Rightarrow> 's \<Rightarrow> (u32 \<times> 'e swap_error option) list \<times> 's" where
  "serial S cps [] s = ([], s)"
| "serial S cps (i # is) s =
     (case ApplyPolicyAtomic S (cps i) s of (r, s1) \<Rightarrow> (case serial S cps is s1 of (rs, s2) \<Rightarrow> (r # rs, s2)))"

section \<open>One reload\<close>

lemma finished_stays: "(swap_step S cp ^^ n) (Finished r, s) = (Finished r, s)"
  by (induction n) simp_all

text \<open>Once a reload has finished, further steps change nothing.\<close>

lemma steps_finished:
  assumes "(swap_step S cp ^^ n) x = (Finished r, s)" "n \<le> m"
  shows "(swap_step S cp ^^ m) x = (Finished r, s)"
proof -
  obtain k where "m = k + n" using assms(2) by (metis le_add_diff_inverse2)
  with assms(1) show ?thesis by (simp add: funpow_add finished_stays)
qed

text \<open>What a reload does from a given point of its staging on.\<close>

definition finish_stage :: "('s, 'e) BPFStager \<Rightarrow> u32 \<Rightarrow> 'e swap_error option \<times> 's \<Rightarrow> (u32 \<times> 'e swap_error option) \<times> 's" where
  "finish_stage S g r =
     (case r of
        (Some err, s) \<Rightarrow> ((g, Some err), snd (st_ClearGenerationRules S s (g + 1)))
      | (None, s) \<Rightarrow>
          (case st_SetActiveGeneration S s (g + 1) of
             (Some err, s') \<Rightarrow> ((g, Some (SwitchFailed (g + 1) err)), snd (st_ClearGenerationRules S s' (g + 1)))
           | (None, s') \<Rightarrow> ((g + 1, None), snd (st_ClearGenerationRules S s' g))))"

definition stage_rest where
  "stage_rest S gen cs ds ps s =
     (case stage_cidrs S gen cs s of
        (Some err, s1) \<Rightarrow> (Some err, s1)
      | (None, s1) \<Rightarrow> (case stage_cgroups S gen ds s1 of
          (Some err, s2) \<Rightarrow> (Some err, s2)
        | (None, s2) \<Rightarrow> stage_ports S gen ps s2))"

lemma Apply_stages:
  "ApplyPolicyAtomic S cp s =
     (case st_GetActiveGeneration S s of
        Inl err \<Rightarrow> ((0, Some (GetGenerationFailed err)), s)
      | Inr g \<Rightarrow> finish_stage S g (stage_rest S (g + 1) (cpol_CIDRBlocks cp) (cpol_CgroupBlocks cp) (cpol_PortRules cp)
          (snd (st_ClearGenerationRules S s (g + 1)))))"
  by (auto simp: ApplyPolicyAtomic_def stage_all_def stage_rest_def finish_stage_def Let_def
      split: sum.splits prod.splits option.splits)

lemma rollback_two: "(swap_step S cp ^^ Suc (Suc n)) (Rollback g err, s) = (Finished (g, Some err), snd (st_ClearGenerationRules S s (g + 1)))"
  by (simp only: funpow_Suc_right comp_apply swap_step.simps finished_stays)

lemma staging_steps:
  "(swap_step S cp ^^ (length cs + length ds + length ps + 2)) (Stage g cs ds ps, s) =
     (case finish_stage S g (stage_rest S (g + 1) cs ds ps s) of (r, s') \<Rightarrow> (Finished r, s'))"
proof (induction "length cs + length ds + length ps" arbitrary: cs ds ps s)
  case 0
  then show ?case
    by (auto simp: numeral_2_eq_2 after_stage_def stage_rest_def finish_stage_def split: prod.splits option.splits)
next
  case (Suc n)
  obtain x where more: "swap_step S cp (Stage g cs ds ps, s) = x" by simp
  have steps: "(swap_step S cp ^^ (Suc n + 2)) (Stage g cs ds ps, s) = (swap_step S cp ^^ (n + 2)) x"
    by (simp only: more [symmetric] add_Suc funpow_Suc_right comp_apply)
  have rb: "(swap_step S cp ^^ (n + 2)) (Rollback g err, t) = (Finished (g, Some err), snd (st_ClearGenerationRules S t (g + 1)))" for err t
    using rollback_two [of n S cp g err t] by (simp add: numeral_2_eq_2)
  have fail: "finish_stage S g (Some err, t) = ((g, Some err), snd (st_ClearGenerationRules S t (g + 1)))" for err t
    by (simp add: finish_stage_def)
  show ?case
  proof (cases cs)
    case (Cons c cs')
    then show ?thesis
      using steps Suc(1) [of cs' ds ps] Suc(2) more rb fail
      by (auto simp: after_stage_def stage_rest_def split: prod.splits option.splits)
  next
    case cs: Nil
    show ?thesis
    proof (cases ds)
      case (Cons d ds')
      then show ?thesis
        using steps Suc(1) [of cs ds' ps] Suc(2) more rb fail cs
        by (auto simp: after_stage_def stage_rest_def split: prod.splits option.splits)
    next
      case ds: Nil
      with cs Suc(2) obtain p ps' where "ps = p # ps'" by (cases ps) auto
      then show ?thesis
        using steps Suc(1) [of cs ds ps'] Suc(2) more rb fail cs ds
        by (auto simp: after_stage_def stage_rest_def split: prod.splits option.splits)
    qed
  qed
qed

lemma reload_steps:
  "(swap_step S cp ^^ reload_calls cp) (Fresh, s) = (case ApplyPolicyAtomic S cp s of (r, s') \<Rightarrow> (Finished r, s'))"
proof -
  let ?n = "length (cpol_CIDRBlocks cp) + length (cpol_CgroupBlocks cp) + length (cpol_PortRules cp) + 2"
  have calls: "reload_calls cp = Suc (Suc ?n)" by (simp add: reload_calls_def)
  show ?thesis
  proof (cases "st_GetActiveGeneration S s")
    case (Inl err)
    then show ?thesis by (simp add: Apply_stages calls funpow_Suc_right finished_stays del: funpow.simps)
  next
    case (Inr g)
    then show ?thesis
      by (simp only: calls funpow_Suc_right comp_apply swap_step.simps Inr sum.case staging_steps Apply_stages)
  qed
qed

text \<open>A reload that has finished after some number of calls has done what \<^const>\<open>ApplyPolicyAtomic\<close> does.\<close>

lemma finished_result:
  assumes "(swap_step S cp ^^ n) (Fresh, s) = (Finished r, s')"
  shows "ApplyPolicyAtomic S cp s = (r, s')"
proof (cases "n \<le> reload_calls cp")
  case True
  from steps_finished [OF assms this] show ?thesis by (auto simp: reload_steps split: prod.splits)
next
  case False
  obtain q t where a: "ApplyPolicyAtomic S cp s = (q, t)" by (rule prod.exhaust)
  then have "(swap_step S cp ^^ reload_calls cp) (Fresh, s) = (Finished q, t)" by (simp add: reload_steps)
  from steps_finished [OF this, of n] False assms a show ?thesis by simp
qed

text \<open>With other goroutines at work it makes as many calls at most, and then it has finished.\<close>

fun calls_left :: "'e swap_pc \<Rightarrow> CompiledPolicy \<Rightarrow> nat" where
  "calls_left Fresh cp = reload_calls cp"
| "calls_left (Clean g) cp = length (cpol_CIDRBlocks cp) + length (cpol_CgroupBlocks cp) + length (cpol_PortRules cp) + 3"
| "calls_left (Stage g cs ds ps) cp = length cs + length ds + length ps + 2"
| "calls_left (Rollback g err) cp = 1"
| "calls_left (Purge g) cp = 1"
| "calls_left (Finished r) cp = 0"

lemma swap_step_left: "calls_left (fst (swap_step S cp c)) cp \<le> calls_left (fst c) cp - 1"
  by (induction S cp c rule: swap_step.induct) (auto simp: after_stage_def reload_calls_def split: sum.splits prod.splits option.splits)

lemma calls_among_left: "calls_left (fst (calls_among others S cp n s)) cp \<le> reload_calls cp - n"
proof (induction n)
  case (Suc n)
  then show ?case
    using swap_step_left [of S cp "(fst (calls_among others S cp n s), others n (snd (calls_among others S cp n s)))"]
    by (simp add: split_beta)
qed simp

lemma reload_among_returns: "\<exists>r. fst (reload_among others S cp s) = Some r"
  using calls_among_left [of others S cp "reload_calls cp" s]
  by (cases "fst (calls_among others S cp (reload_calls cp) s)") (auto simp: reload_among_def reload_calls_def split: prod.splits)

lemma calls_alone: "(\<And>k w. others k w = w) \<Longrightarrow> calls_among others S cp n s = (swap_step S cp ^^ n) (Fresh, s)"
  by (induction n) (simp_all add: split_beta)

lemma reload_alone:
  assumes "\<And>k w. others k w = w"
  shows "reload_among others S cp s = (Some (fst (ApplyPolicyAtomic S cp s)), snd (ApplyPolicyAtomic S cp s))"
  by (simp add: reload_among_def calls_alone [of others, OF assms] reload_steps split_beta)

section \<open>One mutex\<close>

lemma serial_append:
  "serial S cps (is @ [i]) s =
     (case serial S cps is s of (rs, s1) \<Rightarrow> (case ApplyPolicyAtomic S (cps i) s1 of (r, s2) \<Rightarrow> (rs @ [r], s2)))"
  by (induction "is" arbitrary: s) (simp_all split: prod.splits)

lemma serial_length: "length (fst (serial S cps is s)) = length is"
  by (induction "is" arbitrary: s) (simp_all add: split_beta)

text \<open>The processes in \<open>order\<close> have finished one after the other; the holder of the lock, if any, is at some call of its reload, which it began
  where they left the maps, and all others have not begun.\<close>

definition serialised :: "('s, 'e) BPFStager \<Rightarrow> (nat \<Rightarrow> CompiledPolicy) \<Rightarrow> 's \<Rightarrow> nat \<Rightarrow> nat list \<Rightarrow> ('s, 'e) race_state \<Rightarrow> bool" where
  "serialised S cps s m order c \<longleftrightarrow>
     distinct order \<and>
     (\<forall>k < length order. rc_pcs c (order ! k) = Finished (fst (serial S cps order s) ! k)) \<and>
     (case rc_locks c m of
        None \<Rightarrow> rc_maps c = snd (serial S cps order s) \<and> (\<forall>i. i \<notin> set order \<longrightarrow> rc_pcs c i = Fresh)
      | Some i \<Rightarrow> i \<notin> set order \<and> (\<forall>j. j \<notin> set order \<and> j \<noteq> i \<longrightarrow> rc_pcs c j = Fresh) \<and>
          (\<exists>n. (swap_step S (cps i) ^^ n) (Fresh, snd (serial S cps order s)) = (rc_pcs c i, rc_maps c)))"

lemma serialised_acquire:
  assumes "serialised S cps s m order c" "rc_locks c m = None" "rc_pcs c i = Fresh"
  shows "serialised S cps s m order (c\<lparr>rc_locks := (rc_locks c)(m := Some i)\<rparr>)"
proof -
  have "i \<notin> set order"
    using assms(1,3) unfolding serialised_def in_set_conv_nth by fastforce
  moreover have "(swap_step S (cps i) ^^ 0) (Fresh, snd (serial S cps order s)) = (rc_pcs c i, rc_maps c)"
    using assms by (simp add: serialised_def)
  ultimately show ?thesis using assms unfolding serialised_def by (auto intro: exI [of _ 0])
qed

lemma serialised_call:
  assumes "serialised S cps s m order c" "rc_locks c m = Some i" "swap_step S (cps i) (rc_pcs c i, rc_maps c) = (pc, t)"
  shows "serialised S cps s m order (c\<lparr>rc_pcs := (rc_pcs c)(i := pc), rc_maps := t\<rparr>)"
proof -
  obtain n where n: "(swap_step S (cps i) ^^ n) (Fresh, snd (serial S cps order s)) = (rc_pcs c i, rc_maps c)" and i: "i \<notin> set order"
    using assms(1,2) by (auto simp: serialised_def)
  have "(swap_step S (cps i) ^^ Suc n) (Fresh, snd (serial S cps order s)) = (pc, t)"
    using n assms(3) by simp
  moreover have "order ! k \<noteq> i" if "k < length order" for k using that i nth_mem by metis
  ultimately show ?thesis using assms(1,2) unfolding serialised_def by (auto intro: exI [of _ "Suc n"] simp del: funpow.simps)
qed

lemma serialised_release:
  assumes "serialised S cps s m order c" "rc_locks c m = Some i" "rc_pcs c i = Finished r"
  shows "serialised S cps s m (order @ [i]) (c\<lparr>rc_locks := (rc_locks c)(m := None)\<rparr>)"
proof -
  obtain rs s1 where ser: "serial S cps order s = (rs, s1)" by (rule prod.exhaust)
  obtain n where "(swap_step S (cps i) ^^ n) (Fresh, s1) = (Finished r, rc_maps c)" and i: "i \<notin> set order"
    using assms ser by (auto simp: serialised_def)
  from finished_result [OF this(1)] have "serial S cps (order @ [i]) s = (rs @ [r], rc_maps c)"
    by (simp add: serial_append ser)
  moreover have "length rs = length order" using serial_length [of S cps order s] by (simp add: ser)
  ultimately show ?thesis using assms i ser
    by (auto simp: serialised_def nth_append less_Suc_eq)
qed

lemma race_serialised:
  assumes "rtranclp (race S (\<lambda>_. m) cps) (race_start s) c"
  shows "\<exists>order. serialised S cps s m order c"
  using assms
proof (induction rule: rtranclp_induct)
  case base
  have "serialised S cps s m [] (race_start s)" by (simp add: serialised_def race_start_def)
  then show ?case by blast
next
  case (step c1 c2)
  then obtain order where inv: "serialised S cps s m order c1" by blast
  from step.hyps(2) show ?case
    by (cases rule: race.cases)
      (use serialised_acquire [OF inv] serialised_call [OF inv] serialised_release [OF inv] in blast)+
qed

section \<open>Two mutexes\<close>

text \<open>Processes that hold their locks take calls in the order of a list.\<close>

fun interleave :: "('s, 'e) BPFStager \<Rightarrow> (nat \<Rightarrow> CompiledPolicy) \<Rightarrow> nat list \<Rightarrow> ('s, 'e) race_state \<Rightarrow> ('s, 'e) race_state" where
  "interleave S cps [] c = c"
| "interleave S cps (i # is) c =
     (case swap_step S (cps i) (rc_pcs c i, rc_maps c) of
        (pc, s) \<Rightarrow> interleave S cps is (c\<lparr>rc_pcs := (rc_pcs c)(i := pc), rc_maps := s\<rparr>))"

lemma interleave_race:
  "(\<And>i. i \<in> set is \<Longrightarrow> rc_locks c (mutex i) = Some i) \<Longrightarrow> rtranclp (race S mutex cps) c (interleave S cps is c)"
proof (induction "is" arbitrary: c)
  case (Cons i "is")
  obtain pc s where step: "swap_step S (cps i) (rc_pcs c i, rc_maps c) = (pc, s)" by (rule prod.exhaust)
  have "race S mutex cps c (c\<lparr>rc_pcs := (rc_pcs c)(i := pc), rc_maps := s\<rparr>)"
    using step by (intro race.call) (simp_all add: Cons.prems)
  moreover have "rtranclp (race S mutex cps) (c\<lparr>rc_pcs := (rc_pcs c)(i := pc), rc_maps := s\<rparr>)
      (interleave S cps is (c\<lparr>rc_pcs := (rc_pcs c)(i := pc), rc_maps := s\<rparr>))"
    by (rule Cons.IH) (simp add: Cons.prems)
  ultimately show ?case by (simp add: step converse_rtranclp_into_rtranclp)
qed simp

definition ex_two :: "nat \<Rightarrow> CompiledPolicy" where
  "ex_two i = \<lparr>cpol_Name = ''two'', cpol_DefaultAction = ''allow'',
     cpol_CIDRBlocks = (if i = 0 then [\<lparr>cc_RuleID = 7, cc_CIDRStr = ''10.0.0.0/8'', cc_Action = ''deny''\<rparr>] else []),
     cpol_CgroupBlocks = [],
     cpol_PortRules = (if i = 0 then [] else [\<lparr>cp_RuleID = 8, cp_DstPort = 22, cp_Protocol = ''tcp'', cp_Action = ''deny''\<rparr>])\<rparr>"

definition ex_mixed :: ref_world where
  "ex_mixed = ex_start\<lparr>rw_gen := 1, rw_lpm := [(\<lparr>lpm_prefixlen = 40, lpm_gen = 1, lpm_addr = 10\<rparr>, 7)],
     rw_port := [(\<lparr>prk_gen = 1, prk_dst_port = 22, prk_protocol = 6, prk_pad = 0\<rparr>, \<lparr>prv_action = 2, prv_rule_id = 8\<rparr>)]\<rparr>"

definition ex_both :: "(ref_world, loader_error) race_state" where
  "ex_both = (race_start ex_start)\<lparr>rc_locks := (\<lambda>_. None)(0 := Some 0, 1 := Some 1)\<rparr>"

lemma ex_both_reached: "rtranclp (race S id cps) (race_start ex_start) ex_both"
proof -
  let ?c = "(race_start ex_start :: (ref_world, loader_error) race_state)\<lparr>rc_locks := (\<lambda>_. None)(id 0 := Some 0)\<rparr>"
  have "race S id cps (race_start ex_start) ((race_start ex_start)\<lparr>rc_locks := (rc_locks (race_start ex_start :: (ref_world, loader_error) race_state))(id 0 := Some 0)\<rparr>)"
    by (rule race.acquire) (simp_all add: race_start_def)
  then have "race S id cps (race_start ex_start) ?c" by (simp add: race_start_def)
  moreover have "race S id cps ?c (?c\<lparr>rc_locks := (rc_locks ?c)(id 1 := Some 1)\<rparr>)"
    by (rule race.acquire) (simp_all add: race_start_def)
  moreover have "?c\<lparr>rc_locks := (rc_locks ?c)(id 1 := Some 1)\<rparr> = ex_both" by (simp add: ex_both_def race_start_def)
  ultimately show ?thesis by (metis converse_rtranclp_into_rtranclp r_into_rtranclp)
qed

lemma ex_stager:
  "st_GetActiveGeneration (loader_stager ref_kernel) ex_start = Inr 0"
  "st_ClearGenerationRules (loader_stager ref_kernel) ex_start 1 = (None, ex_start)"
  "st_StageCIDRRule (loader_stager ref_kernel) ex_start 1 ''10.0.0.0/8'' 7 ''deny'' =
     (None, ex_mixed\<lparr>rw_gen := 0, rw_port := []\<rparr>)"
  "st_StagePortRule (loader_stager ref_kernel) (ex_mixed\<lparr>rw_gen := 0, rw_port := []\<rparr>) 1 22 ''tcp'' 8 ''deny'' =
     (None, ex_mixed\<lparr>rw_gen := 0\<rparr>)"
  "st_SetActiveGeneration (loader_stager ref_kernel) (ex_mixed\<lparr>rw_gen := 0\<rparr>) 1 = (None, ex_mixed)"
  "st_SetActiveGeneration (loader_stager ref_kernel) ex_mixed 1 = (None, ex_mixed)"
  "st_ClearGenerationRules (loader_stager ref_kernel) ex_mixed 0 = (None, ex_mixed)"
proof -
  show "st_GetActiveGeneration (loader_stager ref_kernel) ex_start = Inr 0"
    by (simp add: loader_stager_def GetActiveGeneration_def ref_kernel_def ex_start_def)
  show "st_ClearGenerationRules (loader_stager ref_kernel) ex_start 1 = (None, ex_start)"
    by (simp add: loader_stager_def ex_clear)
  show "st_StageCIDRRule (loader_stager ref_kernel) ex_start 1 ''10.0.0.0/8'' 7 ''deny'' = (None, ex_mixed\<lparr>rw_gen := 0, rw_port := []\<rparr>)"
    by (simp add: loader_stager_def ex_stage_cidr) (simp add: ex_mixed_def ex_start_def)
  show "st_StagePortRule (loader_stager ref_kernel) (ex_mixed\<lparr>rw_gen := 0, rw_port := []\<rparr>) 1 22 ''tcp'' 8 ''deny'' =
     (None, ex_mixed\<lparr>rw_gen := 0\<rparr>)"
    by (simp add: loader_stager_def StagePortRule_def ex_numbers ref_kernel_def ref_put_def wrap_call_def ex_mixed_def ex_start_def)
  show "st_SetActiveGeneration (loader_stager ref_kernel) (ex_mixed\<lparr>rw_gen := 0\<rparr>) 1 = (None, ex_mixed)"
    "st_SetActiveGeneration (loader_stager ref_kernel) ex_mixed 1 = (None, ex_mixed)"
    by (simp_all add: loader_stager_def SetActiveGeneration_def ref_kernel_def wrap_call_def ex_mixed_def ex_start_def)
  show "st_ClearGenerationRules (loader_stager ref_kernel) ex_mixed 0 = (None, ex_mixed)"
    by (simp add: loader_stager_def ClearGenerationRules_def clear_lpm_def clear_cgroups_def clear_ports_def ref_kernel_def
        ref_entries_def ex_mixed_def ex_start_def ex_lpm_ok)
qed

lemma ex_interleaved:
  fixes c :: "(ref_world, loader_error) race_state"
  assumes "c = interleave (loader_stager ref_kernel) ex_two [0, 1, 0, 1, 0, 1, 0, 1, 0, 1] ex_both"
  shows "rc_pcs c 0 = Finished (1, None)" "rc_pcs c 1 = Finished (1, None)" "rc_maps c = ex_mixed"
  unfolding assms by (simp_all add: ex_both_def race_start_def ex_stager ex_two_def after_stage_def)

text \<open>A single reload of a policy without entries.\<close>

definition ex_none :: CompiledPolicy where
  "ex_none = \<lparr>cpol_Name = ''none'', cpol_DefaultAction = ''allow'', cpol_CIDRBlocks = [], cpol_CgroupBlocks = [], cpol_PortRules = []\<rparr>"

definition ex_alone :: "(ref_world, loader_error) race_state" where
  "ex_alone = \<lparr>rc_pcs = (\<lambda>_. Fresh)(0 := Finished (1, None)), rc_locks = (\<lambda>_. None), rc_maps = ex_start\<lparr>rw_gen := 1\<rparr>\<rparr>"

lemma ex_alone_reached: "rtranclp (race (loader_stager ref_kernel) (\<lambda>_. 0) (\<lambda>_. ex_none)) (race_start ex_start) ex_alone"
proof -
  let ?R = "race (loader_stager ref_kernel) (\<lambda>_. 0) (\<lambda>_. ex_none)"
  let ?c = "\<lparr>rc_pcs = (\<lambda>_. Fresh), rc_locks = (\<lambda>_. None)(0 := Some 0), rc_maps = ex_start\<rparr>"
  have set: "st_SetActiveGeneration (loader_stager ref_kernel) ex_start 1 = (None, ex_start\<lparr>rw_gen := 1\<rparr>)"
    by (simp add: loader_stager_def SetActiveGeneration_def ref_kernel_def wrap_call_def ex_start_def)
  have clr: "st_ClearGenerationRules (loader_stager ref_kernel) (ex_start\<lparr>rw_gen := 1\<rparr>) 0 = (None, ex_start\<lparr>rw_gen := 1\<rparr>)"
    by (simp add: loader_stager_def ClearGenerationRules_def clear_lpm_def clear_cgroups_def clear_ports_def ref_kernel_def
        ref_entries_def ex_start_def)
  have run: "interleave (loader_stager ref_kernel) (\<lambda>_. ex_none) [0, 0, 0, 0] ?c = ex_alone\<lparr>rc_locks := (\<lambda>_. None)(0 := Some 0)\<rparr>"
    by (simp add: ex_stager(1,2) set clr ex_none_def after_stage_def ex_alone_def)
  have 1: "?R (race_start ex_start) ?c"
    using race.acquire [of "race_start ex_start" "\<lambda>_. 0" 0] by (simp add: race_start_def)
  have 2: "rtranclp ?R ?c (ex_alone\<lparr>rc_locks := (\<lambda>_. None)(0 := Some 0)\<rparr>)"
    unfolding run [symmetric] by (rule interleave_race) simp
  have 3: "?R (ex_alone\<lparr>rc_locks := (\<lambda>_. None)(0 := Some 0)\<rparr>) ex_alone"
    using race.release [of "ex_alone\<lparr>rc_locks := (\<lambda>_. None)(0 := Some 0)\<rparr>" "\<lambda>_. 0" 0] by (simp add: ex_alone_def fun_upd_idem)
  from converse_rtranclp_into_rtranclp [OF 1 rtranclp.rtrancl_into_rtrancl [OF 2 3]] show ?thesis .
qed

section \<open>Properties\<close>

text \<open>A reload is its calls: taken one at a time, as many as it has entries and four more, the calls of the stager lead to the
  result and the state of \<^verbatim>\<open>ApplyPolicyAtomic\<close>, whether it succeeds or fails.\<close>

theorem reload_is_its_calls:
  "(swap_step S cp ^^ reload_calls cp) (Fresh, s) = (Finished (fst (ApplyPolicyAtomic S cp s)), snd (ApplyPolicyAtomic S cp s))"
  by (simp add: reload_steps split_beta)

text \<open>C12: One swapper serialises: whenever any number of reloads, interleaved in any way, use the same mutex and none holds it,
  the maps and the results are those of the finished reloads run one after the other in some order.\<close>

theorem one_swapper_serialises:
  assumes "rtranclp (race S (\<lambda>_. m) cps) (race_start s) c" and "rc_locks c m = None"
  shows "\<exists>order. distinct order \<and> (\<forall>i. i \<in> set order \<longleftrightarrow> rc_pcs c i \<noteq> Fresh) \<and>
    rc_maps c = snd (serial S cps order s) \<and>
    (\<forall>k < length order. rc_pcs c (order ! k) = Finished (fst (serial S cps order s) ! k))"
proof -
  obtain order where inv: "serialised S cps s m order c" using race_serialised [OF assms(1)] by blast
  have "i \<in> set order \<longleftrightarrow> rc_pcs c i \<noteq> Fresh" for i
    using inv assms(2) by (fastforce simp: serialised_def in_set_conv_nth)
  with inv assms(2) show ?thesis by (auto simp: serialised_def)
qed

theorem one_swapper_serialises_witness:
  "\<exists>order. 0 \<in> set order \<and> 1 \<notin> set order \<and>
     ex_start\<lparr>rw_gen := 1\<rparr> = snd (serial (loader_stager ref_kernel) (\<lambda>_. ex_none) order ex_start)"
proof -
  have "rc_locks ex_alone 0 = None" by (simp add: ex_alone_def)
  from one_swapper_serialises [OF ex_alone_reached this] obtain order where
    mem: "\<forall>i. i \<in> set order \<longleftrightarrow> rc_pcs ex_alone i \<noteq> Fresh" and
    maps: "rc_maps ex_alone = snd (serial (loader_stager ref_kernel) (\<lambda>_. ex_none) order ex_start)" by blast
  from mem have "0 \<in> set order" "1 \<notin> set order" by (simp_all add: ex_alone_def)
  with maps show ?thesis by (intro exI [of _ order]) (simp add: ex_alone_def)
qed

text \<open>C40: Two swappers do not exclude each other: a reload through the one and a reload through the other can both succeed with generation 1 and
  leave the rules of both policies in it, one a network, the other a port, although each policy has only one of them.\<close>

theorem two_swappers_mix:
  "\<exists>c. rtranclp (race (loader_stager ref_kernel) id ex_two) (race_start ex_start) c \<and>
     rc_pcs c 0 = Finished (1, None) \<and> rc_pcs c 1 = Finished (1, None) \<and>
     rw_gen (rc_maps c) = 1 \<and> map (lpm_gen \<circ> fst) (rw_lpm (rc_maps c)) = [1] \<and> map (prk_gen \<circ> fst) (rw_port (rc_maps c)) = [1] \<and>
     cpol_PortRules (ex_two 0) = [] \<and> cpol_CIDRBlocks (ex_two 1) = []"
proof -
  let ?c = "interleave (loader_stager ref_kernel) ex_two [0, 1, 0, 1, 0, 1, 0, 1, 0, 1] ex_both"
  have "rtranclp (race (loader_stager ref_kernel) id ex_two) ex_both ?c"
    by (rule interleave_race) (auto simp: ex_both_def race_start_def)
  with ex_both_reached have "rtranclp (race (loader_stager ref_kernel) id ex_two) (race_start ex_start) ?c" by (rule rtranclp_trans)
  with ex_interleaved [OF refl] show ?thesis
    by (intro exI [of _ ?c]) (simp add: ex_mixed_def ex_two_def)
qed

end
