(* ===== verification/Bindings.thy ===== *)
theory Bindings
  imports Bpf_Maps
begin

text \<open>
  The generated bindings \<^verbatim>\<open>pkg/bpf/{xdp,tc,sockops,skmsg}_bpf.go\<close>: the structs of loaded programs and maps, the
  functions that load them and the functions that close them. Opening, attaching, pinning and closing are
  calls into the BPF library, the operating system and the program \<^verbatim>\<open>tc\<close>; they are the fields of a
  value of \<open>'o os\<close> over a world \<open>'o\<close>. The locale \<open>os_contract\<close> says what each call promises, in terms of what
  the process holds open and of what it has left behind in the system; \<open>os_journal\<close> adds a record of clean-up calls that failed.
\<close>

section \<open>The calls into the system\<close>

text \<open>A handle is a loaded map or program, a link or a ring-buffer reader: a non-nil pointer of the library.
  A nil pointer is \<^const>\<open>None\<close>; its method \<^verbatim>\<open>Close\<close> does nothing.\<close>

type_synonym handle = nat

datatype elf = XdpBytes | TcBytes | SockopsBytes | SkmsgBytes

record 'o os =
  os_spec :: "elf \<Rightarrow> string option"
  os_load_assign :: "elf \<Rightarrow> string list \<Rightarrow> (string \<times> handle option) list \<Rightarrow> 'o \<Rightarrow> (string + (string \<rightharpoonup> handle)) \<times> 'o"
  os_close :: "handle \<Rightarrow> 'o \<Rightarrow> 'o call"
  os_memlock :: "'o \<Rightarrow> 'o call"
  os_interface :: "string \<Rightarrow> 'o \<Rightarrow> string + int"
  os_stat :: "string \<Rightarrow> 'o \<Rightarrow> string option"
  os_run :: "string list \<Rightarrow> 'o \<Rightarrow> 'o call"
  os_attach_xdp :: "handle option \<Rightarrow> int \<Rightarrow> bool \<Rightarrow> 'o \<Rightarrow> (string + handle) \<times> 'o"
  os_mkdirall :: "string \<Rightarrow> 'o \<Rightarrow> 'o call"
  os_remove :: "string \<Rightarrow> 'o \<Rightarrow> 'o call"
  os_pin :: "handle option \<Rightarrow> string \<Rightarrow> 'o \<Rightarrow> 'o call"
  os_new_reader :: "handle option \<Rightarrow> 'o \<Rightarrow> (string + handle) \<times> 'o"
  os_attach_cgroup :: "string \<Rightarrow> handle option \<Rightarrow> 'o \<Rightarrow> (string + handle) \<times> 'o"
  os_raw_attach :: "handle option \<Rightarrow> handle option \<Rightarrow> 'o \<Rightarrow> 'o call"
  os_raw_detach :: "handle option \<Rightarrow> handle option \<Rightarrow> 'o \<Rightarrow> 'o call"

definition close_handle :: "'o os \<Rightarrow> handle option \<Rightarrow> 'o \<Rightarrow> 'o call" where
  "close_handle E c w = (case c of None \<Rightarrow> (None, w) | Some h \<Rightarrow> os_close E h w)"

section \<open>XDP\<close>

record xdpPrograms =
  XdpFirewallFunc :: "handle option"

record xdpMaps =
  ActiveGenerationMap :: "handle option"
  AuditRingbuf :: "handle option"
  CgroupIdentityMap :: "handle option"
  LpmBlocklist :: "handle option"
  PortRulesMap :: "handle option"
  XdpStatsMap :: "handle option"

record xdpObjects =
  xdp_programs :: xdpPrograms
  xdp_maps :: xdpMaps

definition xdpNames :: "string list" where
  "xdpNames =
     [''active_generation_map'', ''audit_ringbuf'', ''cgroup_identity_map'', ''lpm_blocklist'',
      ''port_rules_map'', ''xdp_stats_map'', ''xdp_firewall_func'']"

text \<open>The loading function of a binding: the embedded object file is decoded, then loaded and assigned field by field by the
  names in the tags of the struct.\<close>

definition loadXdp :: "'o os \<Rightarrow> string option" where
  "loadXdp E = map_option (\<lambda>e. ''can't load xdp: '' @ e) (os_spec E XdpBytes)"

definition xdp_assign :: "(string \<rightharpoonup> handle) \<Rightarrow> xdpObjects" where
  "xdp_assign m =
     \<lparr>xdp_programs = \<lparr>XdpFirewallFunc = m ''xdp_firewall_func''\<rparr>,
      xdp_maps =
        \<lparr>ActiveGenerationMap = m ''active_generation_map'', AuditRingbuf = m ''audit_ringbuf'',
         CgroupIdentityMap = m ''cgroup_identity_map'', LpmBlocklist = m ''lpm_blocklist'',
         PortRulesMap = m ''port_rules_map'', XdpStatsMap = m ''xdp_stats_map''\<rparr>\<rparr>"

definition loadXdpObjects ::
  "'o os \<Rightarrow> (string \<times> handle option) list \<Rightarrow> 'o \<Rightarrow> (string + xdpObjects) \<times> 'o" where
  "loadXdpObjects E opts w =
     (case loadXdp E of
        Some err \<Rightarrow> (Inl err, w)
      | None \<Rightarrow> map_prod (map_sum id xdp_assign) id (os_load_assign E XdpBytes xdpNames opts w))"

text \<open>\<^verbatim>\<open>_XdpClose\<close> stops at the first error.\<close>

fun XdpClose :: "('o \<Rightarrow> 'o call) list \<Rightarrow> 'o \<Rightarrow> 'o call" where
  "XdpClose [] w = (None, w)"
| "XdpClose (closer # closers) w =
     (case closer w of (Some err, w') \<Rightarrow> (Some err, w') | (None, w') \<Rightarrow> XdpClose closers w')"

definition xdpPrograms_Close :: "'o os \<Rightarrow> xdpPrograms \<Rightarrow> 'o \<Rightarrow> 'o call" where
  "xdpPrograms_Close E p = XdpClose [close_handle E (XdpFirewallFunc p)]"

definition xdpMaps_Close :: "'o os \<Rightarrow> xdpMaps \<Rightarrow> 'o \<Rightarrow> 'o call" where
  "xdpMaps_Close E m =
     XdpClose
       [close_handle E (ActiveGenerationMap m), close_handle E (AuditRingbuf m),
        close_handle E (CgroupIdentityMap m), close_handle E (LpmBlocklist m),
        close_handle E (PortRulesMap m), close_handle E (XdpStatsMap m)]"

definition xdpObjects_Close :: "'o os \<Rightarrow> xdpObjects \<Rightarrow> 'o \<Rightarrow> 'o call" where
  "xdpObjects_Close E obj =
     XdpClose [xdpPrograms_Close E (xdp_programs obj), xdpMaps_Close E (xdp_maps obj)]"

section \<open>TC\<close>

record tcPrograms =
  TcFirewallFunc :: "handle option"

record tcMaps =
  tc_AuditRingbuf :: "handle option"
  ConntrackMap :: "handle option"
  TcStatsMap :: "handle option"

record tcObjects =
  tc_programs :: tcPrograms
  tc_maps :: tcMaps

definition tcNames :: "string list" where
  "tcNames = [''audit_ringbuf'', ''conntrack_map'', ''tc_stats_map'', ''tc_firewall_func'']"

definition loadTc :: "'o os \<Rightarrow> string option" where
  "loadTc E = map_option (\<lambda>e. ''can't load tc: '' @ e) (os_spec E TcBytes)"

definition tc_assign :: "(string \<rightharpoonup> handle) \<Rightarrow> tcObjects" where
  "tc_assign m =
     \<lparr>tc_programs = \<lparr>TcFirewallFunc = m ''tc_firewall_func''\<rparr>,
      tc_maps =
        \<lparr>tc_AuditRingbuf = m ''audit_ringbuf'', ConntrackMap = m ''conntrack_map'',
         TcStatsMap = m ''tc_stats_map''\<rparr>\<rparr>"

definition loadTcObjects ::
  "'o os \<Rightarrow> (string \<times> handle option) list \<Rightarrow> 'o \<Rightarrow> (string + tcObjects) \<times> 'o" where
  "loadTcObjects E opts w =
     (case loadTc E of
        Some err \<Rightarrow> (Inl err, w)
      | None \<Rightarrow> map_prod (map_sum id tc_assign) id (os_load_assign E TcBytes tcNames opts w))"

text \<open>The generator writes the same loop into every file.\<close>

definition TcClose :: "('o \<Rightarrow> 'o call) list \<Rightarrow> 'o \<Rightarrow> 'o call" where
  "TcClose = XdpClose"

definition tcPrograms_Close :: "'o os \<Rightarrow> tcPrograms \<Rightarrow> 'o \<Rightarrow> 'o call" where
  "tcPrograms_Close E p = TcClose [close_handle E (TcFirewallFunc p)]"

definition tcMaps_Close :: "'o os \<Rightarrow> tcMaps \<Rightarrow> 'o \<Rightarrow> 'o call" where
  "tcMaps_Close E m =
     TcClose
       [close_handle E (tc_AuditRingbuf m), close_handle E (ConntrackMap m), close_handle E (TcStatsMap m)]"

definition tcObjects_Close :: "'o os \<Rightarrow> tcObjects \<Rightarrow> 'o \<Rightarrow> 'o call" where
  "tcObjects_Close E obj =
     TcClose [tcPrograms_Close E (tc_programs obj), tcMaps_Close E (tc_maps obj)]"

section \<open>Sockops\<close>

record sockopsPrograms =
  SockopsIdentityFunc :: "handle option"

record sockopsMaps =
  so_AuditRingbuf :: "handle option"
  SockHash :: "handle option"
  SockopsStatsMap :: "handle option"

record sockopsObjects =
  so_programs :: sockopsPrograms
  so_maps :: sockopsMaps

definition sockopsNames :: "string list" where
  "sockopsNames = [''audit_ringbuf'', ''sock_hash'', ''sockops_stats_map'', ''sockops_identity_func'']"

definition loadSockops :: "'o os \<Rightarrow> string option" where
  "loadSockops E = map_option (\<lambda>e. ''can't load sockops: '' @ e) (os_spec E SockopsBytes)"

definition sockops_assign :: "(string \<rightharpoonup> handle) \<Rightarrow> sockopsObjects" where
  "sockops_assign m =
     \<lparr>so_programs = \<lparr>SockopsIdentityFunc = m ''sockops_identity_func''\<rparr>,
      so_maps =
        \<lparr>so_AuditRingbuf = m ''audit_ringbuf'', SockHash = m ''sock_hash'',
         SockopsStatsMap = m ''sockops_stats_map''\<rparr>\<rparr>"

definition loadSockopsObjects ::
  "'o os \<Rightarrow> (string \<times> handle option) list \<Rightarrow> 'o \<Rightarrow> (string + sockopsObjects) \<times> 'o" where
  "loadSockopsObjects E opts w =
     (case loadSockops E of
        Some err \<Rightarrow> (Inl err, w)
      | None \<Rightarrow> map_prod (map_sum id sockops_assign) id (os_load_assign E SockopsBytes sockopsNames opts w))"

definition SockopsClose :: "('o \<Rightarrow> 'o call) list \<Rightarrow> 'o \<Rightarrow> 'o call" where
  "SockopsClose = XdpClose"

definition sockopsPrograms_Close :: "'o os \<Rightarrow> sockopsPrograms \<Rightarrow> 'o \<Rightarrow> 'o call" where
  "sockopsPrograms_Close E p = SockopsClose [close_handle E (SockopsIdentityFunc p)]"

definition sockopsMaps_Close :: "'o os \<Rightarrow> sockopsMaps \<Rightarrow> 'o \<Rightarrow> 'o call" where
  "sockopsMaps_Close E m =
     SockopsClose
       [close_handle E (so_AuditRingbuf m), close_handle E (SockHash m), close_handle E (SockopsStatsMap m)]"

definition sockopsObjects_Close :: "'o os \<Rightarrow> sockopsObjects \<Rightarrow> 'o \<Rightarrow> 'o call" where
  "sockopsObjects_Close E obj =
     SockopsClose [sockopsPrograms_Close E (so_programs obj), sockopsMaps_Close E (so_maps obj)]"

section \<open>Sk\_msg\<close>

record skmsgPrograms =
  ProxyRedirectFunc :: "handle option"

record skmsgMaps =
  sk_AuditRingbuf :: "handle option"
  sk_SockHash :: "handle option"
  sk_SockopsStatsMap :: "handle option"

record skmsgObjects =
  sk_programs :: skmsgPrograms
  sk_maps :: skmsgMaps

definition skmsgNames :: "string list" where
  "skmsgNames = [''audit_ringbuf'', ''sock_hash'', ''sockops_stats_map'', ''proxy_redirect_func'']"

definition loadSkmsg :: "'o os \<Rightarrow> string option" where
  "loadSkmsg E = map_option (\<lambda>e. ''can't load skmsg: '' @ e) (os_spec E SkmsgBytes)"

definition skmsg_assign :: "(string \<rightharpoonup> handle) \<Rightarrow> skmsgObjects" where
  "skmsg_assign m =
     \<lparr>sk_programs = \<lparr>ProxyRedirectFunc = m ''proxy_redirect_func''\<rparr>,
      sk_maps =
        \<lparr>sk_AuditRingbuf = m ''audit_ringbuf'', sk_SockHash = m ''sock_hash'',
         sk_SockopsStatsMap = m ''sockops_stats_map''\<rparr>\<rparr>"

definition loadSkmsgObjects ::
  "'o os \<Rightarrow> (string \<times> handle option) list \<Rightarrow> 'o \<Rightarrow> (string + skmsgObjects) \<times> 'o" where
  "loadSkmsgObjects E opts w =
     (case loadSkmsg E of
        Some err \<Rightarrow> (Inl err, w)
      | None \<Rightarrow> map_prod (map_sum id skmsg_assign) id (os_load_assign E SkmsgBytes skmsgNames opts w))"

definition SkmsgClose :: "('o \<Rightarrow> 'o call) list \<Rightarrow> 'o \<Rightarrow> 'o call" where
  "SkmsgClose = XdpClose"

definition skmsgPrograms_Close :: "'o os \<Rightarrow> skmsgPrograms \<Rightarrow> 'o \<Rightarrow> 'o call" where
  "skmsgPrograms_Close E p = SkmsgClose [close_handle E (ProxyRedirectFunc p)]"

definition skmsgMaps_Close :: "'o os \<Rightarrow> skmsgMaps \<Rightarrow> 'o \<Rightarrow> 'o call" where
  "skmsgMaps_Close E m =
     SkmsgClose
       [close_handle E (sk_AuditRingbuf m), close_handle E (sk_SockHash m), close_handle E (sk_SockopsStatsMap m)]"

definition skmsgObjects_Close :: "'o os \<Rightarrow> skmsgObjects \<Rightarrow> 'o \<Rightarrow> 'o call" where
  "skmsgObjects_Close E obj =
     SkmsgClose [skmsgPrograms_Close E (sk_programs obj), skmsgMaps_Close E (sk_maps obj)]"

section \<open>What the calls promise\<close>

text \<open>What the process and the system hold: the open handles; the pinned files; the interfaces with a \<^verbatim>\<open>clsact\<close> queueing
  discipline; the interfaces with an ingress filter that runs the TC program; the pairs of a socket map and a verdict
  program that were attached and not detached.\<close>

record os_view =
  vw_open :: "handle set"
  vw_pins :: "string set"
  vw_clsact :: "string set"
  vw_filters :: "string set"
  vw_verdicts :: "(handle option \<times> handle option) set"

definition del_qdisc :: "string \<Rightarrow> os_view \<Rightarrow> os_view" where
  "del_qdisc i v = v\<lparr>vw_clsact := vw_clsact v - {i}, vw_filters := vw_filters v - {i}\<rparr>"

definition close_set :: "handle set \<Rightarrow> os_view \<Rightarrow> os_view" where
  "close_set H v = v\<lparr>vw_open := vw_open v - H\<rparr>"

definition open_set :: "handle set \<Rightarrow> os_view \<Rightarrow> os_view" where
  "open_set H v = v\<lparr>vw_open := vw_open v \<union> H\<rparr>"

definition del_pin :: "string \<Rightarrow> os_view \<Rightarrow> os_view" where
  "del_pin p v = v\<lparr>vw_pins := vw_pins v - {p}\<rparr>"

text \<open>The commands that the loader runs, and the effect of their success; \<^verbatim>\<open>mount\<close> has none on what is recorded.\<close>

datatype tc_command = QdiscAdd string | QdiscDel string | FilterAdd string | OtherCommand

definition classify :: "string list \<Rightarrow> tc_command" where
  "classify args =
     (case args of
        [a, b, c, d, i, e] \<Rightarrow>
          if [a, b, c, d, e] = [''tc'', ''qdisc'', ''add'', ''dev'', ''clsact''] then QdiscAdd i
          else if [a, b, c, d, e] = [''tc'', ''qdisc'', ''del'', ''dev'', ''clsact''] then QdiscDel i
          else OtherCommand
      | a # b # c # d # i # e # _ \<Rightarrow>
          if [a, b, c, d, e] = [''tc'', ''filter'', ''add'', ''dev'', ''ingress''] then FilterAdd i else OtherCommand
      | _ \<Rightarrow> OtherCommand)"

definition run_effect :: "string list \<Rightarrow> os_view \<Rightarrow> os_view" where
  "run_effect args v =
     (case classify args of
        QdiscAdd i \<Rightarrow> v\<lparr>vw_clsact := insert i (vw_clsact v)\<rparr>
      | QdiscDel i \<Rightarrow> del_qdisc i v
      | FilterAdd i \<Rightarrow> v\<lparr>vw_filters := insert i (vw_filters v)\<rparr>
      | OtherCommand \<Rightarrow> v)"

text \<open>A failed call changes nothing. A loaded collection has a new handle for every name asked for, also for the
  replaced maps, which the library clones; it was never attached. An opened link or reader is a new handle.\<close>

locale os_contract =
  fixes E :: "'o os" and vw :: "'o \<Rightarrow> os_view"
  assumes load_ok:
      "\<And>b ns rs w m w'. os_load_assign E b ns rs w = (Inr m, w') \<Longrightarrow>
         dom m = set ns \<and> ran m \<inter> vw_open (vw w) = {} \<and> vw w' = open_set (ran m) (vw w)"
    and load_new:
      "\<And>b ns rs w m w' h p. os_load_assign E b ns rs w = (Inr m, w') \<Longrightarrow> h \<in> ran m \<Longrightarrow>
         (Some h, p) \<notin> vw_verdicts (vw w)"
    and load_fail: "\<And>b ns rs w e w'. os_load_assign E b ns rs w = (Inl e, w') \<Longrightarrow> vw w' = vw w"
    and close_ok: "\<And>h w w'. os_close E h w = (None, w') \<Longrightarrow> vw w' = close_set {h} (vw w)"
    and close_fail: "\<And>h w e w'. os_close E h w = (Some e, w') \<Longrightarrow> vw w' = vw w"
    and memlock: "\<And>w r w'. os_memlock E w = (r, w') \<Longrightarrow> vw w' = vw w"
    and run_ok: "\<And>args w w'. os_run E args w = (None, w') \<Longrightarrow> vw w' = run_effect args (vw w)"
    and run_fail: "\<And>args w e w'. os_run E args w = (Some e, w') \<Longrightarrow> vw w' = vw w"
    and xdp_ok: "\<And>p i g w h w'. os_attach_xdp E p i g w = (Inr h, w') \<Longrightarrow>
         h \<notin> vw_open (vw w) \<and> vw w' = open_set {h} (vw w)"
    and xdp_fail: "\<And>p i g w e w'. os_attach_xdp E p i g w = (Inl e, w') \<Longrightarrow> vw w' = vw w"
    and mkdirall: "\<And>p w r w'. os_mkdirall E p w = (r, w') \<Longrightarrow> vw w' = vw w"
    and remove_ok: "\<And>p w w'. os_remove E p w = (None, w') \<Longrightarrow> vw w' = del_pin p (vw w)"
    and remove_fail: "\<And>p w e w'. os_remove E p w = (Some e, w') \<Longrightarrow> vw w' = vw w"
    and pin_ok: "\<And>h p w w'. os_pin E h p w = (None, w') \<Longrightarrow> vw w' = (vw w)\<lparr>vw_pins := insert p (vw_pins (vw w))\<rparr>"
    and pin_fail: "\<And>h p w e w'. os_pin E h p w = (Some e, w') \<Longrightarrow> vw w' = vw w"
    and reader_ok: "\<And>m w h w'. os_new_reader E m w = (Inr h, w') \<Longrightarrow>
         h \<notin> vw_open (vw w) \<and> vw w' = open_set {h} (vw w)"
    and reader_fail: "\<And>m w e w'. os_new_reader E m w = (Inl e, w') \<Longrightarrow> vw w' = vw w"
    and cgroup_ok: "\<And>c p w h w'. os_attach_cgroup E c p w = (Inr h, w') \<Longrightarrow>
         h \<notin> vw_open (vw w) \<and> vw w' = open_set {h} (vw w)"
    and cgroup_fail: "\<And>c p w e w'. os_attach_cgroup E c p w = (Inl e, w') \<Longrightarrow> vw w' = vw w"
    and raw_ok: "\<And>t p w w'. os_raw_attach E t p w = (None, w') \<Longrightarrow>
         vw w' = (vw w)\<lparr>vw_verdicts := insert (t, p) (vw_verdicts (vw w))\<rparr>"
    and raw_fail: "\<And>t p w e w'. os_raw_attach E t p w = (Some e, w') \<Longrightarrow> vw w' = vw w"
    and detach_ok: "\<And>t p w w'. os_raw_detach E t p w = (None, w') \<Longrightarrow>
         vw w' = (vw w)\<lparr>vw_verdicts := vw_verdicts (vw w) - {(t, p)}\<rparr>"
    and detach_fail: "\<And>t p w e w'. os_raw_detach E t p w = (Some e, w') \<Longrightarrow> vw w' = vw w"

text \<open>
  The calls that clean up can fail, and the code ignores most of these failures. \<open>calm w\<close> says that up to the world \<open>w\<close> no call has failed that had something to
  clean up: a call leads to a calm world only from a calm world, and a clean-up call that fails with something to clean up does not lead to
  one. Every system has such a predicate, since a world can be taken to include its history.
\<close>

locale os_journal = os_contract +
  fixes calm :: "'o \<Rightarrow> bool"
  assumes calm_load: "\<And>b ns rs w r w'. os_load_assign E b ns rs w = (r, w') \<Longrightarrow> calm w' \<Longrightarrow> calm w"
    and calm_close: "\<And>h w r w'. os_close E h w = (r, w') \<Longrightarrow> calm w' \<Longrightarrow> calm w"
    and calm_memlock: "\<And>w r w'. os_memlock E w = (r, w') \<Longrightarrow> calm w' \<Longrightarrow> calm w"
    and calm_run: "\<And>args w r w'. os_run E args w = (r, w') \<Longrightarrow> calm w' \<Longrightarrow> calm w"
    and calm_attach_xdp: "\<And>p i g w r w'. os_attach_xdp E p i g w = (r, w') \<Longrightarrow> calm w' \<Longrightarrow> calm w"
    and calm_mkdirall: "\<And>p w r w'. os_mkdirall E p w = (r, w') \<Longrightarrow> calm w' \<Longrightarrow> calm w"
    and calm_remove: "\<And>p w r w'. os_remove E p w = (r, w') \<Longrightarrow> calm w' \<Longrightarrow> calm w"
    and calm_pin: "\<And>h p w r w'. os_pin E h p w = (r, w') \<Longrightarrow> calm w' \<Longrightarrow> calm w"
    and calm_reader: "\<And>m w r w'. os_new_reader E m w = (r, w') \<Longrightarrow> calm w' \<Longrightarrow> calm w"
    and calm_cgroup: "\<And>c p w r w'. os_attach_cgroup E c p w = (r, w') \<Longrightarrow> calm w' \<Longrightarrow> calm w"
    and calm_raw: "\<And>t p w r w'. os_raw_attach E t p w = (r, w') \<Longrightarrow> calm w' \<Longrightarrow> calm w"
    and calm_detach: "\<And>t p w r w'. os_raw_detach E t p w = (r, w') \<Longrightarrow> calm w' \<Longrightarrow> calm w"
    and close_fault: "\<And>h w e w'. os_close E h w = (Some e, w') \<Longrightarrow> \<not> calm w'"
    and remove_fault: "\<And>p w e w'. os_remove E p w = (Some e, w') \<Longrightarrow> p \<in> vw_pins (vw w) \<Longrightarrow> \<not> calm w'"
    and qdisc_fault:
      "\<And>i w e w'. os_run E [''tc'', ''qdisc'', ''del'', ''dev'', i, ''clsact''] w = (Some e, w') \<Longrightarrow>
         i \<in> vw_clsact (vw w) \<union> vw_filters (vw w) \<Longrightarrow> \<not> calm w'"
    and detach_fault: "\<And>t p w e w'. os_raw_detach E t p w = (Some e, w') \<Longrightarrow> (t, p) \<in> vw_verdicts (vw w) \<Longrightarrow> \<not> calm w'"

section \<open>Closing a set of objects\<close>

definition opt_set :: "'a option list \<Rightarrow> 'a set" where
  "opt_set cs = {h. Some h \<in> set cs}"

lemma opt_set_simps [simp]:
  "opt_set [] = {}" "opt_set (None # cs) = opt_set cs" "opt_set (Some h # cs) = insert h (opt_set cs)"
  "opt_set (cs @ ds) = opt_set cs \<union> opt_set ds"
  by (auto simp: opt_set_def)

lemma close_set_close_set: "close_set B (close_set A v) = close_set (A \<union> B) v"
proof -
  have "vw_open v - A - B = vw_open v - (A \<union> B)" by blast
  then show ?thesis by (simp add: close_set_def)
qed

definition xdp_handles :: "xdpObjects \<Rightarrow> handle option list" where
  "xdp_handles obj =
     [XdpFirewallFunc (xdp_programs obj), ActiveGenerationMap (xdp_maps obj), AuditRingbuf (xdp_maps obj),
      CgroupIdentityMap (xdp_maps obj), LpmBlocklist (xdp_maps obj), PortRulesMap (xdp_maps obj),
      XdpStatsMap (xdp_maps obj)]"

definition tc_handles :: "tcObjects \<Rightarrow> handle option list" where
  "tc_handles obj =
     [TcFirewallFunc (tc_programs obj), tc_AuditRingbuf (tc_maps obj), ConntrackMap (tc_maps obj),
      TcStatsMap (tc_maps obj)]"

definition so_handles :: "sockopsObjects \<Rightarrow> handle option list" where
  "so_handles obj =
     [SockopsIdentityFunc (so_programs obj), so_AuditRingbuf (so_maps obj), SockHash (so_maps obj),
      SockopsStatsMap (so_maps obj)]"

definition sk_handles :: "skmsgObjects \<Rightarrow> handle option list" where
  "sk_handles obj =
     [ProxyRedirectFunc (sk_programs obj), sk_AuditRingbuf (sk_maps obj), sk_SockHash (sk_maps obj),
      sk_SockopsStatsMap (sk_maps obj)]"

lemma XdpClose_append:
  "XdpClose (cs @ ds) w =
     (case XdpClose cs w of (Some err, w') \<Rightarrow> (Some err, w') | (None, w') \<Rightarrow> XdpClose ds w')"
  by (induction cs arbitrary: w) (auto split: prod.splits option.splits)

lemma XdpClose_nested: "XdpClose [XdpClose cs, XdpClose ds] w = XdpClose (cs @ ds) w"
  by (auto simp: XdpClose_append split: prod.splits option.splits)

lemma objects_Close_flat:
  "xdpObjects_Close E xo w = XdpClose (map (close_handle E) (xdp_handles xo)) w"
  "tcObjects_Close E co w = XdpClose (map (close_handle E) (tc_handles co)) w"
  "sockopsObjects_Close E so w = XdpClose (map (close_handle E) (so_handles so)) w"
  "skmsgObjects_Close E sk w = XdpClose (map (close_handle E) (sk_handles sk)) w"
  unfolding xdpObjects_Close_def xdpPrograms_Close_def xdpMaps_Close_def
    tcObjects_Close_def tcPrograms_Close_def tcMaps_Close_def TcClose_def
    sockopsObjects_Close_def sockopsPrograms_Close_def sockopsMaps_Close_def SockopsClose_def
    skmsgObjects_Close_def skmsgPrograms_Close_def skmsgMaps_Close_def SkmsgClose_def
    xdp_handles_def tc_handles_def so_handles_def sk_handles_def XdpClose_nested
  by simp_all

lemma assigned_set:
  "set (xdp_handles (xdp_assign m)) = m ` set xdpNames"
  "set (tc_handles (tc_assign m)) = m ` set tcNames"
  "set (so_handles (sockops_assign m)) = m ` set sockopsNames"
  "set (sk_handles (skmsg_assign m)) = m ` set skmsgNames"
  by (simp add: xdp_handles_def xdp_assign_def xdpNames_def tc_handles_def tc_assign_def tcNames_def
        so_handles_def sockops_assign_def sockopsNames_def sk_handles_def skmsg_assign_def skmsgNames_def,
      blast)+

lemma opt_set_image_dom: "{h. Some h \<in> m ` dom m} = ran m" and None_image_dom: "None \<notin> m ` dom m"
  by (force simp: ran_def)+

lemma assigned_handles:
  "dom m = set xdpNames \<Longrightarrow> opt_set (xdp_handles (xdp_assign m)) = ran m"
  "dom m = set tcNames \<Longrightarrow> opt_set (tc_handles (tc_assign m)) = ran m"
  "dom m = set sockopsNames \<Longrightarrow> opt_set (so_handles (sockops_assign m)) = ran m"
  "dom m = set skmsgNames \<Longrightarrow> opt_set (sk_handles (skmsg_assign m)) = ran m"
  unfolding opt_set_def assigned_set by (metis opt_set_image_dom)+

lemma assigned_non_nil:
  "dom m = set xdpNames \<Longrightarrow> None \<notin> set (xdp_handles (xdp_assign m))"
  "dom m = set tcNames \<Longrightarrow> None \<notin> set (tc_handles (tc_assign m))"
  "dom m = set sockopsNames \<Longrightarrow> None \<notin> set (so_handles (sockops_assign m))"
  "dom m = set skmsgNames \<Longrightarrow> None \<notin> set (sk_handles (skmsg_assign m))"
  unfolding assigned_set by (metis None_image_dom)+

lemma run_effect_qdisc_del:
  "run_effect [''tc'', ''qdisc'', ''del'', ''dev'', i, ''clsact''] v = del_qdisc i v"
  by (simp add: run_effect_def classify_def)

text \<open>Whatever fails, closing closes no handle but its own.\<close>

context os_contract
begin

lemma close_handle_some: "\<exists>H \<subseteq> opt_set [c]. vw (snd (close_handle E c w)) = close_set H (vw w)"
proof (cases c)
  case None
  then show ?thesis by (intro exI [of _ "{}"]) (simp add: close_handle_def close_set_def)
next
  case (Some h)
  obtain r w' where c: "os_close E h w = (r, w')" by (rule prod.exhaust)
  show ?thesis
  proof (cases r)
    case None
    with c Some show ?thesis by (intro exI [of _ "{h}"]) (simp add: close_handle_def close_ok)
  next
    case (Some e)
    with c \<open>c = Some h\<close> show ?thesis by (intro exI [of _ "{}"]) (auto simp: close_handle_def close_set_def dest: close_fail)
  qed
qed

lemma close_all_some: "\<exists>H \<subseteq> opt_set cs. vw (snd (XdpClose (map (close_handle E) cs) w)) = close_set H (vw w)"
proof (induction cs arbitrary: w)
  case Nil
  then show ?case by (simp add: close_set_def)
next
  case (Cons c cs)
  obtain r w' where c: "close_handle E c w = (r, w')" by (rule prod.exhaust)
  from close_handle_some [of c w] c obtain H where H: "H \<subseteq> opt_set [c]" "vw w' = close_set H (vw w)" by auto
  have sub: "opt_set (c # cs) = opt_set [c] \<union> opt_set cs" by (auto simp: opt_set_def)
  show ?case
  proof (cases r)
    case None
    from Cons.IH [of w'] obtain G where "G \<subseteq> opt_set cs" "vw (snd (XdpClose (map (close_handle E) cs) w')) = close_set G (vw w')" by blast
    with H c None sub show ?thesis by (intro exI [of _ "H \<union> G"]) (auto simp: close_set_close_set)
  next
    case (Some e)
    with H c sub show ?thesis by (intro exI [of _ H]) auto
  qed
qed

lemmas objects_some =
  close_all_some [of "xdp_handles obj" for obj, folded objects_Close_flat]
  close_all_some [of "tc_handles obj" for obj, folded objects_Close_flat]

end

text \<open>In a run that ends calm, the clean-up calls have had their effect. Each fact also leads back to the world before.\<close>

context os_journal
begin

lemma os_close_calm:
  assumes "calm (snd (os_close E h w))"
  shows "calm w \<and> fst (os_close E h w) = None \<and> vw (snd (os_close E h w)) = close_set {h} (vw w)"
proof -
  obtain r w' where "os_close E h w = (r, w')" by (rule prod.exhaust)
  with assms show ?thesis by (cases r) (auto dest: calm_close close_fault close_ok)
qed

lemma close_handle_calm:
  "calm (snd (close_handle E c w)) \<Longrightarrow>
     calm w \<and> fst (close_handle E c w) = None \<and> vw (snd (close_handle E c w)) = close_set (opt_set [c]) (vw w)"
  by (cases c) (auto simp: close_handle_def close_set_def dest: os_close_calm)

lemma close_all_calm:
  "calm (snd (XdpClose (map (close_handle E) cs) w)) \<Longrightarrow>
     calm w \<and> fst (XdpClose (map (close_handle E) cs) w) = None \<and>
     vw (snd (XdpClose (map (close_handle E) cs) w)) = close_set (opt_set cs) (vw w)"
proof (induction cs arbitrary: w)
  case Nil
  then show ?case by (simp add: close_set_def)
next
  case (Cons c cs)
  obtain r w' where c: "close_handle E c w = (r, w')" by (rule prod.exhaust)
  have calm': "calm w'"
    using Cons.prems Cons.IH [of w'] c by (auto split: option.splits)
  with close_handle_calm [of c w] c have one: "calm w" "r = None" "vw w' = close_set (opt_set [c]) (vw w)" by auto
  moreover have "opt_set (c # cs) = opt_set [c] \<union> opt_set cs"
    by (auto simp: opt_set_def)
  ultimately show ?case
    using Cons c by (auto simp: close_set_close_set)
qed

lemmas objects_calm =
  close_all_calm [of "xdp_handles obj" for obj, folded objects_Close_flat]
  close_all_calm [of "tc_handles obj" for obj, folded objects_Close_flat]
  close_all_calm [of "so_handles obj" for obj, folded objects_Close_flat]
  close_all_calm [of "sk_handles obj" for obj, folded objects_Close_flat]

lemma remove_calm:
  assumes "calm (snd (os_remove E p w))"
  shows "calm w \<and> vw (snd (os_remove E p w)) = del_pin p (vw w)"
proof -
  obtain r w' where r: "os_remove E p w = (r, w')" by (rule prod.exhaust)
  show ?thesis
  proof (cases r)
    case (Some e)
    then have "p \<notin> vw_pins (vw w)" using r assms remove_fault by auto
    then have "del_pin p (vw w) = vw w" by (simp add: del_pin_def)
    with Some r assms show ?thesis by (auto dest: calm_remove remove_fail)
  qed (use r assms in \<open>auto dest: calm_remove remove_ok\<close>)
qed

lemma qdisc_del_calm:
  assumes "calm (snd (os_run E [''tc'', ''qdisc'', ''del'', ''dev'', i, ''clsact''] w))" (is "calm (snd (os_run E ?args w))")
  shows "calm w \<and> vw (snd (os_run E ?args w)) = del_qdisc i (vw w)"
proof -
  obtain r w' where r: "os_run E ?args w = (r, w')" by (rule prod.exhaust)
  show ?thesis
  proof (cases r)
    case None
    with r have "vw w' = del_qdisc i (vw w)" using run_ok by (simp add: run_effect_qdisc_del)
    with r assms show ?thesis by (simp add: calm_run [OF r])
  next
    case (Some e)
    then have "i \<notin> vw_clsact (vw w) \<union> vw_filters (vw w)" using r assms qdisc_fault by auto
    then have "del_qdisc i (vw w) = vw w" by (simp add: del_qdisc_def)
    with Some r assms run_fail [of ?args w e w'] show ?thesis by (simp add: calm_run [OF r])
  qed
qed

lemma detach_calm:
  assumes "calm (snd (os_raw_detach E t p w))"
  shows "calm w \<and> vw (snd (os_raw_detach E t p w)) = (vw w)\<lparr>vw_verdicts := vw_verdicts (vw w) - {(t, p)}\<rparr>"
proof -
  obtain r w' where r: "os_raw_detach E t p w = (r, w')" by (rule prod.exhaust)
  show ?thesis
  proof (cases r)
    case (Some e)
    then have "(t, p) \<notin> vw_verdicts (vw w)" using r assms detach_fault by auto
    then have "(vw w)\<lparr>vw_verdicts := vw_verdicts (vw w) - {(t, p)}\<rparr> = vw w" by simp
    with Some r assms show ?thesis by (auto dest: calm_detach detach_fail)
  qed (use r assms in \<open>auto dest: calm_detach detach_ok\<close>)
qed

lemmas cleanup_calm = os_close_calm close_handle_calm objects_calm remove_calm qdisc_del_calm detach_calm

end

end
