(* ===== verification/Loader_Lifecycle.thy ===== *)
theory Loader_Lifecycle
  imports Loader Bindings
begin

text \<open>
  The life cycle of the loader, \<^verbatim>\<open>pkg/bpf/loader.go\<close>: \<^verbatim>\<open>NewFirewallLoader\<close> loads and attaches the XDP and TC programs,
  \<^verbatim>\<open>LoadSockops\<close> adds the socket programs, \<^verbatim>\<open>Close\<close> releases everything. Each is a function on the world of the system
  calls, with every early return and the clean-up before it. The warning printed when the TC program cannot be pinned
  is not recorded.
\<close>

section \<open>The loader\<close>

record FirewallLoader =
  fl_ifaceName :: string
  fl_iface :: int
  fl_objs :: xdpObjects
  fl_tcObjs :: tcObjects
  fl_sockopsObjs :: sockopsObjects
  fl_skmsgObjs :: skmsgObjects
  fl_xdpLink :: "handle option"
  fl_sockopsLink :: "handle option"
  fl_tcPinPath :: string
  fl_sockHashPinPath :: string
  fl_ringReader :: "handle option"
  fl_sockopsEnabled :: bool

datatype lifecycle_error =
    MemlockFailed string
  | InterfaceNotFound string string
  | LoadXdpFailed string
  | AttachXdpFailed string string
  | LoadTcFailed string
  | RingReaderFailed string
  | LoadSockopsFailed string
  | PinSockHashFailed string string
  | LoadSkmsgFailed string
  | AttachSockopsFailed string string
  | AttachSkmsgFailed string

fun lifecycle_error_text :: "lifecycle_error \<Rightarrow> string" where
  "lifecycle_error_text (MemlockFailed e) = ''failed to remove memlock rlimit: '' @ e"
| "lifecycle_error_text (InterfaceNotFound i e) = ''failed to find network interface '' @ i @ '': '' @ e"
| "lifecycle_error_text (LoadXdpFailed e) = ''failed to load XDP objects: '' @ e"
| "lifecycle_error_text (AttachXdpFailed i e) = ''failed to attach XDP program to '' @ i @ '': '' @ e"
| "lifecycle_error_text (LoadTcFailed e) = ''failed to load TC conntrack objects: '' @ e"
| "lifecycle_error_text (RingReaderFailed e) = ''failed to create ringbuf reader: '' @ e"
| "lifecycle_error_text (LoadSockopsFailed e) = ''failed to load sockops objects: '' @ e"
| "lifecycle_error_text (PinSockHashFailed p e) = ''failed to pin sock_hash map to '' @ p @ '': '' @ e"
| "lifecycle_error_text (LoadSkmsgFailed e) = ''failed to load skmsg objects with shared maps: '' @ e"
| "lifecycle_error_text (AttachSockopsFailed c e) = ''failed to attach sockops to cgroup '' @ c @ '': '' @ e"
| "lifecycle_error_text (AttachSkmsgFailed e) = ''failed to attach sk_msg to sock_hash: '' @ e"

text \<open>The struct literal of \<^verbatim>\<open>NewFirewallLoader\<close>; the fields it leaves out are zero, so every handle is nil.\<close>

definition tc_pin_path :: "string \<Rightarrow> string" where
  "tc_pin_path ifaceName = ''/sys/fs/bpf/tc_fw_'' @ ifaceName"

definition sock_hash_path :: string where
  "sock_hash_path = ''/sys/fs/bpf/sock_hash''"

definition fresh_loader :: "string \<Rightarrow> int \<Rightarrow> FirewallLoader" where
  "fresh_loader ifaceName index =
     \<lparr>fl_ifaceName = ifaceName, fl_iface = index,
      fl_objs = xdp_assign Map.empty, fl_tcObjs = tc_assign Map.empty,
      fl_sockopsObjs = sockops_assign Map.empty, fl_skmsgObjs = skmsg_assign Map.empty,
      fl_xdpLink = None, fl_sockopsLink = None,
      fl_tcPinPath = tc_pin_path ifaceName, fl_sockHashPinPath = [],
      fl_ringReader = None, fl_sockopsEnabled = False\<rparr>"

section \<open>Opening\<close>

text \<open>Generic mode first, then the driver's default.\<close>

definition attach_xdp :: "'o os \<Rightarrow> handle option \<Rightarrow> int \<Rightarrow> 'o \<Rightarrow> (string + handle) \<times> 'o" where
  "attach_xdp E prog index w =
     (case os_attach_xdp E prog index True w of
        (Inr l, w1) \<Rightarrow> (Inr l, w1)
      | (Inl _, w1) \<Rightarrow> os_attach_xdp E prog index False w1)"

definition mount_cgroup :: "'o os \<Rightarrow> 'o \<Rightarrow> 'o" where
  "mount_cgroup E w =
     (case os_stat E ''/sys/fs/cgroup/cgroup.procs'' w of
        None \<Rightarrow> w
      | Some _ \<Rightarrow> snd (os_run E [''mount'', ''-t'', ''cgroup2'', ''none'', ''/sys/fs/cgroup''] w))"

text \<open>The file system for pins, the pin, the queueing discipline and the filter; every error is ignored.\<close>

definition provision_tc :: "'o os \<Rightarrow> string \<Rightarrow> string \<Rightarrow> handle option \<Rightarrow> 'o \<Rightarrow> 'o" where
  "provision_tc E ifaceName tcPinPath prog w =
     (let w1 = snd (os_mkdirall E ''/sys/fs/bpf'' w);
          w2 = snd (os_run E [''mount'', ''-t'', ''bpf'', ''bpffs'', ''/sys/fs/bpf''] w1);
          w3 = snd (os_remove E tcPinPath w2);
          w4 = snd (os_pin E prog tcPinPath w3);
          w5 = snd (os_run E [''tc'', ''qdisc'', ''add'', ''dev'', ifaceName, ''clsact''] w4)
      in case os_run E [''tc'', ''filter'', ''add'', ''dev'', ifaceName, ''ingress'', ''bpf'', ''da'',
                        ''object-pinned'', tcPinPath] w5 of
           (None, w6) \<Rightarrow> w6
         | (Some _, w6) \<Rightarrow>
             snd (os_run E [''tc'', ''filter'', ''add'', ''dev'', ifaceName, ''ingress'', ''bpf'', ''da'',
                            ''obj'', ''pkg/bpf/tc_bpf.o'', ''sec'', ''tc''] w6))"

definition NewFirewallLoader ::
  "'o os \<Rightarrow> string \<Rightarrow> 'o \<Rightarrow> (lifecycle_error + FirewallLoader) \<times> 'o" where
  "NewFirewallLoader E ifaceName w =
     (case os_memlock E w of
        (Some err, w1) \<Rightarrow> (Inl (MemlockFailed err), w1)
      | (None, w1) \<Rightarrow>
     (case os_interface E ifaceName w1 of
        Inl err \<Rightarrow> (Inl (InterfaceNotFound ifaceName err), w1)
      | Inr index \<Rightarrow>
     (let loader = fresh_loader ifaceName index; w2 = mount_cgroup E w1 in
      case loadXdpObjects E [] w2 of
        (Inl err, w3) \<Rightarrow> (Inl (LoadXdpFailed err), w3)
      | (Inr objs, w3) \<Rightarrow>
     (case attach_xdp E (XdpFirewallFunc (xdp_programs objs)) index w3 of
        (Inl err, w4) \<Rightarrow> (Inl (AttachXdpFailed ifaceName err), snd (xdpObjects_Close E objs w4))
      | (Inr l, w4) \<Rightarrow>
     (case loadTcObjects E [] w4 of
        (Inl err, w5) \<Rightarrow> (Inl (LoadTcFailed err), snd (xdpObjects_Close E objs (snd (os_close E l w5))))
      | (Inr tcObjs, w5) \<Rightarrow>
     (let w6 = provision_tc E ifaceName (fl_tcPinPath loader) (TcFirewallFunc (tc_programs tcObjs)) w5 in
      case os_new_reader E (AuditRingbuf (xdp_maps objs)) w6 of
        (Inl err, w7) \<Rightarrow>
          (Inl (RingReaderFailed err),
           snd (xdpObjects_Close E objs (snd (tcObjects_Close E tcObjs (snd (os_close E l w7))))))
      | (Inr reader, w7) \<Rightarrow>
          (Inr (loader\<lparr>fl_objs := objs, fl_xdpLink := Some l, fl_tcObjs := tcObjs,
                       fl_ringReader := Some reader\<rparr>), w7)))))))"

text \<open>\<^verbatim>\<open>LoadSockops\<close> changes the loader also when it fails: the fields it has set by then keep their values.\<close>

definition LoadSockops ::
  "'o os \<Rightarrow> string \<Rightarrow> FirewallLoader \<Rightarrow> 'o \<Rightarrow> lifecycle_error option \<times> FirewallLoader \<times> 'o" where
  "LoadSockops E cgroupPath l w =
     (let ring = AuditRingbuf (xdp_maps (fl_objs l)) in
      case loadSockopsObjects E [(''audit_ringbuf'', ring)] w of
        (Inl err, w1) \<Rightarrow> (Some (LoadSockopsFailed err), l, w1)
      | (Inr sockopsObjs, w1) \<Rightarrow>
     (let l1 = l\<lparr>fl_sockopsObjs := sockopsObjs, fl_sockHashPinPath := sock_hash_path\<rparr>;
          sockHash = SockHash (so_maps sockopsObjs);
          w2 = snd (os_remove E sock_hash_path w1)
      in case os_pin E sockHash sock_hash_path w2 of
        (Some err, w3) \<Rightarrow>
          (Some (PinSockHashFailed sock_hash_path err), l1, snd (sockopsObjects_Close E sockopsObjs w3))
      | (None, w3) \<Rightarrow>
     (case loadSkmsgObjects E
             [(''sock_hash'', sockHash), (''sockops_stats_map'', SockopsStatsMap (so_maps sockopsObjs)),
              (''audit_ringbuf'', ring)] w3 of
        (Inl err, w4) \<Rightarrow>
          (Some (LoadSkmsgFailed err), l1,
           snd (os_remove E sock_hash_path (snd (sockopsObjects_Close E sockopsObjs w4))))
      | (Inr skmsgObjs, w4) \<Rightarrow>
     (let l2 = l1\<lparr>fl_skmsgObjs := skmsgObjs\<rparr> in
      case os_attach_cgroup E cgroupPath (SockopsIdentityFunc (so_programs sockopsObjs)) w4 of
        (Inl err, w5) \<Rightarrow>
          (Some (AttachSockopsFailed cgroupPath err), l2,
           snd (os_remove E sock_hash_path (snd (sockopsObjects_Close E sockopsObjs
             (snd (skmsgObjects_Close E skmsgObjs w5))))))
      | (Inr sockopsLink, w5) \<Rightarrow>
     (let l3 = l2\<lparr>fl_sockopsLink := Some sockopsLink\<rparr> in
      case os_raw_attach E sockHash (ProxyRedirectFunc (sk_programs skmsgObjs)) w5 of
        (Some err, w6) \<Rightarrow>
          (Some (AttachSkmsgFailed err), l3,
           snd (os_remove E sock_hash_path (snd (sockopsObjects_Close E sockopsObjs
             (snd (skmsgObjects_Close E skmsgObjs (snd (os_close E sockopsLink w6))))))))
      | (None, w6) \<Rightarrow> (None, l3\<lparr>fl_sockopsEnabled := True\<rparr>, w6))))))"

definition IsSockopsEnabled :: "FirewallLoader \<Rightarrow> bool" where
  "IsSockopsEnabled l = fl_sockopsEnabled l"

section \<open>Closing\<close>

definition detach_skmsg :: "'o os \<Rightarrow> FirewallLoader \<Rightarrow> 'o \<Rightarrow> 'o" where
  "detach_skmsg E l w =
     (let sockHash = SockHash (so_maps (fl_sockopsObjs l));
          prog = ProxyRedirectFunc (sk_programs (fl_skmsgObjs l))
      in if fl_sockopsEnabled l \<and> sockHash \<noteq> None \<and> prog \<noteq> None
         then snd (os_raw_detach E sockHash prog w) else w)"

definition remove_path :: "'o os \<Rightarrow> string \<Rightarrow> 'o \<Rightarrow> 'o" where
  "remove_path E p w = (if p \<noteq> [] then snd (os_remove E p w) else w)"

definition Close :: "'o os \<Rightarrow> FirewallLoader \<Rightarrow> 'o \<Rightarrow> string option \<times> 'o" where
  "Close E l w =
     (let w1 = snd (close_handle E (fl_ringReader l) w);
          w2 = snd (close_handle E (fl_xdpLink l) w1);
          w3 = snd (os_run E [''tc'', ''qdisc'', ''del'', ''dev'', fl_ifaceName l, ''clsact''] w2);
          w4 = remove_path E (fl_tcPinPath l) w3;
          w5 = detach_skmsg E l w4;
          w6 = snd (close_handle E (fl_sockopsLink l) w5);
          w7 = remove_path E (fl_sockHashPinPath l) w6;
          w8 = snd (skmsgObjects_Close E (fl_skmsgObjs l) w7);
          w9 = snd (sockopsObjects_Close E (fl_sockopsObjs l) w8);
          w10 = snd (tcObjects_Close E (fl_tcObjs l) w9)
      in xdpObjects_Close E (fl_objs l) w10)"

section \<open>What opening leaves\<close>

text \<open>What is left when the pin, the queueing discipline and the filter of an interface are taken away.\<close>

definition scrub :: "string \<Rightarrow> os_view \<Rightarrow> os_view" where
  "scrub i v = del_pin (tc_pin_path i) (del_qdisc i v)"

definition loader_handles :: "FirewallLoader \<Rightarrow> handle set" where
  "loader_handles l =
     opt_set (xdp_handles (fl_objs l) @ tc_handles (fl_tcObjs l) @ so_handles (fl_sockopsObjs l) @
              sk_handles (fl_skmsgObjs l) @ [fl_xdpLink l, fl_sockopsLink l, fl_ringReader l])"

text \<open>The programs, maps, links and readers of the packet path are there.\<close>

definition attached :: "FirewallLoader \<Rightarrow> bool" where
  "attached l \<longleftrightarrow>
     None \<notin> set (xdp_handles (fl_objs l) @ tc_handles (fl_tcObjs l)) \<and> fl_xdpLink l \<noteq> None \<and> fl_ringReader l \<noteq> None"

lemma view_ops_simps [simp]:
  "vw_open (open_set H v) = vw_open v \<union> H" "vw_pins (open_set H v) = vw_pins v"
  "vw_clsact (open_set H v) = vw_clsact v" "vw_filters (open_set H v) = vw_filters v"
  "vw_verdicts (open_set H v) = vw_verdicts v"
  "vw_open (close_set H v) = vw_open v - H" "vw_pins (close_set H v) = vw_pins v"
  "vw_clsact (close_set H v) = vw_clsact v" "vw_filters (close_set H v) = vw_filters v"
  "vw_verdicts (close_set H v) = vw_verdicts v"
  "vw_open (del_pin p v) = vw_open v" "vw_pins (del_pin p v) = vw_pins v - {p}"
  "vw_clsact (del_pin p v) = vw_clsact v" "vw_filters (del_pin p v) = vw_filters v"
  "vw_verdicts (del_pin p v) = vw_verdicts v"
  "vw_open (del_qdisc i v) = vw_open v" "vw_pins (del_qdisc i v) = vw_pins v"
  "vw_clsact (del_qdisc i v) = vw_clsact v - {i}" "vw_filters (del_qdisc i v) = vw_filters v - {i}"
  "vw_verdicts (del_qdisc i v) = vw_verdicts v"
  by (simp_all add: open_set_def close_set_def del_pin_def del_qdisc_def)

lemma view_eqI:
  "vw_open v = vw_open v' \<Longrightarrow> vw_pins v = vw_pins v' \<Longrightarrow> vw_clsact v = vw_clsact v' \<Longrightarrow>
   vw_filters v = vw_filters v' \<Longrightarrow> vw_verdicts v = vw_verdicts v' \<Longrightarrow> v = (v' :: os_view)"
  by simp

lemma fresh_loader_handles [simp]: "loader_handles (fresh_loader i n) = {}"
  by (simp add: loader_handles_def fresh_loader_def xdp_handles_def xdp_assign_def tc_handles_def tc_assign_def
        so_handles_def sockops_assign_def sk_handles_def skmsg_assign_def)


lemma tc_pin_path_neq [simp]: "tc_pin_path i \<noteq> []" "[] \<noteq> tc_pin_path i" "tc_pin_path i \<noteq> sock_hash_path"
  "sock_hash_path \<noteq> tc_pin_path i"
  by (simp_all add: tc_pin_path_def sock_hash_path_def)

lemma sock_hash_path_neq [simp]: "sock_hash_path \<noteq> []" "[] \<noteq> sock_hash_path"
  by (simp_all add: sock_hash_path_def)

lemma scrub_simps:
  "scrub i (open_set H v) = open_set H (scrub i v)" "scrub i (close_set H v) = close_set H (scrub i v)"
  "scrub i (del_pin (tc_pin_path i) v) = scrub i v" "scrub i (del_qdisc i v) = scrub i v"
  "scrub i (v\<lparr>vw_pins := insert (tc_pin_path i) (vw_pins v)\<rparr>) = scrub i v"
  "scrub i (v\<lparr>vw_clsact := insert i (vw_clsact v)\<rparr>) = scrub i v"
  "scrub i (v\<lparr>vw_filters := insert i (vw_filters v)\<rparr>) = scrub i v"
  by (simp_all add: scrub_def del_pin_def del_qdisc_def open_set_def close_set_def)

lemma run_effect_simps:
  "run_effect [''mount'', a, b, c, d] v = v"
  "run_effect [''tc'', ''qdisc'', ''add'', ''dev'', i, ''clsact''] v = v\<lparr>vw_clsact := insert i (vw_clsact v)\<rparr>"
  "run_effect (''tc'' # ''filter'' # ''add'' # ''dev'' # i # ''ingress'' # x # xs) v =
     v\<lparr>vw_filters := insert i (vw_filters v)\<rparr>"
  by (simp_all add: run_effect_def classify_def)

lemma close_opened: "H \<inter> vw_open v = {} \<Longrightarrow> close_set H (open_set H v) = v"
  by (rule view_eqI) auto

text \<open>All but the open handles.\<close>

definition but_open :: "os_view \<Rightarrow> os_view" where
  "but_open v = v\<lparr>vw_open := {}\<rparr>"

lemma rest_simps: "but_open (open_set H v) = but_open v" "but_open (close_set H v) = but_open v"
  by (simp_all add: but_open_def open_set_def close_set_def)

lemma rest_fields: "vw_filters (but_open v) = vw_filters v" "vw_pins (but_open v) = vw_pins v"
  by (simp_all add: but_open_def)

lemma rest_commute: "but_open (scrub i v) = scrub i (but_open v)" "but_open (del_pin p v) = del_pin p (but_open v)"
  by (simp_all add: but_open_def scrub_def del_pin_def del_qdisc_def)

lemma rest_open: "but_open v' = but_open v \<Longrightarrow> vw_open v \<subseteq> vw_open v' \<Longrightarrow> v' = open_set (vw_open v' - vw_open v) v"
  by (cases v; cases v') (auto simp: but_open_def open_set_def)

text \<open>A loader on which \<^verbatim>\<open>LoadSockops\<close> was not called.\<close>

definition no_sockops :: "FirewallLoader \<Rightarrow> bool" where
  "no_sockops l \<longleftrightarrow>
     opt_set (so_handles (fl_sockopsObjs l) @ sk_handles (fl_skmsgObjs l)) = {} \<and>
     fl_sockopsLink l = None \<and> fl_sockHashPinPath l = [] \<and> \<not> fl_sockopsEnabled l"

context os_contract
begin

lemma load_assigned:
  assumes "map_prod (map_sum id f) id (os_load_assign E b ns opts w) = (Inr x, w')"
  obtains m where "x = f m" "dom m = set ns" "ran m \<inter> vw_open (vw w) = {}" "vw w' = open_set (ran m) (vw w)"
proof -
  obtain r w1 where "os_load_assign E b ns opts w = (r, w1)" by (rule prod.exhaust)
  then show thesis
    using assms that load_ok by (cases r) auto
qed

lemma load_refused:
  assumes "map_prod (map_sum id f) id (os_load_assign E b ns opts w) = (Inl e, w')"
  shows "vw w' = vw w"
proof -
  obtain r w1 where "os_load_assign E b ns opts w = (r, w1)" by (rule prod.exhaust)
  then show ?thesis
    using assms load_fail by (cases r) auto
qed

lemma loaded:
  "loadXdpObjects E opts w = (Inr xo, w') \<Longrightarrow>
     None \<notin> set (xdp_handles xo) \<and> opt_set (xdp_handles xo) \<inter> vw_open (vw w) = {} \<and>
     vw w' = open_set (opt_set (xdp_handles xo)) (vw w)"
  "loadTcObjects E opts w = (Inr co, w') \<Longrightarrow>
     None \<notin> set (tc_handles co) \<and> opt_set (tc_handles co) \<inter> vw_open (vw w) = {} \<and>
     vw w' = open_set (opt_set (tc_handles co)) (vw w)"
  "loadSockopsObjects E opts w = (Inr so, w') \<Longrightarrow>
     None \<notin> set (so_handles so) \<and> opt_set (so_handles so) \<inter> vw_open (vw w) = {} \<and>
     vw w' = open_set (opt_set (so_handles so)) (vw w)"
  "loadSkmsgObjects E opts w = (Inr sk, w') \<Longrightarrow>
     None \<notin> set (sk_handles sk) \<and> opt_set (sk_handles sk) \<inter> vw_open (vw w) = {} \<and>
     vw w' = open_set (opt_set (sk_handles sk)) (vw w)"
  unfolding loadXdpObjects_def loadTcObjects_def loadSockopsObjects_def loadSkmsgObjects_def
  by (auto split: option.splits elim!: load_assigned simp: assigned_non_nil assigned_handles)

lemma loaded_sockops:
  assumes "loadSockopsObjects E opts w = (Inr so, w')"
  shows "None \<notin> set (so_handles so) \<and> opt_set (so_handles so) \<inter> vw_open (vw w) = {} \<and>
    vw w' = open_set (opt_set (so_handles so)) (vw w) \<and> (\<forall>p. (SockHash (so_maps so), p) \<notin> vw_verdicts (vw w))"
proof -
  obtain m where m: "os_load_assign E SockopsBytes sockopsNames opts w = (Inr m, w')" "so = sockops_assign m"
    using assms unfolding loadSockopsObjects_def
    by (cases "os_load_assign E SockopsBytes sockopsNames opts w"; cases "fst (os_load_assign E SockopsBytes sockopsNames opts w)")
      (auto split: option.splits)
  have "SockHash (so_maps so) \<in> m ` dom m"
    using load_ok [OF m(1)] by (simp add: m(2) sockops_assign_def sockopsNames_def)
  then obtain h where "SockHash (so_maps so) = Some h" "h \<in> ran m"
    by (force simp: ran_def)
  then show ?thesis
    using loaded(3) [OF assms] load_new [OF m(1)] by simp
qed

lemma not_loaded:
  "loadXdpObjects E opts w = (Inl e, w') \<Longrightarrow> vw w' = vw w"
  "loadTcObjects E opts w = (Inl e, w') \<Longrightarrow> vw w' = vw w"
  "loadSockopsObjects E opts w = (Inl e, w') \<Longrightarrow> vw w' = vw w"
  "loadSkmsgObjects E opts w = (Inl e, w') \<Longrightarrow> vw w' = vw w"
  unfolding loadXdpObjects_def loadTcObjects_def loadSockopsObjects_def loadSkmsgObjects_def
  by (auto split: option.splits dest: load_refused)

lemma attach_xdp_ok:
  "attach_xdp E p i w = (Inr h, w') \<Longrightarrow> h \<notin> vw_open (vw w) \<and> vw w' = open_set {h} (vw w)"
  by (auto simp: attach_xdp_def split: prod.splits sum.splits dest!: xdp_ok xdp_fail)

lemma attach_xdp_fail: "attach_xdp E p i w = (Inl e, w') \<Longrightarrow> vw w' = vw w"
  by (auto simp: attach_xdp_def split: prod.splits sum.splits dest!: xdp_fail)

lemma mount_view: "vw (snd (os_run E [''mount'', a, b, c, d] w)) = vw w"
  using run_ok run_fail by (metis option.exhaust prod.collapse run_effect_simps(1))

lemma mount_cgroup_view [simp]: "vw (mount_cgroup E w) = vw w"
  by (simp add: mount_cgroup_def mount_view split: option.splits)

lemma run_frame: "f (run_effect args (vw w)) = f (vw w) \<Longrightarrow> f (vw (snd (os_run E args w))) = f (vw w)"
  using run_ok run_fail by (metis option.exhaust prod.collapse)

lemma pin_frame:
  "f ((vw w)\<lparr>vw_pins := insert p (vw_pins (vw w))\<rparr>) = f (vw w) \<Longrightarrow> f (vw (snd (os_pin E h p w))) = f (vw w)"
  using pin_ok pin_fail by (metis option.exhaust prod.collapse)

lemma remove_frame: "f (del_pin p (vw w)) = f (vw w) \<Longrightarrow> f (vw (snd (os_remove E p w))) = f (vw w)"
  using remove_ok remove_fail by (metis option.exhaust prod.collapse)

lemma provision_tc_scrub: "scrub i (vw (provision_tc E i (tc_pin_path i) p w)) = scrub i (vw w)"
proof -
  have m: "vw (snd (os_mkdirall E d w)) = vw w" for d w
    using mkdirall by (metis prod.collapse)
  show ?thesis
    unfolding provision_tc_def Let_def
    by (auto simp: m mount_view run_frame [where f = "scrub i"] pin_frame [where f = "scrub i"]
          remove_frame [where f = "scrub i"] run_effect_simps scrub_simps split: prod.splits option.splits dest!: run_ok run_fail)
qed


lemma provision_tc_open:
  "vw_open (vw (provision_tc E i path p w)) = vw_open (vw w)"
  "vw_verdicts (vw (provision_tc E i path p w)) = vw_verdicts (vw w)"
proof -
  have m: "vw (snd (os_mkdirall E d w)) = vw w" for d w
    using mkdirall by (metis prod.collapse)
  note frames = m mount_view run_frame [where f = vw_open] pin_frame [where f = vw_open] remove_frame [where f = vw_open]
    run_frame [where f = vw_verdicts] pin_frame [where f = vw_verdicts] remove_frame [where f = vw_verdicts]
    run_effect_simps
  show "vw_open (vw (provision_tc E i path p w)) = vw_open (vw w)"
    unfolding provision_tc_def Let_def
    by (auto simp: frames split: prod.splits option.splits dest!: run_ok run_fail)
  show "vw_verdicts (vw (provision_tc E i path p w)) = vw_verdicts (vw w)"
    unfolding provision_tc_def Let_def
    by (auto simp: frames split: prod.splits option.splits dest!: run_ok run_fail)
qed

lemma new_no_sockops: "NewFirewallLoader E i w = (Inr l, w') \<Longrightarrow> no_sockops l"
  by (auto simp: NewFirewallLoader_def Let_def fresh_loader_def no_sockops_def so_handles_def sockops_assign_def
        sk_handles_def skmsg_assign_def split: prod.splits option.splits sum.splits)

lemma opened_keeps:
  assumes "NewFirewallLoader E i w = (Inr l, w')"
  shows "\<exists>p w5. vw_filters (vw w') = vw_filters (vw (provision_tc E i (tc_pin_path i) p w5)) \<and>
    vw_pins (vw w') = vw_pins (vw (provision_tc E i (tc_pin_path i) p w5))"
  using assms
  by (auto simp: NewFirewallLoader_def Let_def fresh_loader_def
       split: prod.splits option.splits sum.splits dest!: reader_ok) blast

lemma new_loader_ok:
  assumes "NewFirewallLoader E i w = (Inr l, w')"
  shows "attached l" "fl_ifaceName l = i" "fl_tcPinPath l = tc_pin_path i" "fl_sockHashPinPath l = []"
    "\<not> fl_sockopsEnabled l" "loader_handles l \<inter> vw_open (vw w) = {}"
    "vw_open (vw w') = vw_open (vw w) \<union> loader_handles l"
    "scrub i (vw w') = open_set (loader_handles l) (scrub i (vw w))"
proof -
  obtain index objs w3 lk w4 tcObjs w5 rd where
    xo: "vw w3 = open_set (opt_set (xdp_handles objs)) (vw w)" "None \<notin> set (xdp_handles objs)"
      "opt_set (xdp_handles objs) \<inter> vw_open (vw w) = {}" and
    lk: "vw w4 = open_set {lk} (vw w3)" "lk \<notin> vw_open (vw w3)" and
    co: "vw w5 = open_set (opt_set (tc_handles tcObjs)) (vw w4)" "None \<notin> set (tc_handles tcObjs)"
      "opt_set (tc_handles tcObjs) \<inter> vw_open (vw w4) = {}" and
    rd: "vw w' = open_set {rd} (vw (provision_tc E i (tc_pin_path i) (TcFirewallFunc (tc_programs tcObjs)) w5))"
      "rd \<notin> vw_open (vw (provision_tc E i (tc_pin_path i) (TcFirewallFunc (tc_programs tcObjs)) w5))" and
    l: "l = (fresh_loader i index)\<lparr>fl_objs := objs, fl_xdpLink := Some lk, fl_tcObjs := tcObjs,
                       fl_ringReader := Some rd\<rparr>"
    using assms
    by (auto simp: NewFirewallLoader_def Let_def fresh_loader_def split: prod.splits option.splits sum.splits
         dest!: memlock loaded attach_xdp_ok reader_ok)
  show "attached l" "fl_ifaceName l = i" "fl_tcPinPath l = tc_pin_path i" "fl_sockHashPinPath l = []"
    "\<not> fl_sockopsEnabled l"
    using xo co by (simp_all add: l attached_def fresh_loader_def)
  have h: "loader_handles l = opt_set (xdp_handles objs) \<union> opt_set (tc_handles tcObjs) \<union> {lk, rd}"
    using fresh_loader_handles [of i index]
    by (auto simp: l loader_handles_def fresh_loader_def)
  show "loader_handles l \<inter> vw_open (vw w) = {}" "vw_open (vw w') = vw_open (vw w) \<union> loader_handles l"
    using xo lk co rd by (auto simp: h provision_tc_open)
  show "scrub i (vw w') = open_set (loader_handles l) (scrub i (vw w))"
    unfolding h rd scrub_simps provision_tc_scrub co lk xo by (simp add: open_set_def Un_ac insert_commute)
qed

lemma remove_either: "vw (snd (os_remove E p w)) = vw w \<or> vw (snd (os_remove E p w)) = del_pin p (vw w)"
  using remove_ok [of p w] remove_fail [of p w] by (metis option.exhaust prod.collapse)

lemma sockops_ok:
  assumes "LoadSockops E c l w = (None, l', w')"
  shows "fl_sockopsEnabled l'"
    "None \<notin> set (so_handles (fl_sockopsObjs l') @ sk_handles (fl_skmsgObjs l'))" "fl_sockopsLink l' \<noteq> None"
    "l' = l\<lparr>fl_sockopsObjs := fl_sockopsObjs l', fl_skmsgObjs := fl_skmsgObjs l', fl_sockopsLink := fl_sockopsLink l',
            fl_sockHashPinPath := sock_hash_path, fl_sockopsEnabled := True\<rparr>"
    "vw w' = (open_set (opt_set (so_handles (fl_sockopsObjs l') @ sk_handles (fl_skmsgObjs l') @ [fl_sockopsLink l'])) (vw w))
       \<lparr>vw_pins := insert sock_hash_path (vw_pins (vw w)),
        vw_verdicts := insert (SockHash (so_maps (fl_sockopsObjs l')), ProxyRedirectFunc (sk_programs (fl_skmsgObjs l')))
           (vw_verdicts (vw w))\<rparr>"
    "opt_set (so_handles (fl_sockopsObjs l') @ sk_handles (fl_skmsgObjs l') @ [fl_sockopsLink l']) \<inter> vw_open (vw w) = {}"
    "(SockHash (so_maps (fl_sockopsObjs l')), ProxyRedirectFunc (sk_programs (fl_skmsgObjs l'))) \<notin> vw_verdicts (vw w)"
proof -
  obtain so w1 w2 sk w3 w4 lk w5 where
    so: "vw w1 = open_set (opt_set (so_handles so)) (vw w)" "None \<notin> set (so_handles so)"
      "opt_set (so_handles so) \<inter> vw_open (vw w) = {}" and
    pin: "vw w3 = (vw w2)\<lparr>vw_pins := insert sock_hash_path (vw_pins (vw w2))\<rparr>" and
    rm: "w2 = snd (os_remove E sock_hash_path w1)" and
    sk: "vw w4 = open_set (opt_set (sk_handles sk)) (vw w3)" "None \<notin> set (sk_handles sk)"
      "opt_set (sk_handles sk) \<inter> vw_open (vw w3) = {}" and
    lk: "vw w5 = open_set {lk} (vw w4)" "lk \<notin> vw_open (vw w4)" and
    new: "\<forall>p. (SockHash (so_maps so), p) \<notin> vw_verdicts (vw w)" and
    raw: "vw w' = (vw w5)\<lparr>vw_verdicts := insert (SockHash (so_maps so), ProxyRedirectFunc (sk_programs sk)) (vw_verdicts (vw w5))\<rparr>" and
    l: "l' = l\<lparr>fl_sockopsObjs := so, fl_sockHashPinPath := sock_hash_path, fl_skmsgObjs := sk, fl_sockopsLink := Some lk,
               fl_sockopsEnabled := True\<rparr>"
    using assms
    by (auto simp: LoadSockops_def Let_def split: prod.splits option.splits sum.splits
         dest!: loaded(4) loaded_sockops pin_ok cgroup_ok raw_ok)
  show "fl_sockopsEnabled l'"
    "None \<notin> set (so_handles (fl_sockopsObjs l') @ sk_handles (fl_skmsgObjs l'))" "fl_sockopsLink l' \<noteq> None"
    "l' = l\<lparr>fl_sockopsObjs := fl_sockopsObjs l', fl_skmsgObjs := fl_skmsgObjs l', fl_sockopsLink := fl_sockopsLink l',
            fl_sockHashPinPath := sock_hash_path, fl_sockopsEnabled := True\<rparr>"
    using so sk by (simp_all add: l)
  have pin': "vw w3 = (vw w1)\<lparr>vw_pins := insert sock_hash_path (vw_pins (vw w1))\<rparr>"
    using pin remove_either [of sock_hash_path w1] unfolding rm by (auto simp: del_pin_def)
  show "vw w' = (open_set (opt_set (so_handles (fl_sockopsObjs l') @ sk_handles (fl_skmsgObjs l') @ [fl_sockopsLink l'])) (vw w))
       \<lparr>vw_pins := insert sock_hash_path (vw_pins (vw w)),
        vw_verdicts := insert (SockHash (so_maps (fl_sockopsObjs l')), ProxyRedirectFunc (sk_programs (fl_skmsgObjs l')))
           (vw_verdicts (vw w))\<rparr>"
    "opt_set (so_handles (fl_sockopsObjs l') @ sk_handles (fl_skmsgObjs l') @ [fl_sockopsLink l']) \<inter> vw_open (vw w) = {}"
    using so pin' sk lk raw by (auto intro!: view_eqI simp: l)
  show "(SockHash (so_maps (fl_sockopsObjs l')), ProxyRedirectFunc (sk_programs (fl_skmsgObjs l'))) \<notin> vw_verdicts (vw w)"
    using new by (simp add: l)
qed

text \<open>A failing \<^verbatim>\<open>NewFirewallLoader\<close> closes no handle that was open before, whatever clean-up calls fail.\<close>

lemma os_close_some: "\<exists>H \<subseteq> {h}. vw (snd (os_close E h w)) = close_set H (vw w)"
  using close_handle_some [of "Some h" w] by (simp add: close_handle_def)

lemma closes_keep:
  "x \<in> vw_open (vw w) \<Longrightarrow> x \<notin> opt_set (xdp_handles xo) \<Longrightarrow> x \<in> vw_open (vw (snd (xdpObjects_Close E xo w)))"
  "x \<in> vw_open (vw w) \<Longrightarrow> x \<notin> opt_set (tc_handles co) \<Longrightarrow> x \<in> vw_open (vw (snd (tcObjects_Close E co w)))"
  "x \<in> vw_open (vw w) \<Longrightarrow> x \<noteq> h \<Longrightarrow> x \<in> vw_open (vw (snd (os_close E h w)))"
  using objects_some(1) [of xo w] objects_some(2) [of co w] os_close_some [of h w] by (fastforce simp: close_set_def)+

lemma new_loader_fail_keeps:
  assumes "NewFirewallLoader E i w = (Inl e, w')"
  shows "vw_open (vw w) \<subseteq> vw_open (vw w')"
  using assms
  by (auto simp: NewFirewallLoader_def Let_def fresh_loader_def provision_tc_open
       split: prod.splits option.splits sum.splits
       dest!: memlock loaded not_loaded attach_xdp_ok attach_xdp_fail reader_fail
       intro!: closes_keep)

lemma closes_rest:
  "but_open (vw (snd (xdpObjects_Close E xo w))) = but_open (vw w)"
  "but_open (vw (snd (tcObjects_Close E co w))) = but_open (vw w)"
  "but_open (vw (snd (os_close E h w))) = but_open (vw w)"
  using objects_some(1) [of xo w] objects_some(2) [of co w] os_close_some [of h w] by (auto simp: rest_simps)

lemma new_loader_fail_rest:
  assumes "NewFirewallLoader E i w = (Inl e, w')"
  shows "if \<exists>m. e = RingReaderFailed m
    then \<exists>p w5. but_open (vw w5) = but_open (vw w) \<and> but_open (vw w') = but_open (vw (provision_tc E i (tc_pin_path i) p w5))
    else but_open (vw w') = but_open (vw w)"
  using assms
  by (auto simp: NewFirewallLoader_def Let_def fresh_loader_def closes_rest
       split: prod.splits option.splits sum.splits
       dest!: memlock loaded not_loaded attach_xdp_ok attach_xdp_fail reader_fail)
    (metis rest_simps(1))+

lemma new_loader_fail_scrub:
  assumes "NewFirewallLoader E i w = (Inl e, w')"
  shows "but_open (scrub i (vw w')) = but_open (scrub i (vw w))"
  using new_loader_fail_rest [OF assms] by (auto simp: rest_commute split: if_splits) (metis provision_tc_scrub rest_commute(1))

lemma sockops_fail_off:
  "LoadSockops E c l w = (Some e, l', w') \<Longrightarrow> fl_sockopsEnabled l' = fl_sockopsEnabled l"
  by (auto simp: LoadSockops_def Let_def split: prod.splits option.splits sum.splits)

text \<open>When closing the program fails, none of its maps is closed.\<close>

lemma xdp_close_stops:
  assumes "XdpFirewallFunc (xdp_programs obj) = Some h" "fst (os_close E h w) = Some e"
  shows "fst (xdpObjects_Close E obj w) = Some e \<and> vw (snd (xdpObjects_Close E obj w)) = vw w"
proof -
  obtain w' where "os_close E h w = (Some e, w')" using assms(2) by (metis prod.collapse)
  then show ?thesis
    using assms(1) close_fail by (simp add: objects_Close_flat xdp_handles_def close_handle_def)
qed

end

text \<open>What a call of \<^verbatim>\<open>Close\<close> leaves, for any loader.\<close>

definition closed_view :: "FirewallLoader \<Rightarrow> os_view \<Rightarrow> os_view" where
  "closed_view l v =
     v\<lparr>vw_open := vw_open v - loader_handles l,
       vw_pins := vw_pins v - ({fl_tcPinPath l, fl_sockHashPinPath l} - {[]}),
       vw_clsact := vw_clsact v - {fl_ifaceName l},
       vw_filters := vw_filters v - {fl_ifaceName l},
       vw_verdicts := vw_verdicts v -
         (if fl_sockopsEnabled l \<and> SockHash (so_maps (fl_sockopsObjs l)) \<noteq> None \<and>
             ProxyRedirectFunc (sk_programs (fl_skmsgObjs l)) \<noteq> None
          then {(SockHash (so_maps (fl_sockopsObjs l)), ProxyRedirectFunc (sk_programs (fl_skmsgObjs l)))} else {})\<rparr>"

lemma opt_set_three: "opt_set [a, b, c] = opt_set [a] \<union> opt_set [b] \<union> opt_set [c]"
  by (auto simp: opt_set_def)

context os_journal
begin

lemma new_loader_fail:
  assumes "NewFirewallLoader E i w = (Inl e, w')" "calm w'"
  shows "vw_open (vw w') = vw_open (vw w)" "scrub i (vw w') = scrub i (vw w)"
    "(\<forall>m. e \<noteq> RingReaderFailed m) \<Longrightarrow> vw w' = vw w"
proof -
  have "(vw_open (vw w') = vw_open (vw w) \<and> scrub i (vw w') = scrub i (vw w)) \<and>
    ((\<forall>m. e \<noteq> RingReaderFailed m) \<longrightarrow> vw w' = vw w)"
    using assms
    by (auto simp: NewFirewallLoader_def Let_def fresh_loader_def scrub_simps provision_tc_scrub
          provision_tc_open close_opened split: prod.splits option.splits sum.splits
         dest!: memlock loaded not_loaded attach_xdp_ok attach_xdp_fail reader_fail cleanup_calm)
      (auto intro!: view_eqI simp: scrub_def)
  then show "vw_open (vw w') = vw_open (vw w)" "scrub i (vw w') = scrub i (vw w)"
    "(\<forall>m. e \<noteq> RingReaderFailed m) \<Longrightarrow> vw w' = vw w"
    by blast+
qed


lemma remove_path_calm:
  "calm (remove_path E p w) \<Longrightarrow> calm w \<and> vw (remove_path E p w) = (if p = [] then vw w else del_pin p (vw w))"
  by (auto simp: remove_path_def dest: remove_calm split: if_splits)

lemma detach_skmsg_calm:
  "calm (detach_skmsg E l w) \<Longrightarrow> calm w \<and> vw (detach_skmsg E l w) =
     (if fl_sockopsEnabled l \<and> SockHash (so_maps (fl_sockopsObjs l)) \<noteq> None \<and>
             ProxyRedirectFunc (sk_programs (fl_skmsgObjs l)) \<noteq> None
      then (vw w)\<lparr>vw_verdicts := vw_verdicts (vw w) -
        {(SockHash (so_maps (fl_sockopsObjs l)), ProxyRedirectFunc (sk_programs (fl_skmsgObjs l)))}\<rparr>
      else vw w)"
  by (auto simp: detach_skmsg_def Let_def dest: detach_calm split: if_splits)

lemma Close_calm:
  assumes "calm (snd (Close E l w))"
  shows "calm w \<and> fst (Close E l w) = None \<and> vw (snd (Close E l w)) = closed_view l (vw w)"
proof -
  define w1 where "w1 = snd (close_handle E (fl_ringReader l) w)"
  define w2 where "w2 = snd (close_handle E (fl_xdpLink l) w1)"
  define w3 where "w3 = snd (os_run E [''tc'', ''qdisc'', ''del'', ''dev'', fl_ifaceName l, ''clsact''] w2)"
  define w4 where "w4 = remove_path E (fl_tcPinPath l) w3"
  define w5 where "w5 = detach_skmsg E l w4"
  define w6 where "w6 = snd (close_handle E (fl_sockopsLink l) w5)"
  define w7 where "w7 = remove_path E (fl_sockHashPinPath l) w6"
  define w8 where "w8 = snd (skmsgObjects_Close E (fl_skmsgObjs l) w7)"
  define w9 where "w9 = snd (sockopsObjects_Close E (fl_sockopsObjs l) w8)"
  define w10 where "w10 = snd (tcObjects_Close E (fl_tcObjs l) w9)"
  note ws = w1_def w2_def w3_def w4_def w5_def w6_def w7_def w8_def w9_def w10_def
  have close: "Close E l w = xdpObjects_Close E (fl_objs l) w10" by (simp add: Close_def Let_def ws)
  have c10: "calm w10 \<and> fst (Close E l w) = None \<and> vw (snd (Close E l w)) = close_set (opt_set (xdp_handles (fl_objs l))) (vw w10)"
    using objects_calm(1) assms unfolding close by blast
  then have c9: "calm w9 \<and> vw w10 = close_set (opt_set (tc_handles (fl_tcObjs l))) (vw w9)"
    unfolding w10_def using objects_calm(2) by blast
  then have c8: "calm w8 \<and> vw w9 = close_set (opt_set (so_handles (fl_sockopsObjs l))) (vw w8)"
    unfolding w9_def using objects_calm(3) by blast
  then have c7: "calm w7 \<and> vw w8 = close_set (opt_set (sk_handles (fl_skmsgObjs l))) (vw w7)"
    unfolding w8_def using objects_calm(4) by blast
  then have c6: "calm w6 \<and> vw w7 = (if fl_sockHashPinPath l = [] then vw w6 else del_pin (fl_sockHashPinPath l) (vw w6))"
    unfolding w7_def using remove_path_calm by blast
  then have c5: "calm w5 \<and> vw w6 = close_set (opt_set [fl_sockopsLink l]) (vw w5)"
    unfolding w6_def using close_handle_calm by blast
  then have c4: "calm w4 \<and> vw w5 = (if fl_sockopsEnabled l \<and> SockHash (so_maps (fl_sockopsObjs l)) \<noteq> None \<and>
             ProxyRedirectFunc (sk_programs (fl_skmsgObjs l)) \<noteq> None
      then (vw w4)\<lparr>vw_verdicts := vw_verdicts (vw w4) -
        {(SockHash (so_maps (fl_sockopsObjs l)), ProxyRedirectFunc (sk_programs (fl_skmsgObjs l)))}\<rparr>
      else vw w4)"
    unfolding w5_def using detach_skmsg_calm by blast
  then have c3: "calm w3 \<and> vw w4 = (if fl_tcPinPath l = [] then vw w3 else del_pin (fl_tcPinPath l) (vw w3))"
    unfolding w4_def using remove_path_calm by blast
  then have c2: "calm w2 \<and> vw w3 = del_qdisc (fl_ifaceName l) (vw w2)"
    unfolding w3_def using qdisc_del_calm by blast
  then have c1: "calm w1 \<and> vw w2 = close_set (opt_set [fl_xdpLink l]) (vw w1)"
    unfolding w2_def using close_handle_calm by blast
  then have c0: "calm w \<and> vw w1 = close_set (opt_set [fl_ringReader l]) (vw w)"
    unfolding w1_def using close_handle_calm by blast
  have "vw (snd (Close E l w)) = closed_view l (vw w)"
    unfolding c10 [THEN conjunct2, THEN conjunct2] c9 [THEN conjunct2] c8 [THEN conjunct2] c7 [THEN conjunct2] c6 [THEN conjunct2]
      c5 [THEN conjunct2] c4 [THEN conjunct2] c3 [THEN conjunct2] c2 [THEN conjunct2] c1 [THEN conjunct2] c0 [THEN conjunct2]
      closed_view_def loader_handles_def opt_set_simps(4) opt_set_three
    by (rule view_eqI) auto
  with c10 c0 show ?thesis by blast
qed

text \<open>What \<^const>\<open>Close\<close> would leave of the world of a new loader.\<close>

lemma new_closed_view:
  assumes "NewFirewallLoader E i w = (Inr l, w')"
  shows "closed_view l (vw w') = scrub i (vw w)"
proof -
  have "closed_view l (vw w') = close_set (loader_handles l) (scrub i (vw w'))"
    using new_loader_ok(2-5) [OF assms]
    by (intro view_eqI) (auto simp: closed_view_def scrub_def)
  also have "\<dots> = scrub i (vw w)"
    using new_loader_ok(6,8) [OF assms]
    by (simp add: close_opened scrub_def)
  finally show ?thesis .
qed

theorem new_then_close:
  assumes "NewFirewallLoader E i w = (Inr l, w')" "calm (snd (Close E l w'))"
  shows "vw (snd (Close E l w')) = scrub i (vw w)"
  using Close_calm [OF assms(2)] new_closed_view [OF assms(1)] by simp

text \<open>The other calls of \<^verbatim>\<open>LoadSockops\<close>, with the way back.\<close>

lemma load_skmsg_calm: "loadSkmsgObjects E opts w = (r, w') \<Longrightarrow> calm w' \<Longrightarrow> calm w"
  by (cases "os_load_assign E SkmsgBytes skmsgNames opts w")
    (auto simp: loadSkmsgObjects_def split: option.splits dest: calm_load)

lemma acquire_calm:
  "loadSkmsgObjects E opts w = (Inr sk, w') \<Longrightarrow>
     None \<notin> set (sk_handles sk) \<and> opt_set (sk_handles sk) \<inter> vw_open (vw w) = {} \<and>
     vw w' = open_set (opt_set (sk_handles sk)) (vw w) \<and> (calm w' \<longrightarrow> calm w)"
  "loadSkmsgObjects E opts w = (Inl e, w') \<Longrightarrow> vw w' = vw w \<and> (calm w' \<longrightarrow> calm w)"
  "os_pin E h p w = (None, w') \<Longrightarrow> vw w' = (vw w)\<lparr>vw_pins := insert p (vw_pins (vw w))\<rparr> \<and> (calm w' \<longrightarrow> calm w)"
  "os_pin E h p w = (Some e, w') \<Longrightarrow> vw w' = vw w \<and> (calm w' \<longrightarrow> calm w)"
  "os_attach_cgroup E c h w = (Inr k, w') \<Longrightarrow> k \<notin> vw_open (vw w) \<and> vw w' = open_set {k} (vw w) \<and> (calm w' \<longrightarrow> calm w)"
  "os_attach_cgroup E c h w = (Inl e, w') \<Longrightarrow> vw w' = vw w \<and> (calm w' \<longrightarrow> calm w)"
  "os_raw_attach E t h w = (Some e, w') \<Longrightarrow> vw w' = vw w \<and> (calm w' \<longrightarrow> calm w)"
  using loaded(4) [of opts w sk w'] not_loaded(4) [of opts w e w'] load_skmsg_calm [of opts w _ w']
    pin_ok [of h p w w'] pin_fail [of h p w e w'] calm_pin [of h p w _ w'] cgroup_ok [of c h w k w'] cgroup_fail [of c h w e w']
    calm_cgroup [of c h w _ w'] raw_fail [of t h w e w'] calm_raw [of t h w _ w']
  by simp_all

lemma sockops_fail_view:
  assumes "LoadSockops E c l w = (Some e, l', w')" "no_sockops l" "calm w'"
  shows "vw w' = (if fl_sockHashPinPath l' = [] then vw w else del_pin sock_hash_path (vw w)) \<and>
    fl_sockHashPinPath l' \<in> {[], sock_hash_path} \<and>
    l' = l\<lparr>fl_sockopsObjs := fl_sockopsObjs l', fl_skmsgObjs := fl_skmsgObjs l', fl_sockopsLink := fl_sockopsLink l',
            fl_sockHashPinPath := fl_sockHashPinPath l'\<rparr> \<and>
    opt_set (so_handles (fl_sockopsObjs l') @ sk_handles (fl_skmsgObjs l') @ [fl_sockopsLink l']) \<inter> vw_open (vw w) = {}"
proof -
  note backward = objects_calm(3,4) os_close_calm remove_calm loaded(3) not_loaded(3) acquire_calm
  note steps = LoadSockops_def no_sockops_def Let_def
  show ?thesis
  proof (cases e)
    case (LoadSockopsFailed m)
    then show ?thesis using assms by (auto simp: steps split: prod.splits option.splits sum.splits dest!: not_loaded(3))
  next
    case (PinSockHashFailed p m)
    show ?thesis using assms unfolding PinSockHashFailed
      by (auto simp: steps split: prod.splits option.splits sum.splits dest!: backward) (rule view_eqI; auto)+
  next
    case (LoadSkmsgFailed m)
    show ?thesis using assms unfolding LoadSkmsgFailed
      by (auto simp: steps split: prod.splits option.splits sum.splits dest!: backward) (rule view_eqI; auto)+
  next
    case (AttachSockopsFailed p m)
    show ?thesis using assms unfolding AttachSockopsFailed
      by (auto simp: steps split: prod.splits option.splits sum.splits dest!: backward) (rule view_eqI; auto)+
  next
    case (AttachSkmsgFailed m)
    show ?thesis using assms unfolding AttachSkmsgFailed
      by (auto simp: steps split: prod.splits option.splits sum.splits dest!: backward) (rule view_eqI; auto)+
  qed (use assms in \<open>auto simp: LoadSockops_def Let_def split: prod.splits option.splits sum.splits\<close>)
qed

lemma sockops_fail:
  assumes "LoadSockops E c l w = (Some e, l', w')" "no_sockops l" "calm w'"
  shows "vw w' = (if fl_sockHashPinPath l' = [] then vw w else del_pin sock_hash_path (vw w))"
    "fl_sockHashPinPath l' \<in> {[], sock_hash_path}"
    "l' = l\<lparr>fl_sockopsObjs := fl_sockopsObjs l', fl_skmsgObjs := fl_skmsgObjs l', fl_sockopsLink := fl_sockopsLink l',
            fl_sockHashPinPath := fl_sockHashPinPath l'\<rparr>"
    "opt_set (so_handles (fl_sockopsObjs l') @ sk_handles (fl_skmsgObjs l') @ [fl_sockopsLink l']) \<inter> vw_open (vw w) = {}"
  using sockops_fail_view [OF assms] by blast+

lemma new_sockops_close:
  assumes new: "NewFirewallLoader E i w = (Inr l, w1)" and load: "LoadSockops E c l w1 = (r, l', w2)"
    and calm: "calm (snd (Close E l' w2))"
  shows "vw (snd (Close E l' w2)) =
    (if fl_sockHashPinPath l' = [] then scrub i (vw w) else del_pin sock_hash_path (scrub i (vw w)))"
proof -
  note l = new_loader_ok [OF new]
  note close = Close_calm [OF calm]
  have closed: "closed_view l (vw w1) = scrub i (vw w)"
    by (rule new_closed_view [OF new])
  have ns: "no_sockops l"
    by (rule new_no_sockops [OF new])
  have handles: "loader_handles (l\<lparr>fl_sockopsObjs := so, fl_skmsgObjs := sk, fl_sockopsLink := lk,
        fl_sockHashPinPath := p, fl_sockopsEnabled := en\<rparr>) =
      loader_handles l \<union> opt_set (so_handles so @ sk_handles sk @ [lk])" for so sk lk p en
    using ns by (auto simp: loader_handles_def no_sockops_def opt_set_three)
  show ?thesis
  proof (cases r)
    case None
    note k = sockops_ok [OF load [unfolded None]]
    obtain so sk lk where l': "l' = l\<lparr>fl_sockopsObjs := so, fl_skmsgObjs := sk, fl_sockopsLink := lk,
        fl_sockHashPinPath := sock_hash_path, fl_sockopsEnabled := True\<rparr>"
      using k(4) by blast
    have nn: "SockHash (so_maps so) \<noteq> None" "ProxyRedirectFunc (sk_programs sk) \<noteq> None"
      using k(2) by (simp_all add: l' so_handles_def sk_handles_def) (metis not_None_eq)+
    have "closed_view l' (vw w2) = del_pin sock_hash_path (closed_view l (vw w1))"
      using ns nn k(5,6,7) unfolding l' closed_view_def handles
      by (intro view_eqI) (auto simp: no_sockops_def)
    then show ?thesis
      using closed close by (simp add: l')
  next
    case (Some e)
    note k = sockops_fail [OF load [unfolded Some] ns close [THEN conjunct1]]
    obtain so sk lk p where l0: "l' = l\<lparr>fl_sockopsObjs := so, fl_skmsgObjs := sk, fl_sockopsLink := lk,
        fl_sockHashPinPath := p\<rparr>"
      using k(3) by blast
    then have l': "l' = l\<lparr>fl_sockopsObjs := so, fl_skmsgObjs := sk, fl_sockopsLink := lk,
        fl_sockHashPinPath := p, fl_sockopsEnabled := False\<rparr>"
      using ns by (simp add: no_sockops_def)
    have "closed_view l' (vw w2) =
      (if p = [] then closed_view l (vw w1) else del_pin sock_hash_path (closed_view l (vw w1)))"
      using ns k(1,2,4) unfolding l' closed_view_def handles
      by (intro view_eqI) (auto simp: no_sockops_def)
    then show ?thesis
      using closed close by (simp add: l')
  qed
qed

end


section \<open>A system that meets the contract\<close>

text \<open>The world of the reference system: the open handles, the rest of the view, and whether all clean-up calls have succeeded. The parameter lists the calls that
  fail. A new handle is larger than every handle that is known.\<close>

record ref_sys =
  rs_open :: "handle list"
  rs_pins :: "string list"
  rs_clsact :: "string list"
  rs_filters :: "string list"
  rs_verdicts :: "(handle option \<times> handle option) list"
  rs_calm :: bool

definition sys_view :: "ref_sys \<Rightarrow> os_view" where
  "sys_view s =
     \<lparr>vw_open = set (rs_open s), vw_pins = set (rs_pins s), vw_clsact = set (rs_clsact s),
      vw_filters = set (rs_filters s), vw_verdicts = set (rs_verdicts s)\<rparr>"

definition new_handle :: "ref_sys \<Rightarrow> handle" where
  "new_handle s =
     Suc (foldr max (rs_open s) (foldr (\<lambda>(t, p). max (case t of None \<Rightarrow> 0 | Some h \<Rightarrow> h)) (rs_verdicts s) 0))"

definition sys_load :: "string list \<Rightarrow> ref_sys \<Rightarrow> (string \<rightharpoonup> handle) \<times> ref_sys" where
  "sys_load ns s =
     (let m = map_of (zip ns [new_handle s ..< new_handle s + length ns])
      in (m, s\<lparr>rs_open := map (\<lambda>n. the (m n)) ns @ rs_open s\<rparr>))"

definition sys_run :: "string list \<Rightarrow> ref_sys \<Rightarrow> ref_sys" where
  "sys_run args s =
     (case classify args of
        QdiscAdd i \<Rightarrow> s\<lparr>rs_clsact := i # rs_clsact s\<rparr>
      | QdiscDel i \<Rightarrow> s\<lparr>rs_clsact := removeAll i (rs_clsact s), rs_filters := removeAll i (rs_filters s)\<rparr>
      | FilterAdd i \<Rightarrow> s\<lparr>rs_filters := i # rs_filters s\<rparr>
      | OtherCommand \<Rightarrow> s)"

definition sys_acquire :: "string list \<Rightarrow> string \<Rightarrow> ref_sys \<Rightarrow> (string + handle) \<times> ref_sys" where
  "sys_acquire F c s =
     (if c \<in> set F then (Inl c, s) else (Inr (new_handle s), s\<lparr>rs_open := new_handle s # rs_open s\<rparr>))"

definition sys_call :: "string list \<Rightarrow> string \<Rightarrow> (ref_sys \<Rightarrow> ref_sys) \<Rightarrow> ref_sys \<Rightarrow> ref_sys call" where
  "sys_call F c f s = (if c \<in> set F then (Some c, s) else (None, f s))"

definition sys_clean :: "string list \<Rightarrow> string \<Rightarrow> (ref_sys \<Rightarrow> ref_sys) \<Rightarrow> ref_sys \<Rightarrow> ref_sys call" where
  "sys_clean F c f s = (if c \<in> set F then (Some c, s\<lparr>rs_calm := False\<rparr>) else (None, f s))"

fun elf_name :: "elf \<Rightarrow> string" where
  "elf_name XdpBytes = ''xdp''" | "elf_name TcBytes = ''tc''"
| "elf_name SockopsBytes = ''sockops''" | "elf_name SkmsgBytes = ''skmsg''"

definition ref_os :: "string list \<Rightarrow> ref_sys os" where
  "ref_os F =
     \<lparr>os_spec = (\<lambda>b. None),
      os_load_assign = (\<lambda>b ns rs s. if elf_name b \<in> set F then (Inl (elf_name b), s) else map_prod Inr id (sys_load ns s)),
      os_close = (\<lambda>h. sys_clean F ''close'' (\<lambda>s. s\<lparr>rs_open := removeAll h (rs_open s)\<rparr>)),
      os_memlock = sys_call F ''memlock'' id,
      os_interface = (\<lambda>i s. if ''interface'' \<in> set F then Inl ''no such network interface'' else Inr 7),
      os_stat = (\<lambda>p s. None),
      os_run = (\<lambda>args s. if \<exists>c\<in>set F. c \<in> set args then (Some ''exit status 2'', s\<lparr>rs_calm := False\<rparr>) else (None, sys_run args s)),
      os_attach_xdp = (\<lambda>p i g. sys_acquire F (if g then ''generic'' else ''native'')),
      os_mkdirall = (\<lambda>p s. (None, s)),
      os_remove = (\<lambda>p. sys_clean F ''remove'' (\<lambda>s. s\<lparr>rs_pins := removeAll p (rs_pins s)\<rparr>)),
      os_pin = (\<lambda>h p. sys_call F ''pin'' (\<lambda>s. s\<lparr>rs_pins := p # rs_pins s\<rparr>)),
      os_new_reader = (\<lambda>m. sys_acquire F ''reader''),
      os_attach_cgroup = (\<lambda>c p. sys_acquire F ''cgroup''),
      os_raw_attach = (\<lambda>t p. sys_call F ''verdict'' (\<lambda>s. s\<lparr>rs_verdicts := (t, p) # rs_verdicts s\<rparr>)),
      os_raw_detach = (\<lambda>t p. sys_clean F ''detach'' (\<lambda>s. s\<lparr>rs_verdicts := removeAll (t, p) (rs_verdicts s)\<rparr>))\<rparr>"

lemma foldr_max_ge: "n \<le> foldr max hs n" "h \<in> set hs \<Longrightarrow> h \<le> foldr max hs (n :: nat)"
  by (induction hs) auto

lemma foldr_targets_ge:
  "(Some h, p) \<in> set vs \<Longrightarrow> h \<le> foldr (\<lambda>(t, p). max (case t of None \<Rightarrow> 0 | Some h \<Rightarrow> h)) vs (n :: nat)"
  by (induction vs) auto

lemma new_handle_large:
  "h \<in> set (rs_open s) \<Longrightarrow> h < new_handle s" "(Some h, p) \<in> set (rs_verdicts s) \<Longrightarrow> h < new_handle s"
  using foldr_max_ge(2) [of h "rs_open s"] foldr_targets_ge [of h p "rs_verdicts s" 0] foldr_max_ge(1) le_trans
  unfolding new_handle_def less_Suc_eq_le by blast+

lemma sys_load_ok:
  assumes "sys_load ns s = (m, s')"
  shows "dom m = set ns" "\<And>h. h \<in> ran m \<Longrightarrow> new_handle s \<le> h"
    "sys_view s' = open_set (ran m) (sys_view s)"
proof -
  have m: "m = map_of (zip ns [new_handle s ..< new_handle s + length ns])"
    and s': "s' = s\<lparr>rs_open := map (\<lambda>n. the (m n)) ns @ rs_open s\<rparr>"
    using assms by (auto simp: sys_load_def Let_def)
  show d: "dom m = set ns" by (simp add: m)
  show "new_handle s \<le> h" if "h \<in> ran m" for h
    using that by (auto simp: m ran_def dest!: map_of_SomeD set_zip_rightD)
  have "ran m = (\<lambda>n. the (m n)) ` set ns"
    unfolding d [symmetric] by (force simp: ran_def)
  then show "sys_view s' = open_set (ran m) (sys_view s)"
    by (simp add: s' sys_view_def open_set_def Un_commute)
qed

lemma sys_run_effect: "sys_view (sys_run args s) = run_effect args (sys_view s)"
  unfolding sys_run_def run_effect_def
  by (simp add: sys_view_def del_qdisc_def split: tc_command.split)

lemma sys_acquire_ok:
  "sys_acquire F c s = (Inr h, s') \<Longrightarrow> h \<notin> vw_open (sys_view s) \<and> sys_view s' = open_set {h} (sys_view s)"
  "sys_acquire F c s = (Inl e, s') \<Longrightarrow> s' = s"
  by (auto simp: sys_acquire_def sys_view_def open_set_def dest: new_handle_large split: if_splits)

lemma sys_call_ok:
  "sys_call F c f s = (None, s') \<Longrightarrow> s' = f s" "sys_call F c f s = (Some e, s') \<Longrightarrow> s' = s"
  by (auto simp: sys_call_def split: if_splits)

lemma sys_clean_ok:
  "sys_clean F c f s = (None, s') \<Longrightarrow> s' = f s" "sys_clean F c f s = (Some e, s') \<Longrightarrow> s' = s\<lparr>rs_calm := False\<rparr>"
  by (auto simp: sys_clean_def split: if_splits)

lemma sys_call_id: "sys_call F c id s = (r, s') \<Longrightarrow> s' = s"
  by (auto simp: sys_call_def split: if_splits)

lemma sys_load_no_error: "map_prod Inr id (sys_load ns s) = (Inl e, s') \<Longrightarrow> False"
  by (cases "sys_load ns s") auto

lemma sys_updates:
  "sys_view (s\<lparr>rs_open := removeAll h (rs_open s)\<rparr>) = close_set {h} (sys_view s)"
  "sys_view (s\<lparr>rs_pins := removeAll p (rs_pins s)\<rparr>) = del_pin p (sys_view s)"
  "sys_view (s\<lparr>rs_calm := b\<rparr>) = sys_view s"
  "sys_view (s\<lparr>rs_pins := p # rs_pins s\<rparr>) = (sys_view s)\<lparr>vw_pins := insert p (vw_pins (sys_view s))\<rparr>"
  "sys_view (s\<lparr>rs_verdicts := x # rs_verdicts s\<rparr>) = (sys_view s)\<lparr>vw_verdicts := insert x (vw_verdicts (sys_view s))\<rparr>"
  "sys_view (s\<lparr>rs_verdicts := removeAll x (rs_verdicts s)\<rparr>) = (sys_view s)\<lparr>vw_verdicts := vw_verdicts (sys_view s) - {x}\<rparr>"
  by (simp_all add: sys_view_def close_set_def del_pin_def)

lemma ref_os_contract: "os_contract (ref_os F) sys_view"
proof unfold_locales
  fix b ns rs w m w'
  assume a: "os_load_assign (ref_os F) b ns rs w = (Inr m, w')"
  then have l: "sys_load ns w = (m, w')"
    by (cases "sys_load ns w") (auto simp: ref_os_def split: if_splits)
  show "dom m = set ns \<and> ran m \<inter> vw_open (sys_view w) = {} \<and> sys_view w' = open_set (ran m) (sys_view w)"
    using sys_load_ok [OF l] new_handle_large(1) [of _ w] by (force simp: sys_view_def)
  show "(Some h, p) \<notin> vw_verdicts (sys_view w)" if "h \<in> ran m" for h p
    using sys_load_ok(2) [OF l that] new_handle_large(2) [of h p w] by (auto simp: sys_view_def)
qed (auto simp: ref_os_def sys_run_effect sys_updates split: if_splits
      dest: sys_call_id sys_acquire_ok sys_call_ok sys_clean_ok sys_load_no_error)

lemma sys_run_calm: "rs_calm (sys_run args s) \<longleftrightarrow> rs_calm s"
  by (simp add: sys_run_def split: tc_command.split)

lemma ref_calm:
  "rs_calm (snd (os_load_assign (ref_os F) b ns rs s)) \<longleftrightarrow> rs_calm s"
  "rs_calm (snd (os_close (ref_os F) h s)) \<longleftrightarrow> rs_calm s \<and> ''close'' \<notin> set F"
  "rs_calm (snd (os_memlock (ref_os F) s)) \<longleftrightarrow> rs_calm s"
  "rs_calm (snd (os_run (ref_os F) args s)) \<longleftrightarrow> rs_calm s \<and> (\<forall>c\<in>set F. c \<notin> set args)"
  "rs_calm (snd (os_attach_xdp (ref_os F) q n g s)) \<longleftrightarrow> rs_calm s"
  "rs_calm (snd (os_mkdirall (ref_os F) p s)) \<longleftrightarrow> rs_calm s"
  "rs_calm (snd (os_remove (ref_os F) p s)) \<longleftrightarrow> rs_calm s \<and> ''remove'' \<notin> set F"
  "rs_calm (snd (os_pin (ref_os F) q p s)) \<longleftrightarrow> rs_calm s"
  "rs_calm (snd (os_new_reader (ref_os F) q s)) \<longleftrightarrow> rs_calm s"
  "rs_calm (snd (os_attach_cgroup (ref_os F) c q s)) \<longleftrightarrow> rs_calm s"
  "rs_calm (snd (os_raw_attach (ref_os F) t q s)) \<longleftrightarrow> rs_calm s"
  "rs_calm (snd (os_raw_detach (ref_os F) t q s)) \<longleftrightarrow> rs_calm s \<and> ''detach'' \<notin> set F"
  by (simp_all add: ref_os_def sys_clean_def sys_call_def sys_acquire_def sys_load_def Let_def sys_run_calm)

lemma ref_faults:
  "os_close (ref_os F) h s = (Some e, s') \<Longrightarrow> \<not> rs_calm s'"
  "os_remove (ref_os F) p s = (Some e, s') \<Longrightarrow> \<not> rs_calm s'"
  "os_run (ref_os F) args s = (Some e, s') \<Longrightarrow> \<not> rs_calm s'"
  "os_raw_detach (ref_os F) t q s = (Some e, s') \<Longrightarrow> \<not> rs_calm s'"
  by (auto simp: ref_os_def sys_clean_def split: if_splits)

lemma ref_os_journal: "os_journal_axioms (ref_os F) sys_view rs_calm"
proof (rule os_journal_axioms.intro)
qed ((drule arg_cong [where f = "\<lambda>x. rs_calm (snd x)"], simp only: ref_calm snd_conv; blast) |
     (rule ref_faults, assumption))+

interpretation sys: os_journal "ref_os F" sys_view rs_calm for F
  by (intro os_journal.intro ref_os_contract ref_os_journal)

section \<open>Properties of the life cycle\<close>

definition ex_sys :: ref_sys where
  "ex_sys = \<lparr>rs_open = [3], rs_pins = [''/sys/fs/bpf/other''], rs_clsact = [], rs_filters = [], rs_verdicts = [], rs_calm = True\<rparr>"

text \<open>The calls of the reference system in the order of the code.\<close>

lemma ref_loads:
  "loadXdpObjects (ref_os F) opts s =
     (if ''xdp'' \<in> set F then (Inl ''xdp'', s) else map_prod (\<lambda>m. Inr (xdp_assign m)) id (sys_load xdpNames s))"
  "loadTcObjects (ref_os F) opts s =
     (if ''tc'' \<in> set F then (Inl ''tc'', s) else map_prod (\<lambda>m. Inr (tc_assign m)) id (sys_load tcNames s))"
  "loadSockopsObjects (ref_os F) opts s =
     (if ''sockops'' \<in> set F then (Inl ''sockops'', s) else map_prod (\<lambda>m. Inr (sockops_assign m)) id (sys_load sockopsNames s))"
  "loadSkmsgObjects (ref_os F) opts s =
     (if ''skmsg'' \<in> set F then (Inl ''skmsg'', s) else map_prod (\<lambda>m. Inr (skmsg_assign m)) id (sys_load skmsgNames s))"
  by (simp_all add: loadXdpObjects_def loadTcObjects_def loadSockopsObjects_def loadSkmsgObjects_def loadXdp_def loadTc_def
        loadSockops_def loadSkmsg_def ref_os_def prod.map_comp sum.map_comp comp_def id_def)

lemma ref_calls:
  "os_memlock (ref_os F) s = (if ''memlock'' \<in> set F then (Some ''memlock'', s) else (None, s))"
  "os_interface (ref_os F) i s = (if ''interface'' \<in> set F then Inl ''no such network interface'' else Inr 7)"
  "os_attach_xdp (ref_os F) p n g s = sys_acquire F (if g then ''generic'' else ''native'') s"
  "os_new_reader (ref_os F) h s = sys_acquire F ''reader'' s"
  "os_attach_cgroup (ref_os F) c h s = sys_acquire F ''cgroup'' s"
  "os_pin (ref_os F) h path s = sys_call F ''pin'' (\<lambda>s. s\<lparr>rs_pins := path # rs_pins s\<rparr>) s"
  "os_raw_attach (ref_os F) t h s = sys_call F ''verdict'' (\<lambda>s. s\<lparr>rs_verdicts := (t, h) # rs_verdicts s\<rparr>) s"
  by (simp_all add: ref_os_def sys_call_def)

lemmas ref_eval = ref_loads ref_calls sys_acquire_def sys_call_def attach_xdp_def Let_def split_beta map_prod_def

text \<open>Its clean-up calls succeed unless they are named.\<close>

lemma ref_close_calm:
  assumes "''close'' \<notin> set F"
  shows "rs_calm (snd (close_handle (ref_os F) c s)) \<longleftrightarrow> rs_calm s"
    "rs_calm (snd (XdpClose (map (close_handle (ref_os F)) cs) s)) \<longleftrightarrow> rs_calm s"
proof -
  have one: "fst (close_handle (ref_os F) c s) = None \<and> (rs_calm (snd (close_handle (ref_os F) c s)) \<longleftrightarrow> rs_calm s)" for c s
    using assms by (cases c) (simp_all add: close_handle_def ref_os_def sys_clean_def)
  then show "rs_calm (snd (close_handle (ref_os F) c s)) \<longleftrightarrow> rs_calm s" by simp
  show "rs_calm (snd (XdpClose (map (close_handle (ref_os F)) cs) s)) \<longleftrightarrow> rs_calm s"
  proof (induction cs arbitrary: s)
    case (Cons c cs)
    then show ?case
      using one [of c s] by (cases "close_handle (ref_os F) c s") simp
  qed simp
qed

lemma ref_objects_calm:
  assumes "''close'' \<notin> set F"
  shows "rs_calm (snd (xdpObjects_Close (ref_os F) xo s)) \<longleftrightarrow> rs_calm s" "rs_calm (snd (tcObjects_Close (ref_os F) co s)) \<longleftrightarrow> rs_calm s"
    "rs_calm (snd (sockopsObjects_Close (ref_os F) so s)) \<longleftrightarrow> rs_calm s" "rs_calm (snd (skmsgObjects_Close (ref_os F) sk s)) \<longleftrightarrow> rs_calm s"
  using assms by (simp_all add: objects_Close_flat ref_close_calm)

lemma ref_world:
  "rs_calm (snd (sys_load ns s)) \<longleftrightarrow> rs_calm s" "mount_cgroup (ref_os F) s = s" "rs_calm ex_sys"
  by (simp_all add: sys_load_def Let_def mount_cgroup_def ref_os_def ex_sys_def)

lemmas ref_closed_calm = ref_close_calm ref_objects_calm ref_calm ref_world

lemma ref_provision_calm:
  assumes "F = [] \<or> F = [''reader'']"
  shows "rs_calm (provision_tc (ref_os F) ''eth0'' (tc_pin_path ''eth0'') p s) \<longleftrightarrow> rs_calm s"
  using assms by (elim disjE) (simp_all add: provision_tc_def Let_def ref_calm split_beta tc_pin_path_def split: option.split)

lemma ref_Close_calm: "fl_ifaceName l = ''eth0'' \<Longrightarrow> rs_calm (snd (Close (ref_os []) l s)) \<longleftrightarrow> rs_calm s"
  by (simp add: Close_def Let_def ref_closed_calm remove_path_def detach_skmsg_def)

lemma ex_opens:
  obtains l s where "NewFirewallLoader (ref_os []) ''eth0'' ex_sys = (Inr l, s)" "rs_calm s"
proof -
  have "\<exists>l s. NewFirewallLoader (ref_os []) ''eth0'' ex_sys = (Inr l, s) \<and> rs_calm s"
    by (simp add: NewFirewallLoader_def ref_eval ref_provision_calm ref_closed_calm fresh_loader_def)
  then show thesis using that by blast
qed

text \<open>C24: When \<^verbatim>\<open>NewFirewallLoader\<close> succeeds, the loader has every program and map of the XDP and TC objects, a link on the interface
  and a ring-buffer reader, none of them nil; all of them are new handles, the process holds exactly these more than
  before, and the socket programs are off.\<close>

theorem loader_opened:
  assumes "os_contract E vw" "NewFirewallLoader E i w = (Inr l, w')"
  shows "attached l \<and> \<not> IsSockopsEnabled l \<and> loader_handles l \<inter> vw_open (vw w) = {} \<and>
    vw_open (vw w') = vw_open (vw w) \<union> loader_handles l"
  using os_contract.new_loader_ok(1,5-7) [OF assms] by (simp add: IsSockopsEnabled_def)

theorem loader_opened_witness:
  "\<exists>l s. NewFirewallLoader (ref_os []) ''eth0'' ex_sys = (Inr l, s) \<and> attached l \<and>
     vw_open (sys_view s) = {3} \<union> loader_handles l"
proof -
  obtain l s where *: "NewFirewallLoader (ref_os []) ''eth0'' ex_sys = (Inr l, s)" using ex_opens .
  have "vw_open (sys_view ex_sys) = {3}" by (simp add: ex_sys_def sys_view_def)
  with loader_opened [OF sys.os_contract_axioms *] * show ?thesis by auto
qed

text \<open>\<^verbatim>\<open>Close\<close> after \<^verbatim>\<open>NewFirewallLoader\<close> gives everything back when no clean-up call of the run fails: it returns no error, the open handles are those
  from before, and the pinned program, the \<^verbatim>\<open>clsact\<close> discipline and the filter of the interface are gone. The
  discipline goes also when it was there before the loader.\<close>

theorem loader_released:
  assumes "os_journal E vw calm" "NewFirewallLoader E i w = (Inr l, w')" "calm (snd (Close E l w'))"
  shows "fst (Close E l w') = None \<and> vw (snd (Close E l w')) = scrub i (vw w)"
  using os_journal.new_then_close [OF assms] os_journal.Close_calm [OF assms(1,3)] by simp

text \<open>C17: A failing \<^verbatim>\<open>NewFirewallLoader\<close> closes no handle that was open before, and when none of its clean-up calls fails it closes every handle it opened: what is
  left over is the set \<open>H\<close>. Unless the ring-buffer reader is what failed, the rest of the system is as
  it was; in that last case only the pin, the discipline and the filter of the interface may differ.\<close>

theorem loader_open_failure:
  assumes "os_journal E vw calm" "NewFirewallLoader E i w = (Inl e, w')"
  shows "\<exists>H. H \<inter> vw_open (vw w) = {} \<and> (calm w' \<longrightarrow> H = {}) \<and> scrub i (vw w') = open_set H (scrub i (vw w)) \<and>
    ((\<forall>m. e \<noteq> RingReaderFailed m) \<longrightarrow> vw w' = open_set H (vw w))"
proof (intro exI conjI impI)
  note c = os_journal.axioms(1) [OF assms(1)]
  note keeps = os_contract.new_loader_fail_keeps [OF c assms(2)]
  let ?H = "vw_open (vw w') - vw_open (vw w)"
  show "?H \<inter> vw_open (vw w) = {}" by blast
  show "?H = {}" if "calm w'" using os_journal.new_loader_fail(1) [OF assms that] by simp
  show "scrub i (vw w') = open_set ?H (scrub i (vw w))"
    using rest_open [OF os_contract.new_loader_fail_scrub [OF c assms(2)]] keeps by (simp add: scrub_def)
  show "vw w' = open_set ?H (vw w)" if "\<forall>m. e \<noteq> RingReaderFailed m"
    using os_contract.new_loader_fail_rest [OF c assms(2)] that keeps by (intro rest_open) auto
qed

theorem loader_open_failure_witness:
  "fst (NewFirewallLoader (ref_os [''tc'']) ''eth0'' ex_sys) = Inl (LoadTcFailed ''tc'') \<and>
   sys_view (snd (NewFirewallLoader (ref_os [''tc'']) ''eth0'' ex_sys)) = sys_view ex_sys"
proof -
  have "\<exists>s. NewFirewallLoader (ref_os [''tc'']) ''eth0'' ex_sys = (Inl (LoadTcFailed ''tc''), s) \<and> rs_calm s"
    by (simp add: NewFirewallLoader_def ref_eval ref_closed_calm)
  then obtain s where s: "NewFirewallLoader (ref_os [''tc'']) ''eth0'' ex_sys = (Inl (LoadTcFailed ''tc''), s)" "rs_calm s"
    by blast
  from loader_open_failure [OF sys.os_journal_axioms s(1)] s show ?thesis by (auto simp: open_set_def)
qed

lemma ref_provision:
  assumes "F = [] \<or> F = [''reader'']"
  shows "''eth0'' \<in> vw_filters (sys_view (provision_tc (ref_os F) ''eth0'' (tc_pin_path ''eth0'') p s)) \<and>
    tc_pin_path ''eth0'' \<in> vw_pins (sys_view (provision_tc (ref_os F) ''eth0'' (tc_pin_path ''eth0'') p s))"
  using assms
proof (elim disjE)
  assume F: "F = []"
  show ?thesis
    by (simp add: F provision_tc_def Let_def ref_os_def sys_call_def sys_run_effect run_effect_simps tc_pin_path_def)
      (simp add: sys_view_def)
next
  assume F: "F = [''reader'']"
  show ?thesis
    by (simp add: F provision_tc_def Let_def ref_os_def sys_call_def sys_run_effect run_effect_simps tc_pin_path_def)
      (simp add: sys_view_def)
qed

text \<open>When the reader cannot be created, the filter stays on the interface, and with it the pin: the TC program
  goes on filtering without an agent.\<close>

theorem reader_failure_leaves_filter:
  "\<exists>s. NewFirewallLoader (ref_os [''reader'']) ''eth0'' ex_sys = (Inl (RingReaderFailed ''reader''), s) \<and>
     ''eth0'' \<in> vw_filters (sys_view s) \<and> tc_pin_path ''eth0'' \<in> vw_pins (sys_view s)"
proof -
  obtain s where new: "NewFirewallLoader (ref_os [''reader'']) ''eth0'' ex_sys = (Inl (RingReaderFailed ''reader''), s)"
    by (simp add: NewFirewallLoader_def ref_eval)
  then obtain p w where "but_open (sys_view s) = but_open (sys_view (provision_tc (ref_os [''reader'']) ''eth0'' (tc_pin_path ''eth0'') p w))"
    using sys.new_loader_fail_rest [OF new] by auto
  then have "vw_filters (sys_view s) = vw_filters (sys_view (provision_tc (ref_os [''reader'']) ''eth0'' (tc_pin_path ''eth0'') p w))"
    "vw_pins (sys_view s) = vw_pins (sys_view (provision_tc (ref_os [''reader'']) ''eth0'' (tc_pin_path ''eth0'') p w))"
    by (metis rest_fields(1), metis rest_fields(2))
  with new show ?thesis
    using ref_provision [of "[''reader'']"] by simp
qed

text \<open>C25: \<^verbatim>\<open>LoadSockops\<close> on a loader without socket programs is all or nothing. Success enables redirection with every object
  loaded, the link there and the verdict program attached to the socket map. After a failure redirection is off, and when none of the clean-up
  calls fails the system is as before, except that a stale pin of the socket map may be gone.\<close>

theorem sockops_all_or_nothing:
  assumes "os_journal E vw calm" "no_sockops l" "LoadSockops E c l w = (r, l', w')"
  shows "if r = None
    then IsSockopsEnabled l' \<and> None \<notin> set (so_handles (fl_sockopsObjs l') @ sk_handles (fl_skmsgObjs l')) \<and>
      fl_sockopsLink l' \<noteq> None \<and>
      (SockHash (so_maps (fl_sockopsObjs l')), ProxyRedirectFunc (sk_programs (fl_skmsgObjs l'))) \<in> vw_verdicts (vw w')
    else \<not> IsSockopsEnabled l' \<and> (calm w' \<longrightarrow> vw w' \<in> {vw w, del_pin sock_hash_path (vw w)})"
proof (cases r)
  note c = os_journal.axioms(1) [OF assms(1)]
  {
    case None
    then show ?thesis
      using os_contract.sockops_ok(1-3) [OF c] os_contract.sockops_ok(5) [OF c] assms(3)
      by (simp add: IsSockopsEnabled_def)
  next
    case (Some e)
    then show ?thesis
      using os_journal.sockops_fail(1) [OF assms(1) assms(3) [unfolded Some] assms(2)]
        os_contract.sockops_fail_off [OF c assms(3) [unfolded Some]] assms(2)
      by (auto simp: IsSockopsEnabled_def no_sockops_def)
  }
qed

lemma ex_sockops_off:
  assumes "LoadSockops (ref_os [''cgroup'']) ''/sys/fs/cgroup'' l s = (r, l', s')" "rs_calm s"
  shows "r = Some (AttachSockopsFailed ''/sys/fs/cgroup'' ''cgroup'') \<and> rs_calm s'"
  using assms by (auto simp: LoadSockops_def ref_eval ref_closed_calm)

theorem sockops_all_or_nothing_witness:
  "\<exists>l s l' s'. NewFirewallLoader (ref_os []) ''eth0'' ex_sys = (Inr l, s) \<and>
     LoadSockops (ref_os [''cgroup'']) ''/sys/fs/cgroup'' l s = (Some (AttachSockopsFailed ''/sys/fs/cgroup'' ''cgroup''), l', s') \<and>
     \<not> IsSockopsEnabled l' \<and> sys_view s' \<in> {sys_view s, del_pin sock_hash_path (sys_view s)}"
proof -
  obtain l s where *: "NewFirewallLoader (ref_os []) ''eth0'' ex_sys = (Inr l, s)" "rs_calm s" by (rule ex_opens)
  obtain r l' s' where **: "LoadSockops (ref_os [''cgroup'']) ''/sys/fs/cgroup'' l s = (r, l', s')"
    by (rule prod_cases3)
  note r = ex_sockops_off [OF ** *(2)]
  have "no_sockops l" using os_contract.new_no_sockops [OF sys.os_contract_axioms *(1)] .
  from sockops_all_or_nothing [OF sys.os_journal_axioms this **] * ** r show ?thesis
    by (intro exI [of _ l] exI [of _ s] exI [of _ l'] exI [of _ s']) simp
qed

text \<open>C17: The whole life of a loader, with \<^verbatim>\<open>LoadSockops\<close> in between, whether it succeeds or fails: when none of the clean-up calls fails, \<^verbatim>\<open>Close\<close>
  returns no error and afterwards the process holds the handles
  from before, and of the pins, disciplines, filters and attachments only those of the interface and the pin of the socket
  map are gone.\<close>

theorem loader_released_sockops:
  assumes "os_journal E vw calm" "NewFirewallLoader E i w = (Inr l, w1)" "LoadSockops E c l w1 = (r, l', w2)"
    "calm (snd (Close E l' w2))"
  shows "fst (Close E l' w2) = None \<and> vw (snd (Close E l' w2)) =
    (if fl_sockHashPinPath l' = [] then scrub i (vw w) else del_pin sock_hash_path (scrub i (vw w)))"
  using os_journal.new_sockops_close [OF assms] os_journal.Close_calm [OF assms(1,4)] by simp

theorem loader_released_sockops_witness:
  "\<exists>l s l' s'. NewFirewallLoader (ref_os []) ''eth0'' ex_sys = (Inr l, s) \<and>
     LoadSockops (ref_os []) ''/sys/fs/cgroup'' l s = (None, l', s') \<and>
     sys_view (snd (Close (ref_os []) l' s')) = sys_view ex_sys"
proof -
  obtain l s where *: "NewFirewallLoader (ref_os []) ''eth0'' ex_sys = (Inr l, s)" "rs_calm s" by (rule ex_opens)
  obtain r l' s' where **: "LoadSockops (ref_os []) ''/sys/fs/cgroup'' l s = (r, l', s')"
    by (rule prod_cases3)
  have r: "r = None" and s': "rs_calm s'"
    using ** *(2) by (auto simp: LoadSockops_def ref_eval ref_closed_calm)
  have "fl_ifaceName l' = ''eth0''"
    using arg_cong [where f = fl_ifaceName, OF sys.sockops_ok(4) [OF ** [unfolded r]]] sys.new_loader_ok(2) [OF *(1)] by simp
  with s' have calm: "rs_calm (snd (Close (ref_os []) l' s'))" by (simp add: ref_Close_calm)
  have "scrub ''eth0'' (sys_view ex_sys) = sys_view ex_sys" "del_pin sock_hash_path (sys_view ex_sys) = sys_view ex_sys"
    by (simp_all add: ex_sys_def sys_view_def scrub_def del_pin_def del_qdisc_def tc_pin_path_def sock_hash_path_def)
  with loader_released_sockops [OF sys.os_journal_axioms *(1) ** calm] * ** r show ?thesis
    by (intro exI [of _ l] exI [of _ s] exI [of _ l'] exI [of _ s']) simp
qed

end
