(* ===== verification/Go_Flag.thy ===== *)
theory Go_Flag
  imports Go_Prelude
begin

text \<open>
  Command-line flags: the part of Go's package \<^verbatim>\<open>flag\<close> that the programs of the repository use, a set of string and
  boolean flags parsed with \<^verbatim>\<open>ExitOnError\<close>. Parsing stops at the first argument that is not a flag, or after \<^verbatim>\<open>--\<close>;
  an error ends the process with status 2, a request for help with status 0.
\<close>

datatype flag_value = FString string | FBool bool

datatype flag_error = HelpRequested | BadSyntax string | NotDefined string | NeedsArgument string | InvalidBool string string

type_synonym flag_set = "string \<rightharpoonup> flag_value"

definition exit_status :: "flag_error \<Rightarrow> int" where
  "exit_status e = (if e = HelpRequested then 0 else 2)"

text \<open>\<^verbatim>\<open>strconv.ParseBool\<close>.\<close>

definition ParseBool :: "string \<Rightarrow> bool option" where
  "ParseBool s =
     (if s \<in> {''1'', ''t'', ''T'', ''true'', ''TRUE'', ''True''} then Some True
      else if s \<in> {''0'', ''f'', ''F'', ''false'', ''FALSE'', ''False''} then Some False else None)"

text \<open>An argument that is a flag, without its one or two minus signs: the name and the value after an equals sign, which
  cannot come first.\<close>

definition split_flag :: "string \<Rightarrow> string \<times> string option" where
  "split_flag body =
     (let n = takeWhile (\<lambda>c. c \<noteq> CHR ''='') (tl body); r = dropWhile (\<lambda>c. c \<noteq> CHR ''='') (tl body)
      in (take 1 body @ n, case r of [] \<Rightarrow> None | _ # v \<Rightarrow> Some v))"

datatype flag_token = NoFlag | EndOfFlags | BadFlag | Flag string "string option"

definition flag_token :: "string \<Rightarrow> flag_token" where
  "flag_token s =
     (case s of
        [] \<Rightarrow> NoFlag
      | [_] \<Rightarrow> NoFlag
      | c # d # r \<Rightarrow>
          if c \<noteq> CHR ''-'' then NoFlag
          else if d = CHR ''-'' \<and> r = [] then EndOfFlags
          else let body = (if d = CHR ''-'' then r else d # r) in
            if hd body = CHR ''-'' \<or> hd body = CHR ''='' then BadFlag
            else Flag (fst (split_flag body)) (snd (split_flag body)))"

text \<open>\<^verbatim>\<open>parseOne\<close> in a loop: the values of the flags and the arguments left.\<close>

fun parse_flags :: "flag_set \<Rightarrow> string list \<Rightarrow> flag_error + flag_set \<times> string list" where
  "parse_flags fs [] = Inr (fs, [])"
| "parse_flags fs (s # args) =
     (case flag_token s of
        NoFlag \<Rightarrow> Inr (fs, s # args)
      | EndOfFlags \<Rightarrow> Inr (fs, args)
      | BadFlag \<Rightarrow> Inl (BadSyntax s)
      | Flag name val \<Rightarrow>
          (case fs name of
             None \<Rightarrow> Inl (if name = ''help'' \<or> name = ''h'' then HelpRequested else NotDefined name)
           | Some (FBool _) \<Rightarrow>
               (case val of
                  None \<Rightarrow> parse_flags (fs(name \<mapsto> FBool True)) args
                | Some v \<Rightarrow> (case ParseBool v of
                    None \<Rightarrow> Inl (InvalidBool v name)
                  | Some b \<Rightarrow> parse_flags (fs(name \<mapsto> FBool b)) args))
           | Some (FString _) \<Rightarrow>
               (case val of
                  Some v \<Rightarrow> parse_flags (fs(name \<mapsto> FString v)) args
                | None \<Rightarrow> (case args of
                    [] \<Rightarrow> Inl (NeedsArgument name)
                  | v # args' \<Rightarrow> parse_flags (fs(name \<mapsto> FString v)) args'))))"

definition string_flag :: "flag_set \<Rightarrow> string \<Rightarrow> string" where
  "string_flag fs name = (case fs name of Some (FString v) \<Rightarrow> v | _ \<Rightarrow> [])"

definition bool_flag :: "flag_set \<Rightarrow> string \<Rightarrow> bool" where
  "bool_flag fs name = (case fs name of Some (FBool b) \<Rightarrow> b | _ \<Rightarrow> False)"

section \<open>Facts\<close>

text \<open>A name that can stand on the command line.\<close>

definition plain_name :: "string \<Rightarrow> bool" where
  "plain_name n \<longleftrightarrow> n \<noteq> [] \<and> hd n \<noteq> CHR ''-'' \<and> CHR ''='' \<notin> set n"

lemma split_at_equals:
  "CHR ''='' \<notin> set xs \<Longrightarrow> takeWhile (\<lambda>c. c \<noteq> CHR ''='') (xs @ CHR ''='' # v) = xs"
  "CHR ''='' \<notin> set xs \<Longrightarrow> dropWhile (\<lambda>c. c \<noteq> CHR ''='') (xs @ CHR ''='' # v) = CHR ''='' # v"
  "CHR ''='' \<notin> set xs \<Longrightarrow> takeWhile (\<lambda>c. c \<noteq> CHR ''='') xs = xs"
  "CHR ''='' \<notin> set xs \<Longrightarrow> dropWhile (\<lambda>c. c \<noteq> CHR ''='') xs = []"
  by (induction xs) auto

lemma flag_token_value: "plain_name n \<Longrightarrow> flag_token (''-'' @ n @ ''='' @ v) = Flag n (Some v)"
  by (cases n) (auto simp: plain_name_def flag_token_def split_flag_def split_at_equals)

lemma flag_token_name: "plain_name n \<Longrightarrow> flag_token (''-'' @ n) = Flag n None"
  by (cases n) (auto simp: plain_name_def flag_token_def split_flag_def split_at_equals)

text \<open>Either way of giving a string flag sets it and goes on with the next argument.\<close>

lemma parse_flags_string:
  assumes "plain_name n" "fs n = Some (FString d)"
  shows "parse_flags fs ((''-'' @ n @ ''='' @ v) # args) = parse_flags (fs(n \<mapsto> FString v)) args"
    "parse_flags fs ((''-'' @ n) # v # args) = parse_flags (fs(n \<mapsto> FString v)) args"
  using assms flag_token_value flag_token_name by simp_all

end
