(* ===== verification/Agent.thy ===== *)
theory Agent
  imports Concurrent_Reload Loader_Lifecycle Go_Flag
begin

text \<open>
  The agent, \<^verbatim>\<open>cmd/firewall-agent/main.go\<close>: flags, start-up, the goroutines for the control server, the ring buffer and
  the periodic report, and the shut-down. The state of the machine has three parts that no call of the agent mixes: the
  process (for the capabilities), the system calls of the loader, and the maps. The start-up is a function; from then on
  every input of a goroutine is a step. The control server runs from the middle of the start-up on, so
  the start-up takes what the server does to the maps at each of its later points, and between any two calls of the configured reload, as a parameter.
  A signal is one step: the cancelled goroutines do nothing after it. The end of the accept loop and the removal of the socket are
  the subject of \<open>Accept_Loop\<close>.
\<close>

section \<open>Flags\<close>

record agent_flags =
  af_iface :: string
  af_configPath :: string
  af_socketPath :: string
  af_blockCIDR :: string
  af_blockCgroup :: string
  af_enableSockops :: bool
  af_sockopsCgroup :: string

definition agent_flag_set :: flag_set where
  "agent_flag_set =
     [''iface'' \<mapsto> FString ''veth-s'', ''config'' \<mapsto> FString ''configs/policy.example.yaml'',
      ''socket'' \<mapsto> FString ''/var/run/firewall-agent.sock'', ''block-cidr'' \<mapsto> FString [],
      ''block-cgroup'' \<mapsto> FString [], ''enable-sockops'' \<mapsto> FBool False,
      ''sockops-cgroup'' \<mapsto> FString ''/sys/fs/cgroup'']"

definition agent_parse :: "string list \<Rightarrow> flag_error + agent_flags" where
  "agent_parse args =
     (case parse_flags agent_flag_set args of
        Inl e \<Rightarrow> Inl e
      | Inr (fs, rest) \<Rightarrow>
          Inr \<lparr>af_iface = string_flag fs ''iface'', af_configPath = string_flag fs ''config'',
               af_socketPath = string_flag fs ''socket'', af_blockCIDR = string_flag fs ''block-cidr'',
               af_blockCgroup = string_flag fs ''block-cgroup'', af_enableSockops = bool_flag fs ''enable-sockops'',
               af_sockopsCgroup = string_flag fs ''sockops-cgroup''\<rparr>)"

section \<open>The machine and the agent\<close>

record ('p, 'o, 'w) machine =
  mc_proc :: 'p
  mc_os :: 'o
  mc_maps :: 'w

text \<open>What the agent runs on: the system calls, the maps, and the reading and decoding of the configuration.\<close>

record ('p, 'o, 'w) platform =
  pf_proc :: "'p proc_kernel"
  pf_os :: "'o os"
  pf_kernel :: "'w kernel"
  pf_readFile :: "string \<Rightarrow> string + string"
  pf_unmarshal :: "string \<Rightarrow> string + Policy"

record agent =
  ag_loader :: FirewallLoader
  ag_store :: AuditStore
  ag_table :: Table
  ag_streaming :: bool
  ag_stopped :: bool

definition bool_text :: "bool \<Rightarrow> string" where
  "bool_text b = (if b then ''true'' else ''false'')"

text \<open>The control server of the agent: its loader and its event store are those of the agent.\<close>

definition ctrl_server :: "agent \<Rightarrow> ControlServer" where
  "ctrl_server a = NewControlServer (Some (IsSockopsEnabled (ag_loader a))) (Some (ag_store a))"

section \<open>Start-up\<close>

datatype agent_outcome = Exited int | Running agent

type_synonym log = "string list"

definition inspect_caps :: "'p proc_kernel \<Rightarrow> 'p \<Rightarrow> log \<times> 'p" where
  "inspect_caps P p =
     (case EnsureMinimalCapabilities P p of
        (Inl _, p') \<Rightarrow> ([], p')
      | (Inr caps, p') \<Rightarrow>
          ([''[SECURITY] Process running with verified capabilities (Root: '' @ bool_text (cs_IsRoot caps) @
            '', BPF: '' @ bool_text (cs_HasCapBPF caps) @ '', NetAdmin: '' @ bool_text (cs_HasCapNet caps) @ '')''], p'))"

definition enable_sockops :: "'o os \<Rightarrow> agent_flags \<Rightarrow> FirewallLoader \<Rightarrow> 'o \<Rightarrow> log \<times> FirewallLoader \<times> 'o" where
  "enable_sockops E fl l w =
     (if \<not> af_enableSockops fl then ([], l, w)
      else let begun = ''[+] Enabling sockops/sk_msg direct socket redirection (cgroup: '' @ af_sockopsCgroup fl @ '')...'' in
        case LoadSockops E (af_sockopsCgroup fl) l w of
          (Some err, l', w') \<Rightarrow>
            ([begun, ''[!] Warning: Failed to enable sockops redirection: '' @ lifecycle_error_text err,
              ''[!] Continuing without direct socket redirection (XDP+TC remain active).''], l', w')
        | (None, l', w') \<Rightarrow>
            ([begun, ''[+] Sockops + sk_msg programs attached. Co-located TCP sockets will bypass network stack.''], l', w'))"

text \<open>The direct CIDR rule: \<^const>\<open>Inl\<close> is the call of \<^verbatim>\<open>log.Fatalf\<close>.\<close>

definition block_cidr :: "'w kernel \<Rightarrow> agent_flags \<Rightarrow> 'w \<Rightarrow> (log + log) \<times> 'w" where
  "block_cidr K fl w =
     (if af_blockCIDR fl = [] then (Inr [], w)
      else let begun = ''[+] Adding CIDR block rule: '' @ af_blockCIDR fl @ '' (Rule ID: 101)'' in
        case AddBlockCIDR K w (af_blockCIDR fl) 101 of
          (Some err, w') \<Rightarrow> (Inl [begun, ''[!] Failed to add block CIDR: '' @ loader_error_text err], w')
        | (None, w') \<Rightarrow> (Inr [begun], w'))"

definition block_cgroup :: "'w kernel \<Rightarrow> agent_flags \<Rightarrow> 'w \<Rightarrow> log \<times> 'w" where
  "block_cgroup K fl w =
     (if af_blockCgroup fl = [] then ([], w)
      else let begun = ''[+] Adding Cgroup block rule: '' @ af_blockCgroup fl @ '' (Rule ID: 103)'' in
        case AddCgroupPathBlock K w (af_blockCgroup fl) 103 of
          (Some err, w') \<Rightarrow>
            ([begun, ''[!] Warning: Could not resolve/add cgroup block rule for '' @ squote (af_blockCgroup fl) @ '': '' @
              loader_error_text err], w')
        | (None, w') \<Rightarrow> ([begun], w'))"

text \<open>What other goroutines do to the maps before the CIDR rule, before the cgroup rule, before the configured policy, and between the
  calls of the reload of the configured policy, which has a \<^verbatim>\<open>MapSwapper\<close> of its own and so does not exclude the control server.\<close>

record 'w schedule =
  sc_cidr :: "'w \<Rightarrow> 'w"
  sc_cgroup :: "'w \<Rightarrow> 'w"
  sc_config :: "'w \<Rightarrow> 'w"
  sc_during :: "nat \<Rightarrow> 'w \<Rightarrow> 'w"

text \<open>The configured policy, only when neither block flag is given. The reload always returns (\<open>reload_among_returns\<close>), so the first case of its result does not occur.\<close>

definition load_config :: "('p, 'o, 'w) platform \<Rightarrow> agent_flags \<Rightarrow> 'w schedule \<Rightarrow> 'w \<Rightarrow> log \<times> 'w" where
  "load_config F fl sched w =
     (if af_configPath fl \<noteq> [] \<and> af_blockCIDR fl = [] \<and> af_blockCgroup fl = [] then
        (case ParseFile (pf_readFile F) (pf_unmarshal F) (af_configPath fl) of
           Inl err \<Rightarrow>
             ([''[!] Warning: Could not parse config '' @ af_configPath fl @ '': '' @ compile_error_text err @
               ''. Continuing without initial rules.''], w)
         | Inr pol \<Rightarrow> (case Compile pol of
             Inl err \<Rightarrow> ([''[!] Warning: Could not compile policy AST: '' @ compile_error_text err], w)
           | Inr cp \<Rightarrow> (case reload_among (sc_during sched) (loader_stager (pf_kernel F)) cp w of
               (None, w') \<Rightarrow> ([], w')
             | (Some (_, Some err), w') \<Rightarrow>
                 ([''[!] Warning: Could not apply initial policy atomically: '' @ swap_error_text loader_error_text err], w')
             | (Some (gen, None), w') \<Rightarrow>
                 ([''[+] Policy '' @ squote (md_Name (p_Metadata pol)) @ '' loaded atomically (Generation '' @
                   dec (unat gen) @ '').''], w'))))
      else ([], w))"

text \<open>A schedule in which the control server serves connections.\<close>

definition serve_maps :: "('p, 'o, 'w) platform \<Rightarrow> ControlServer \<Rightarrow> (peer_conn \<times> decoded_request) list \<Rightarrow> 'w \<Rightarrow> 'w" where
  "serve_maps F s cs w = snd (serve (pf_kernel F) (pf_unmarshal F) s cs w)"

definition initial_rules :: "('p, 'o, 'w) platform \<Rightarrow> agent_flags \<Rightarrow> 'w schedule \<Rightarrow> 'w \<Rightarrow> (log + log) \<times> 'w" where
  "initial_rules F fl sched w =
     (case block_cidr (pf_kernel F) fl (sc_cidr sched w) of
        (Inl l1, w1) \<Rightarrow> (Inl l1, w1)
      | (Inr l1, w1) \<Rightarrow>
          let (l2, w2) = block_cgroup (pf_kernel F) fl (sc_cgroup sched w1);
              (l3, w3) = load_config F fl sched (sc_config sched w2)
          in (Inr (l1 @ l2 @ l3), w3))"

definition log_starting :: "agent_flags \<Rightarrow> string" where
  "log_starting fl = ''[+] Starting eBPF Firewall Agent on interface '' @ squote (af_iface fl) @ ''...''"

definition log_attached :: "agent_flags \<Rightarrow> string" where
  "log_attached fl = ''[+] XDP & TC programs successfully attached to interface '' @ squote (af_iface fl) @ ''.''"

definition log_no_loader :: "lifecycle_error \<Rightarrow> string" where
  "log_no_loader err = ''[!] Failed to initialize BPF loader: '' @ lifecycle_error_text err"

definition new_agent :: "FirewallLoader \<Rightarrow> agent" where
  "new_agent loader =
     \<lparr>ag_loader = loader, ag_store = NewAuditStore 1000, ag_table = NewTable, ag_streaming = True, ag_stopped = False\<rparr>"

text \<open>\<^verbatim>\<open>log.Fatalf\<close> exits with status 1 and without running the deferred calls, so an agent that has loaded its programs
  and then exits does not close the loader.\<close>

definition start_agent :: "('p, 'o, 'w) platform \<Rightarrow> agent_flags \<Rightarrow> 'w schedule \<Rightarrow> ('p, 'o, 'w) machine \<Rightarrow>
    agent_outcome \<times> log \<times> ('p, 'o, 'w) machine" where
  "start_agent F fl sched m =
     (let (l1, p) = inspect_caps (pf_proc F) (mc_proc m);
          log1 = log_starting fl # l1;
          m1 = m\<lparr>mc_proc := p\<rparr>
      in case NewFirewallLoader (pf_os F) (af_iface fl) (mc_os m) of
        (Inl err, w1) \<Rightarrow> (Exited 1, log1 @ [log_no_loader err], m1\<lparr>mc_os := w1\<rparr>)
      | (Inr loader0, w1) \<Rightarrow>
        let (l2, loader, w2) = enable_sockops (pf_os F) fl loader0 w1;
            log2 = log1 @ log_attached fl # l2;
            a = new_agent loader
        in case initial_rules F fl sched (mc_maps m) of
          (Inl l3, w3) \<Rightarrow> (Exited 1, log2 @ l3, m1\<lparr>mc_os := w2, mc_maps := w3\<rparr>)
        | (Inr l3, w3) \<Rightarrow> (Running a, log2 @ l3, m1\<lparr>mc_os := w2, mc_maps := w3\<rparr>))"

section \<open>Running\<close>

text \<open>The handler of the ring-buffer loop.\<close>

definition on_event :: "AuditEvent \<Rightarrow> AuditStore \<times> log \<Rightarrow> AuditStore \<times> log" where
  "on_event evt s = (Add evt (fst s), snd s @ [''[AUDIT EVENT] '' @ event_String evt])"

definition stats_line :: "string \<Rightarrow> Stats \<Rightarrow> string" where
  "stats_line tag st =
     tag @ '' RX Packets: '' @ dec (unat (RxPackets st)) @ '' | RX Bytes: '' @ dec (unat (RxBytes st)) @
     '' | PASS: '' @ dec (unat (PassPackets st)) @ '' | DROP: '' @ dec (unat (DropPackets st))"

definition flow_line :: "FlowState \<Rightarrow> string" where
  "flow_line f =
     ''[CONNTRACK] Flow '' @ ft_SrcIP f @ '':'' @ dec (unat (ft_SrcPort f)) @ '' -> '' @ ft_DstIP f @ '':'' @
     dec (unat (ft_DstPort f)) @ '' (Proto '' @ dec (unat (ft_Protocol f)) @ '') State: '' @ ft_State f @
     '' Packets: '' @ dec (unat (ft_Packets f)) @ '' Bytes: '' @ dec (unat (ft_Bytes f))"

definition sockops_line :: "Stats \<Rightarrow> string" where
  "sockops_line st =
     ''[SOCKOPS] Events: '' @ dec (unat (RxPackets st)) @ '' | Redirected: '' @ dec (unat (PassPackets st)) @
     '' | Bytes: '' @ dec (unat (RxBytes st)) @ '' | Failed: '' @ dec (unat (DropPackets st))"

text \<open>One tick of the reporter.\<close>

definition report :: "'w kernel \<Rightarrow> int \<Rightarrow> 'w \<Rightarrow> agent \<Rightarrow> log \<times> agent" where
  "report K now w a =
     (let stats = GetStats K w;
          l1 = (if RxPackets stats > 0 then [stats_line ''[STATS]'' stats] else []);
          (flows, t) = SyncFromKernel K now (ag_table a) w;
          l2 = (case flows of Inl _ \<Rightarrow> [] | Inr fs \<Rightarrow> map flow_line fs);
          l3 = (case GetSockopsStats K (IsSockopsEnabled (ag_loader a)) w of
                  Some st \<Rightarrow> if RxPackets st > 0 then [sockops_line st] else []
                | None \<Rightarrow> [])
      in (l1 @ l2 @ l3, a\<lparr>ag_table := t\<rparr>))"

text \<open>What the goroutines receive: a read of the ring buffer, a tick with the time, a connection, a signal.\<close>

datatype agent_input = Ring ring_read | Tick int | Connection peer_conn decoded_request | Signal

definition log_ring_error :: "string \<Rightarrow> string" where
  "log_ring_error err = ''[!] Ringbuf consumer error: '' @ err"

definition log_shutting_down :: string where
  "log_shutting_down = ''[-] Shutting down firewall agent & detaching XDP/TC programs...''"

definition shutdown :: "('p, 'o, 'w) platform \<Rightarrow> agent \<Rightarrow> ('p, 'o, 'w) machine \<Rightarrow> log \<times> ('p, 'o, 'w) machine" where
  "shutdown F a m =
     ([log_shutting_down,
       stats_line ''[FINAL STATS]'' (GetStats (pf_kernel F) (mc_maps m))],
      m\<lparr>mc_os := snd (Close (pf_os F) (ag_loader a) (mc_os m))\<rparr>)"

definition agent_step :: "('p, 'o, 'w) platform \<Rightarrow> agent_input \<Rightarrow> agent \<times> ('p, 'o, 'w) machine \<Rightarrow>
    log \<times> agent \<times> ('p, 'o, 'w) machine" where
  "agent_step F i s =
     (let (a, m) = s in
      if ag_stopped a then ([], s)
      else case i of
        Ring r \<Rightarrow>
          if \<not> ag_streaming a then ([], s)
          else (case ReadRingbuf on_event [r] (ag_store a, []) of
            (None, st, lg) \<Rightarrow> (lg, a\<lparr>ag_store := st\<rparr>, m)
          | (Some None, st, lg) \<Rightarrow> (lg, a\<lparr>ag_store := st, ag_streaming := False\<rparr>, m)
          | (Some (Some err), st, lg) \<Rightarrow>
              (lg @ [log_ring_error err], a\<lparr>ag_store := st, ag_streaming := False\<rparr>, m))
      | Tick now \<Rightarrow> (case report (pf_kernel F) now (mc_maps m) a of (lg, a') \<Rightarrow> (lg, a', m))
      | Connection conn payload \<Rightarrow>
          ([], a, m\<lparr>mc_maps := snd (handleConnection (pf_kernel F) (pf_unmarshal F) (ctrl_server a) conn payload (mc_maps m))\<rparr>)
      | Signal \<Rightarrow> (case shutdown F a m of (lg, m') \<Rightarrow> (lg, a\<lparr>ag_stopped := True, ag_streaming := False\<rparr>, m')))"

fun run_agent :: "('p, 'o, 'w) platform \<Rightarrow> agent_input list \<Rightarrow> agent \<times> ('p, 'o, 'w) machine \<Rightarrow>
    log \<times> agent \<times> ('p, 'o, 'w) machine" where
  "run_agent F [] s = ([], s)"
| "run_agent F (i # is) s =
     (case agent_step F i s of (l1, s1) \<Rightarrow> (case run_agent F is s1 of (l2, s2) \<Rightarrow> (l1 @ l2, s2)))"

text \<open>The program: an error in the flags ends it before anything is done.\<close>

definition agent_main :: "('p, 'o, 'w) platform \<Rightarrow> string list \<Rightarrow> 'w schedule \<Rightarrow> ('p, 'o, 'w) machine \<Rightarrow>
    agent_outcome \<times> log \<times> ('p, 'o, 'w) machine" where
  "agent_main F args sched m =
     (case agent_parse args of
        Inl e \<Rightarrow> (Exited (exit_status e), [], m)
      | Inr fl \<Rightarrow> start_agent F fl sched m)"

section \<open>What the parts leave alone\<close>

text \<open>Whatever a reload keeps, a sequence of connections keeps.\<close>

lemma handle_keeps:
  assumes "\<And>cp w. P w \<Longrightarrow> P (snd (ApplyPolicyAtomic (loader_stager K) cp w))" "P w"
  shows "P (snd (handleConnection K u s conn payload w))"
proof (cases "authorised s conn payload")
  case False
  then show ?thesis using handle_frame [OF False, of K u w] assms(2) by simp
next
  case True
  then obtain req :: Request where "snd (handleConnection K u s conn payload w) = snd (apply_policy K u s (req_PolicyYAML req) w)"
    using handle_authorised [OF True, of K u w] by auto
  moreover have "P (snd (apply_policy K u s y w))" for y
    using assms(1) [OF assms(2)] assms(2) unfolding apply_policy_def
    by (auto simp: Let_def split: sum.splits option.splits prod.splits) (metis snd_conv)+
  ultimately show ?thesis by simp
qed

lemma serve_keeps:
  assumes "\<And>cp w. P w \<Longrightarrow> P (snd (ApplyPolicyAtomic (loader_stager K) cp w))"
  shows "P w \<Longrightarrow> P (snd (serve K u s cs w))"
proof (induction cs arbitrary: w)
  case (Cons c cs)
  obtain conn payload where c: "c = (conn, payload)" by (cases c)
  have "P (snd (handleConnection K u s conn payload w))"
    using assms Cons.prems by (rule handle_keeps)
  from Cons.IH [OF this] show ?case by (simp add: c split_beta)
qed simp

lemma LoadSockops_keeps_attached:
  "LoadSockops E c l w = (r, l', w') \<Longrightarrow> attached l' = attached l \<and> fl_ifaceName l' = fl_ifaceName l"
  by (auto simp: LoadSockops_def Let_def attached_def split: prod.splits option.splits sum.splits)

lemma enable_sockops_keeps:
  "enable_sockops E fl l w = (lg, l', w') \<Longrightarrow> attached l' = attached l \<and> fl_ifaceName l' = fl_ifaceName l"
  by (auto simp: enable_sockops_def Let_def split: if_splits prod.splits option.splits dest: LoadSockops_keeps_attached)

section \<open>Start-up\<close>

text \<open>The ways through the start-up.\<close>

lemma start_agent_cases:
  obtains (no_loader) err w1 lg m' where "NewFirewallLoader (pf_os F) (af_iface fl) (mc_os m) = (Inl err, w1)"
      "start_agent F fl sched m = (Exited 1, lg, m')" "mc_os m' = w1" "mc_maps m' = mc_maps m"
  | (bad_cidr) l0 w1 l2 l w2 l3 w3 lg m' where "NewFirewallLoader (pf_os F) (af_iface fl) (mc_os m) = (Inr l0, w1)"
      "enable_sockops (pf_os F) fl l0 w1 = (l2, l, w2)"
      "initial_rules F fl sched (mc_maps m) = (Inl l3, w3)"
      "start_agent F fl sched m = (Exited 1, lg, m')" "mc_os m' = w2" "mc_maps m' = w3"
  | (running) l0 w1 l2 l w2 l3 w3 lg m' where "NewFirewallLoader (pf_os F) (af_iface fl) (mc_os m) = (Inr l0, w1)"
      "enable_sockops (pf_os F) fl l0 w1 = (l2, l, w2)"
      "initial_rules F fl sched (mc_maps m) = (Inr l3, w3)"
      "start_agent F fl sched m = (Running (new_agent l), lg @ l3, m')" "mc_os m' = w2" "mc_maps m' = w3"
proof -
  obtain l1 p where caps: "inspect_caps (pf_proc F) (mc_proc m) = (l1, p)" by (rule prod.exhaust)
  obtain r w1 where new: "NewFirewallLoader (pf_os F) (af_iface fl) (mc_os m) = (r, w1)" by (rule prod.exhaust)
  show thesis
  proof (cases r)
    case (Inl err)
    with new no_loader show thesis by (simp add: start_agent_def caps Let_def)
  next
    case (Inr l0)
    obtain l2 l w2 where en: "enable_sockops (pf_os F) fl l0 w1 = (l2, l, w2)" by (rule prod_cases3)
    obtain b w3 where b: "initial_rules F fl sched (mc_maps m) = (b, w3)" by (rule prod.exhaust)
    show thesis
    proof (cases b)
      case (Inl l3)
      with new Inr en b bad_cidr show thesis by (simp add: start_agent_def caps Let_def)
    next
      case l3: (Inr l3)
      have "start_agent F fl sched m = (Running (new_agent l), ((log_starting fl # l1) @ log_attached fl # l2) @ l3,
          m\<lparr>mc_proc := p, mc_os := w2, mc_maps := w3\<rparr>)"
        using new Inr en b l3 by (simp add: start_agent_def caps Let_def)
      from running [OF new [unfolded Inr] en b [unfolded l3] this] show thesis by simp
    qed
  qed
qed

lemma block_cidr_fails:
  "isl (fst (block_cidr K fl w)) \<longleftrightarrow> af_blockCIDR fl \<noteq> [] \<and> fst (AddBlockCIDR K w (af_blockCIDR fl) 101) \<noteq> None"
  by (auto simp: block_cidr_def Let_def split: prod.splits option.splits)

lemma initial_rules_fails:
  "isl (fst (initial_rules F fl sched w)) \<longleftrightarrow>
     af_blockCIDR fl \<noteq> [] \<and> fst (AddBlockCIDR (pf_kernel F) (sc_cidr sched w) (af_blockCIDR fl) 101) \<noteq> None"
  unfolding block_cidr_fails [symmetric] by (auto simp: initial_rules_def Let_def split: prod.splits sum.splits)

text \<open>Whatever a reload keeps, serving connections keeps.\<close>

lemma serve_maps_keeps:
  assumes "\<And>cp w. P w \<Longrightarrow> P (snd (ApplyPolicyAtomic (loader_stager (pf_kernel F)) cp w))" "P w"
  shows "P (serve_maps F s cs w)"
  unfolding serve_maps_def using assms by (rule serve_keeps)

lemma initial_rules_no_flags:
  assumes "af_blockCIDR fl = []" "af_blockCgroup fl = []"
  shows "initial_rules F fl sched w =
    (case load_config F fl sched (sc_config sched (sc_cgroup sched (sc_cidr sched w))) of (l, w') \<Rightarrow> (Inr l, w'))"
  using assms by (simp add: initial_rules_def block_cidr_def block_cgroup_def)

lemma load_config_applies:
  assumes "af_configPath fl \<noteq> []" "af_blockCIDR fl = []" "af_blockCgroup fl = []"
    "ParseFile (pf_readFile F) (pf_unmarshal F) (af_configPath fl) = Inr pol" "Compile pol = Inr cp"
    "load_config F fl sched w = (l, w')" "\<And>k w. sc_during sched k w = w"
  obtains (applied) gen where "ApplyPolicyAtomic (loader_stager (pf_kernel F)) cp w = ((gen, None), w')"
  | (refused) g err where "ApplyPolicyAtomic (loader_stager (pf_kernel F)) cp w = ((g, Some err), w')"
      "l = [''[!] Warning: Could not apply initial policy atomically: '' @ swap_error_text loader_error_text err]"
proof -
  obtain g r w1 where a: "ApplyPolicyAtomic (loader_stager (pf_kernel F)) cp w = ((g, r), w1)" by (metis prod.exhaust)
  then have "reload_among (sc_during sched) (loader_stager (pf_kernel F)) cp w = (Some (g, r), w1)"
    by (simp add: reload_alone [of "sc_during sched", OF assms(7)])
  with assms(1-6) a applied refused show thesis
    by (cases r) (auto simp: load_config_def)
qed

context bpf_kernel
begin

lemma swap_keeps_wf: "lpm_wf (view w) \<Longrightarrow> lpm_wf (view (snd (ApplyPolicyAtomic (loader_stager K) cp w)))"
  by (rule wf.apply_keeps)

end

section \<open>Running\<close>

text \<open>The reads of the ring buffer up to the signal.\<close>

fun ring_reads :: "agent_input list \<Rightarrow> ring_read list" where
  "ring_reads [] = []"
| "ring_reads (Signal # is) = []"
| "ring_reads (Ring r # is) = r # ring_reads is"
| "ring_reads (i # is) = ring_reads is"

lemma ReadRingbuf_on_event:
  "ReadRingbuf on_event rs (st, lg) = (fst (ReadRingbuf Add rs st), snd (ReadRingbuf Add rs st), snd (snd (ReadRingbuf on_event rs (st, lg))))"
  by (induction Add rs st arbitrary: lg rule: ReadRingbuf.induct) (auto simp: on_event_def split: option.splits)

lemma ReadRingbuf_Cons:
  "ReadRingbuf h (r # rs) s =
     (case ReadRingbuf h [r] s of (None, s') \<Rightarrow> ReadRingbuf h rs s' | (Some e, s') \<Rightarrow> (Some e, s'))"
  by (cases r) (auto split: option.splits)

lemma run_agent_stopped: "ag_stopped a \<Longrightarrow> run_agent F is (a, m) = ([], a, m)"
  by (induction "is") (simp_all add: agent_step_def)

lemma ring_step:
  assumes "agent_step F (Ring r) (a, m) = (lg, a', m')" "\<not> ag_stopped a" "ag_streaming a"
  shows "ag_store a' = snd (ReadRingbuf Add [r] (ag_store a)) \<and> m' = m \<and> \<not> ag_stopped a' \<and>
     (ag_streaming a' \<longleftrightarrow> fst (ReadRingbuf Add [r] (ag_store a)) = None)"
proof -
  obtain ret st lg1 where r: "ReadRingbuf on_event [r] (ag_store a, []) = (ret, st, lg1)" by (rule prod_cases3)
  with ReadRingbuf_on_event [of "[r]" "ag_store a" "[]"]
  have "fst (ReadRingbuf Add [r] (ag_store a)) = ret" "snd (ReadRingbuf Add [r] (ag_store a)) = st" by simp_all
  with assms r show ?thesis
    by (auto simp: agent_step_def simp del: ReadRingbuf.simps split: option.splits)
qed

lemma run_agent_store:
  assumes "\<not> ag_stopped a" "run_agent F is (a, m) = (lg, a', m')"
  shows "ag_store a' = (if ag_streaming a then snd (ReadRingbuf Add (ring_reads is) (ag_store a)) else ag_store a)"
  using assms
proof (induction "is" arbitrary: a m lg)
  case (Cons i "is")
  obtain l1 a1 m1 where s: "agent_step F i (a, m) = (l1, a1, m1)" by (rule prod_cases3)
  then obtain l2 where rest: "run_agent F is (a1, m1) = (l2, a', m')"
    using Cons.prems(2) by (auto split: prod.splits)
  show ?case
  proof (cases i)
    case (Ring r)
    show ?thesis
    proof (cases "ag_streaming a")
      case True
      note st = ring_step [OF s [unfolded Ring] Cons.prems(1) True]
      have "ag_store a' = (if ag_streaming a1 then snd (ReadRingbuf Add (ring_reads is) (ag_store a1)) else ag_store a1)"
        using Cons.IH [OF _ rest] st by simp
      then show ?thesis
        using st True unfolding Ring ring_reads.simps
        by (subst ReadRingbuf_Cons) (auto split: prod.splits option.splits)
    next
      case False
      then have "a1 = a" "m1 = m" using s Ring Cons.prems(1) by (auto simp: agent_step_def)
      with False Cons.IH [OF _ rest] Cons.prems(1) show ?thesis by simp
    qed
  next
    case Signal
    then have "ag_stopped a1" "ag_store a1 = ag_store a"
      using s Cons.prems(1) by (auto simp: agent_step_def shutdown_def)
    with run_agent_stopped [of a1 F "is" m1] rest Signal show ?thesis by simp
  qed (use s Cons.prems(1) Cons.IH [OF _ rest] in \<open>auto simp: agent_step_def report_def Let_def split: prod.splits\<close>)
qed simp

lemma agent_step_cases:
  assumes "\<not> ag_stopped a" "agent_step F i (a, m) = (lg, a', m')"
  shows "ag_loader a' = ag_loader a"
    "ag_stopped a' \<longleftrightarrow> i = Signal"
    "mc_os m' = (if i = Signal then snd (Close (pf_os F) (ag_loader a) (mc_os m)) else mc_os m)"
    "mc_maps m' = (case i of
       Connection conn payload \<Rightarrow> snd (handleConnection (pf_kernel F) (pf_unmarshal F) (ctrl_server a) conn payload (mc_maps m))
     | _ \<Rightarrow> mc_maps m)"
proof -
  have "ag_loader a' = ag_loader a \<and> (ag_stopped a' \<longleftrightarrow> i = Signal) \<and>
    mc_os m' = (if i = Signal then snd (Close (pf_os F) (ag_loader a) (mc_os m)) else mc_os m) \<and>
    mc_maps m' = (case i of
       Connection conn payload \<Rightarrow> snd (handleConnection (pf_kernel F) (pf_unmarshal F) (ctrl_server a) conn payload (mc_maps m))
     | _ \<Rightarrow> mc_maps m)"
    using assms
    by (cases i) (auto simp: agent_step_def shutdown_def report_def Let_def simp del: ReadRingbuf.simps
        split: if_splits prod.splits option.splits)
  then show "ag_loader a' = ag_loader a" "ag_stopped a' \<longleftrightarrow> i = Signal"
    "mc_os m' = (if i = Signal then snd (Close (pf_os F) (ag_loader a) (mc_os m)) else mc_os m)"
    "mc_maps m' = (case i of
       Connection conn payload \<Rightarrow> snd (handleConnection (pf_kernel F) (pf_unmarshal F) (ctrl_server a) conn payload (mc_maps m))
     | _ \<Rightarrow> mc_maps m)"
    by simp_all
qed

lemma run_agent_os:
  assumes "\<not> ag_stopped a" "run_agent F is (a, m) = (lg, a', m')"
  shows "mc_os m' = (if Signal \<in> set is then snd (Close (pf_os F) (ag_loader a) (mc_os m)) else mc_os m) \<and>
    ag_loader a' = ag_loader a \<and> (ag_stopped a' \<longleftrightarrow> Signal \<in> set is)"
  using assms
proof (induction "is" arbitrary: a m lg)
  case (Cons i "is")
  obtain l1 a1 m1 where s: "agent_step F i (a, m) = (l1, a1, m1)" by (rule prod_cases3)
  then obtain l2 where rest: "run_agent F is (a1, m1) = (l2, a', m')"
    using Cons.prems(2) by (auto split: prod.splits)
  note step = agent_step_cases [OF Cons.prems(1) s]
  show ?case
  proof (cases "i = Signal")
    case True
    with step rest run_agent_stopped [of a1 F "is" m1] show ?thesis by auto
  next
    case False
    with step Cons.IH [OF _ rest] show ?thesis by auto
  qed
qed simp

lemma run_agent_maps:
  assumes K: "bpf_kernel (pf_kernel F) view inode" and "\<not> ag_stopped a" "run_agent F is (a, m) = (lg, a', m')"
  shows "rtranclp (reload_step inode) (active_policy (view (mc_maps m))) (active_policy (view (mc_maps m'))) \<and>
    (only_active (view (mc_maps m)) \<longrightarrow> only_active (view (mc_maps m'))) \<and>
    (lpm_wf (view (mc_maps m)) \<longrightarrow> lpm_wf (view (mc_maps m')))"
  using assms(2,3)
proof (induction "is" arbitrary: a m lg)
  case (Cons i "is")
  obtain l1 a1 m1 where s: "agent_step F i (a, m) = (l1, a1, m1)" by (rule prod_cases3)
  then obtain l2 where rest: "run_agent F is (a1, m1) = (l2, a', m')"
    using Cons.prems(2) by (auto split: prod.splits)
  note step = agent_step_cases [OF Cons.prems(1) s]
  have one: "rtranclp (reload_step inode) (active_policy (view (mc_maps m))) (active_policy (view (mc_maps m1))) \<and>
    (only_active (view (mc_maps m)) \<longrightarrow> only_active (view (mc_maps m1))) \<and>
    (lpm_wf (view (mc_maps m)) \<longrightarrow> lpm_wf (view (mc_maps m1)))"
  proof (cases "\<exists>conn payload. i = Connection conn payload")
    case True
    then obtain conn payload where i: "i = Connection conn payload" by blast
    obtain r w1 where h: "handleConnection (pf_kernel F) (pf_unmarshal F) (ctrl_server a) conn payload (mc_maps m) = (r, w1)"
      by (rule prod.exhaust)
    with step(4) i have w1: "mc_maps m1 = w1" by simp
    have srv: "srv_loader (ctrl_server a) \<noteq> None" by (simp add: ctrl_server_def NewControlServer_def)
    have "lpm_wf (view (mc_maps m)) \<longrightarrow> lpm_wf (view w1)"
      using handle_keeps [where P = "\<lambda>w. lpm_wf (view w)", OF bpf_kernel.swap_keeps_wf [OF K]] h by (metis snd_conv)
    with bpf_kernel.handle_step [OF K h srv] w1 show ?thesis
      by (auto split: if_splits)
  next
    case False
    with step(4) have "mc_maps m1 = mc_maps m" by (cases i) auto
    then show ?thesis by simp
  qed
  show ?case
  proof (cases "i = Signal")
    case True
    with step rest run_agent_stopped [of a1 F "is" m1] one show ?thesis by auto
  next
    case False
    with step Cons.IH [OF _ rest] have "rtranclp (reload_step inode) (active_policy (view (mc_maps m1))) (active_policy (view (mc_maps m'))) \<and>
      (only_active (view (mc_maps m1)) \<longrightarrow> only_active (view (mc_maps m'))) \<and>
      (lpm_wf (view (mc_maps m1)) \<longrightarrow> lpm_wf (view (mc_maps m')))" by simp
    with one show ?thesis by (meson rtranclp_trans)
  qed
qed simp

lemma start_releases:
  assumes E: "os_journal (pf_os F) vw calm" and start: "start_agent F fl sched m = (Running a, lg, m1)"
    and calm: "calm (snd (Close (pf_os F) (ag_loader a) (mc_os m1)))"
  shows "vw (snd (Close (pf_os F) (ag_loader a) (mc_os m1))) \<in>
    {scrub (af_iface fl) (vw (mc_os m)), del_pin sock_hash_path (scrub (af_iface fl) (vw (mc_os m)))}"
proof (cases rule: start_agent_cases [of F fl m sched])
  case (running l0 w1 l2 l w2 l3 w3 lg' m')
  with start have a: "a = new_agent l" and w2: "mc_os m1 = w2" by auto
  show ?thesis
  proof (cases "af_enableSockops fl")
    case False
    with running(2) have "l = l0" "w2 = w1" by (simp_all add: enable_sockops_def)
    with os_journal.new_then_close [OF E running(1)] a w2 calm show ?thesis by (simp add: new_agent_def)
  next
    case True
    obtain r l' w' where ls: "LoadSockops (pf_os F) (af_sockopsCgroup fl) l0 w1 = (r, l', w')" by (rule prod_cases3)
    with True running(2) have "l = l'" "w2 = w'"
      by (auto simp: enable_sockops_def Let_def split: option.splits)
    with os_journal.new_sockops_close [OF E running(1) ls] a w2 calm show ?thesis by (simp add: new_agent_def)
  qed
qed (use start in simp_all)

section \<open>An agent\<close>

definition ex_platform :: "(ref_proc, ref_sys, ref_world) platform" where
  "ex_platform = \<lparr>pf_proc = ref_proc_kernel, pf_os = ref_os [], pf_kernel = ref_kernel,
     pf_readFile = (\<lambda>p. if p = ''policy.yaml'' then Inr ''demo'' else Inl ''no such file''), pf_unmarshal = ex_unmarshal\<rparr>"

definition ex_flags :: "string \<Rightarrow> agent_flags" where
  "ex_flags cidr = \<lparr>af_iface = ''eth0'', af_configPath = ''policy.yaml'', af_socketPath = ''/run/fw.sock'', af_blockCIDR = cidr,
     af_blockCgroup = [], af_enableSockops = False, af_sockopsCgroup = ''/sys/fs/cgroup''\<rparr>"

definition ex_quiet :: "'w schedule" where
  "ex_quiet = \<lparr>sc_cidr = (\<lambda>w. w), sc_cgroup = (\<lambda>w. w), sc_config = (\<lambda>w. w), sc_during = (\<lambda>_ w. w)\<rparr>"

text \<open>A request is served before the configured policy.\<close>

definition ex_busy :: "ref_world schedule" where
  "ex_busy = ex_quiet\<lparr>sc_config := serve_maps ex_platform (ctrl_server (new_agent (fresh_loader ''eth0'' 7))) [(ex_peer 0, ex_request)]\<rparr>"

definition ex_machine :: "(ref_proc, ref_sys, ref_world) machine" where
  "ex_machine = \<lparr>mc_proc = ex_full_proc, mc_os = ex_sys, mc_maps = ex_start\<rparr>"

lemmas ex_agent_defs = ex_platform_def ex_flags_def ex_quiet_def ex_machine_def

lemma ex_parse: "ParseFile (pf_readFile ex_platform) (pf_unmarshal ex_platform) ''policy.yaml'' = Inr ex_policy"
proof -
  have "Validate ex_policy = None" using ex_compile by (simp add: Validate_None Compile_Inr)
  then show ?thesis by (simp add: ParseFile_def Parse_def ex_platform_def ex_unmarshal_def)
qed

lemma ex_load_config: "snd (load_config ex_platform (ex_flags []) ex_quiet ex_start) = ex_loaded"
  unfolding load_config_def using ex_parse
  by (simp add: ex_flags_def ex_quiet_def reload_alone ex_compile) (simp add: ex_platform_def ex_apply)

lemma ex_agent_up:
  obtains a lg m where "start_agent ex_platform (ex_flags []) sched ex_machine = (Running a, lg, m)"
    "mc_maps m = snd (initial_rules ex_platform (ex_flags []) sched ex_start)" "rs_calm (mc_os m)" "fl_ifaceName (ag_loader a) = ''eth0''"
proof (cases rule: start_agent_cases [of ex_platform "ex_flags []" ex_machine sched])
  case (no_loader err w1 lg m')
  with ex_opens show thesis by (auto simp: ex_agent_defs)
next
  case (bad_cidr l0 w1 l2 l w2 l3 w3 lg m')
  then show thesis using initial_rules_fails [of ex_platform "ex_flags []" sched "mc_maps ex_machine"] by (simp add: ex_flags_def)
next
  case (running l0 w1 l2 l w2 l3 w3 lg m')
  from running(1) obtain "rs_calm w1" "NewFirewallLoader (ref_os []) ''eth0'' ex_sys = (Inr l0, w1)"
    by (rule_tac ex_opens) (simp add: ex_agent_defs)
  moreover have "l = l0" "w2 = w1" using running(2) by (simp_all add: enable_sockops_def ex_flags_def)
  ultimately show thesis
    using running that sys.new_loader_ok(2) by (simp add: ex_machine_def new_agent_def)
qed

lemma ex_agent_runs:
  obtains a lg m where "start_agent ex_platform (ex_flags []) ex_quiet ex_machine = (Running a, lg, m)" "mc_maps m = ex_loaded"
proof -
  have "snd (initial_rules ex_platform (ex_flags []) ex_quiet ex_start) = ex_loaded"
    using ex_load_config by (subst initial_rules_no_flags) (simp_all add: ex_flags_def ex_quiet_def split_beta)
  with that show thesis by (metis ex_agent_up)
qed

section \<open>Properties\<close>

text \<open>C26: The agent exits with status 1 exactly when the loader cannot be opened, or a CIDR block rule is given on the command line and cannot be
  added to the maps as they are then. Otherwise it runs, with the XDP and TC
  programs attached: no other failure stops it, neither of the capabilities, the socket programs, the cgroup
  rule nor the configured policy, and nothing that is served meanwhile.\<close>

theorem agent_comes_up:
  assumes "os_contract (pf_os F) vw"
  shows "if isl (fst (NewFirewallLoader (pf_os F) (af_iface fl) (mc_os m))) \<or>
        af_blockCIDR fl \<noteq> [] \<and> fst (AddBlockCIDR (pf_kernel F) (sc_cidr sched (mc_maps m)) (af_blockCIDR fl) 101) \<noteq> None
    then fst (start_agent F fl sched m) = Exited 1
    else \<exists>a. fst (start_agent F fl sched m) = Running a \<and> attached (ag_loader a) \<and> \<not> ag_stopped a \<and> ag_streaming a"
proof (cases rule: start_agent_cases [of F fl m sched])
  case (bad_cidr l0 w1 l2 l w2 l3 w3 lg m')
  with initial_rules_fails [of F fl sched "mc_maps m"] show ?thesis by simp
next
  case (running l0 w1 l2 l w2 l3 w3 lg m')
  with enable_sockops_keeps [OF running(2)] os_contract.new_loader_ok(1) [OF assms running(1)]
    initial_rules_fails [of F fl sched "mc_maps m"] show ?thesis
    by (simp add: new_agent_def)
qed simp

theorem agent_comes_up_witness:
  "\<exists>a. fst (start_agent ex_platform (ex_flags []) ex_busy ex_machine) = Running a \<and> attached (ag_loader a)"
proof -
  have os: "os_contract (pf_os ex_platform) sys_view"
    using sys.os_contract_axioms [of "[]"] by (simp add: ex_platform_def)
  obtain l s where "NewFirewallLoader (ref_os []) ''eth0'' ex_sys = (Inr l, s)" using ex_opens .
  then have "\<not> isl (fst (NewFirewallLoader (pf_os ex_platform) (af_iface (ex_flags [])) (mc_os ex_machine)))" "af_blockCIDR (ex_flags []) = []"
    by (simp_all add: ex_platform_def ex_flags_def ex_machine_def)
  with agent_comes_up [OF os, where fl = "ex_flags []" and sched = ex_busy and m = ex_machine] show ?thesis by auto
qed



text \<open>C13: Whatever events, ticks, connections and signals reach a running agent, its active policy moves only along reload
  steps, only the active generation holds rules if that was so before, and the prefixes in the trie stay well formed.\<close>

theorem agent_refines_reloads:
  assumes "bpf_kernel (pf_kernel F) view inode" and "\<not> ag_stopped a" and "run_agent F inputs (a, m) = (lg, a', m')"
  shows "rtranclp (reload_step inode) (active_policy (view (mc_maps m))) (active_policy (view (mc_maps m'))) \<and>
    (only_active (view (mc_maps m)) \<longrightarrow> only_active (view (mc_maps m'))) \<and>
    (lpm_wf (view (mc_maps m)) \<longrightarrow> lpm_wf (view (mc_maps m')))"
  using assms by (rule run_agent_maps)

theorem agent_refines_reloads_witness:
  "\<exists>lg a m. run_agent ex_platform [Tick 3, Connection (ex_peer 0) ex_request, Signal]
       (new_agent (fresh_loader ''eth0'' 7), ex_machine) = (lg, a, m) \<and>
     rtranclp (reload_step ref_inode) (active_policy (ref_view ex_start)) (active_policy (ref_view (mc_maps m)))"
proof -
  obtain lg a m where run: "run_agent ex_platform [Tick 3, Connection (ex_peer 0) ex_request, Signal]
       (new_agent (fresh_loader ''eth0'' 7), ex_machine) = (lg, a, m)" by (rule prod_cases3)
  have "bpf_kernel (pf_kernel ex_platform) ref_view ref_inode" using ex_kernel by (simp add: ex_platform_def)
  from agent_refines_reloads [OF this _ run] run show ?thesis
    by (simp add: new_agent_def ex_machine_def)
qed

text \<open>C27: However the goroutines of a running agent interleave, the event store holds what the ring-buffer loop alone would have
  put there: connections and ticks do not disturb it, and nothing is added after the signal.\<close>

theorem agent_store_interleaving:
  assumes "run_agent F inputs (new_agent l, m) = (lg, a', m')"
  shows "ag_store a' = snd (ReadRingbuf Add (ring_reads inputs) (NewAuditStore 1000))"
  using run_agent_store [OF _ assms] by (simp add: new_agent_def)

theorem agent_store_interleaving_witness:
  "\<exists>lg a m. run_agent ex_platform [Ring (RingSample (replicate 56 1)), Tick 3, Ring (RingSample []), Signal, Ring RingClosed]
      (new_agent (fresh_loader ''eth0'' 7), ex_machine) = (lg, a, m) \<and>
    ag_store a = snd (ReadRingbuf Add [RingSample (replicate 56 1), RingSample []] (NewAuditStore 1000))"
proof -
  obtain lg a m where run: "run_agent ex_platform
      [Ring (RingSample (replicate 56 1)), Tick 3, Ring (RingSample []), Signal, Ring RingClosed]
      (new_agent (fresh_loader ''eth0'' 7), ex_machine) = (lg, a, m)" by (rule prod_cases3)
  from agent_store_interleaving [OF run] run show ?thesis by (simp only: ring_reads.simps) blast
qed

text \<open>C18: An agent that came up and receives a signal, at any point of any run, leaves the system as it found it when none of the clean-up calls
  fails: no handle of the process stays open, and the pin, the discipline and the filter of the interface and the pin of the socket map are
  gone.\<close>

theorem agent_cleans_up:
  assumes "os_journal (pf_os F) vw calm" and "start_agent F fl sched m = (Running a, lg, m1)"
    and "run_agent F inputs (a, m1) = (lg', a', m2)" and "Signal \<in> set inputs" and "calm (mc_os m2)"
  shows "ag_stopped a' \<and> vw (mc_os m2) \<in>
    {scrub (af_iface fl) (vw (mc_os m)), del_pin sock_hash_path (scrub (af_iface fl) (vw (mc_os m)))}"
proof -
  have "\<not> ag_stopped a"
    by (cases rule: start_agent_cases [of F fl m sched]) (use assms(2) in \<open>auto simp: new_agent_def\<close>)
  from run_agent_os [OF this assms(3)] assms(4,5) start_releases [OF assms(1,2)] show ?thesis by simp
qed

theorem agent_cleans_up_witness:
  "\<exists>a lg m1 lg' a' m2. start_agent ex_platform (ex_flags []) ex_quiet ex_machine = (Running a, lg, m1) \<and>
     run_agent ex_platform [Tick 3, Signal] (a, m1) = (lg', a', m2) \<and> ag_stopped a' \<and> sys_view (mc_os m2) = sys_view ex_sys"
proof -
  obtain a lg m1 where start: "start_agent ex_platform (ex_flags []) ex_quiet ex_machine = (Running a, lg, m1)"
    and calm: "rs_calm (mc_os m1)" "fl_ifaceName (ag_loader a) = ''eth0''"
    by (rule ex_agent_up)
  obtain lg' a' m2 where run: "run_agent ex_platform [Tick 3, Signal] (a, m1) = (lg', a', m2)" by (rule prod_cases3)
  have up: "\<not> ag_stopped a"
    by (cases rule: start_agent_cases [of ex_platform "ex_flags []" ex_machine ex_quiet]) (use start in \<open>auto simp: new_agent_def\<close>)
  have calm2: "rs_calm (mc_os m2)"
    using run_agent_os [OF up run] calm by (simp add: ex_platform_def ref_Close_calm)
  have "os_journal (pf_os ex_platform) sys_view rs_calm"
    using sys.os_journal_axioms [of "[]"] by (simp add: ex_platform_def)
  moreover have "scrub (af_iface (ex_flags [])) (sys_view (mc_os ex_machine)) = sys_view ex_sys"
    "del_pin sock_hash_path (sys_view ex_sys) = sys_view ex_sys"
    by (simp_all add: ex_flags_def ex_machine_def ex_sys_def sys_view_def scrub_def del_pin_def del_qdisc_def tc_pin_path_def
        sock_hash_path_def)
  ultimately have "ag_stopped a' \<and> sys_view (mc_os m2) = sys_view ex_sys"
    using agent_cleans_up [where vw = sys_view and calm = rs_calm, OF _ start run _ calm2] by auto
  with start run show ?thesis by blast
qed

text \<open>An agent that exits because of a bad CIDR rule has loaded its programs and does not take them back: the filter
  stays on the interface, and with it the pin.\<close>

theorem bad_cidr_leaves_filter:
  "\<exists>lg m. start_agent ex_platform (ex_flags ''x'') ex_quiet ex_machine = (Exited 1, lg, m) \<and>
     ''eth0'' \<in> vw_filters (sys_view (mc_os m)) \<and> tc_pin_path ''eth0'' \<in> vw_pins (sys_view (mc_os m))"
proof (cases rule: start_agent_cases [of ex_platform "ex_flags ''x''" ex_machine ex_quiet])
  case (no_loader err w1 lg m')
  with ex_opens show ?thesis by (auto simp: ex_agent_defs)
next
  case (bad_cidr l0 w1 l2 l w2 l3 w3 lg m')
  have "NewFirewallLoader (ref_os []) ''eth0'' ex_sys = (Inr l0, w1)" "w2 = w1"
    using bad_cidr(1,2) by (simp_all add: ex_agent_defs enable_sockops_def)
  then obtain p w where "vw_filters (sys_view w2) = vw_filters (sys_view (provision_tc (ref_os []) ''eth0'' (tc_pin_path ''eth0'') p w))"
    "vw_pins (sys_view w2) = vw_pins (sys_view (provision_tc (ref_os []) ''eth0'' (tc_pin_path ''eth0'') p w))"
    using sys.opened_keeps by blast
  with bad_cidr(4,5) ref_provision [of "[]" p w] show ?thesis by simp
next
  case (running l0 w1 l2 l w2 l3 w3 lg m')
  have "AddBlockCIDR ref_kernel ex_start ''x'' 101 = (Some (InvalidCIDROrIPv4 ''x''), ex_start)"
    by (simp add: AddBlockCIDR_def StageCIDRRule_def block_net_def ex_bad_text)
  with running(3) show ?thesis
    by (simp add: initial_rules_def block_cidr_def serve_maps_def ex_agent_defs)
qed

end
