(* ===== verification/Ctl.thy ===== *)
theory Ctl
  imports Example_Run Go_Flag
begin

text \<open>
  The command-line client, \<^verbatim>\<open>cmd/firewall-ctl/main.go\<close>: the dispatch on the arguments, the requests of the control client and
  what is printed. The result is the exit status, the lines on the standard output, and the world of the transport. What
  the package \<^verbatim>\<open>flag\<close> prints on the standard error is not recorded.
\<close>

section \<open>Texts\<close>

fun client_error_text :: "client_error \<Rightarrow> string" where
  "client_error_text (DialFailed path e) = ''failed to connect to firewall-agent at '' @ path @ '': '' @ e"
| "client_error_text (SendFailed e) = ''failed to send request: '' @ e"
| "client_error_text (ReceiveFailed e) = ''failed to read response: '' @ e"
| "client_error_text (PolicyReadFailed path e) = ''failed to read policy file '' @ path @ '': '' @ e"

definition default_socket :: string where
  "default_socket = ''/var/run/firewall-agent.sock''"

definition printUsage :: "string list" where
  "printUsage =
     [''Usage: firewall-ctl <command> [options]'', ''Commands:'',
      ''  policy apply -f <file.yaml> [--socket <path>]   Apply policy file atomically'',
      ''  policy status [--socket <path>]                 Show firewall agent status'',
      ''  map dump [--socket <path>]                      Dump active BPF map rules'']"

definition caller_line :: "string \<Rightarrow> Response \<Rightarrow> string list" where
  "caller_line label resp =
     (if rsp_CallerRole resp \<noteq> [] then
        [label @ dec (unat (rsp_CallerUID resp)) @ '' (Role: '' @ rsp_CallerRole resp @ '')'']
      else [])"

definition no_file_text :: string where
  "no_file_text = ''[!] Error: --f <file.yaml> is required for '' @ squote ''policy apply''"

definition apply_refused_text :: "Response \<Rightarrow> string list" where
  "apply_refused_text resp =
     (''[!] Policy apply failed: '' @ rsp_Error resp) #
     (if rsp_CallerRole resp \<noteq> [] then
        [''    Caller Identity: UID='' @ dec (unat (rsp_CallerUID resp)) @ '' Role='' @ rsp_CallerRole resp]
      else [])"

definition applied_text :: "Response \<Rightarrow> string list" where
  "applied_text resp =
     [''[+] Policy applied successfully!'',
      ''    Caller Identity:   UID='' @ dec (unat (rsp_CallerUID resp)) @ '' (Role: '' @ rsp_CallerRole resp @ '')'',
      ''    Active Generation: '' @ dec (unat (rsp_ActiveGeneration resp)),
      ''    Rules Staged:      '' @ dec (rsp_RulesCount resp)]"

definition status_text :: "Response \<Rightarrow> string list" where
  "status_text resp =
     [''=== Firewall Agent Status ===''] @ caller_line ''Authenticated As:  UID='' resp @
     [''Active Generation: '' @ dec (unat (rsp_ActiveGeneration resp))] @
     (case rsp_Stats resp of
        None \<Rightarrow> []
      | Some st \<Rightarrow>
          [''RX Packets:        '' @ dec (unat (ss_RxPackets st)), ''RX Bytes:          '' @ dec (unat (ss_RxBytes st)),
           ''PASS Packets:      '' @ dec (unat (ss_PassPackets st)), ''DROP Packets:      '' @ dec (unat (ss_DropPackets st))]) @
     (if rsp_SockopsEnabled resp then
        ['''', ''--- Sockops Direct Redirect ---''] @
        (case rsp_SockopsStats resp of
           None \<Rightarrow> []
         | Some st \<Rightarrow>
             [''  Sockops Events:    '' @ dec (unat (ss_RxPackets st)), ''  Redirected:        '' @ dec (unat (ss_PassPackets st)),
              ''  Redirect Bytes:    '' @ dec (unat (ss_RxBytes st)), ''  Redirect Failures: '' @ dec (unat (ss_DropPackets st))])
      else [])"

definition dump_text :: "Response \<Rightarrow> string list" where
  "dump_text resp =
     [''=== Active BPF Map State ===''] @ caller_line ''Authenticated As:  UID='' resp @
     [''Active Generation: '' @ dec (unat (rsp_ActiveGeneration resp))]"

definition failed_text :: "string \<Rightarrow> client_error \<Rightarrow> string list" where
  "failed_text what err = [''[!] Failed to '' @ what @ '': '' @ client_error_text err]"

definition refused_text :: "string \<Rightarrow> Response \<Rightarrow> string list" where
  "refused_text what resp = [''[!] Error '' @ what @ '': '' @ rsp_Error resp]"

section \<open>The commands\<close>

type_synonym 'w ctl_result = "int \<times> string list \<times> 'w"

text \<open>The common end of the three commands: an error of the client, a refusal, or the answer.\<close>

definition finish :: "(client_error \<Rightarrow> string list) \<Rightarrow> (Response \<Rightarrow> string list) \<Rightarrow> (Response \<Rightarrow> string list) \<Rightarrow>
    (client_error + Response) \<times> 'w \<Rightarrow> 'w ctl_result" where
  "finish failed refused done r =
     (case r of
        (Inl err, w) \<Rightarrow> (1, failed err, w)
      | (Inr resp, w) \<Rightarrow> if \<not> rsp_Success resp then (1, refused resp, w) else (0, done resp, w))"

definition socket_flags :: flag_set where
  "socket_flags = [''socket'' \<mapsto> FString default_socket]"

definition ctl_apply :: "'w transport \<Rightarrow> (string \<Rightarrow> string + string) \<Rightarrow> string list \<Rightarrow> 'w \<Rightarrow> 'w ctl_result" where
  "ctl_apply T readFile args w =
     (case parse_flags (socket_flags(''f'' \<mapsto> FString [])) args of
        Inl e \<Rightarrow> (exit_status e, [], w)
      | Inr (fs, _) \<Rightarrow>
          if string_flag fs ''f'' = [] then (1, [no_file_text], w)
          else finish (failed_text ''apply policy'') apply_refused_text applied_text
            (ApplyPolicyFile T readFile (string_flag fs ''socket'') (string_flag fs ''f'') w))"

definition ctl_status :: "'w transport \<Rightarrow> string list \<Rightarrow> 'w \<Rightarrow> 'w ctl_result" where
  "ctl_status T args w =
     (case parse_flags socket_flags args of
        Inl e \<Rightarrow> (exit_status e, [], w)
      | Inr (fs, _) \<Rightarrow>
          finish (failed_text ''get status'') (refused_text ''getting status'') status_text
            (GetStatus T (string_flag fs ''socket'') w))"

definition ctl_dump :: "'w transport \<Rightarrow> string list \<Rightarrow> 'w \<Rightarrow> 'w ctl_result" where
  "ctl_dump T args w =
     (case parse_flags socket_flags args of
        Inl e \<Rightarrow> (exit_status e, [], w)
      | Inr (fs, _) \<Rightarrow>
          finish (failed_text ''dump BPF maps'') (refused_text ''dumping maps'') dump_text
            (DumpMaps T (string_flag fs ''socket'') w))"

text \<open>\<open>args\<close> is \<^verbatim>\<open>os.Args\<close>, with the name of the program first.\<close>

definition ctl_main :: "'w transport \<Rightarrow> (string \<Rightarrow> string + string) \<Rightarrow> string list \<Rightarrow> 'w \<Rightarrow> 'w ctl_result" where
  "ctl_main T readFile args w =
     (if length args < 2 then (1, printUsage, w)
      else if args ! 1 = ''policy'' then
        (if length args < 3 then (1, printUsage, w)
         else if args ! 2 = ''apply'' then ctl_apply T readFile (drop 3 args) w
         else if args ! 2 = ''status'' then ctl_status T (drop 3 args) w
         else (1, printUsage, w))
      else if args ! 1 = ''map'' then
        (if length args < 3 \<or> args ! 2 \<noteq> ''dump'' then (1, printUsage, w)
         else ctl_dump T (drop 3 args) w)
      else (1, printUsage, w))"

section \<open>A transport to the server\<close>

text \<open>The package \<^verbatim>\<open>encoding/json\<close> at both ends of the connection.\<close>

record codec =
  cd_encode_request :: "Request \<Rightarrow> string"
  cd_decode_request :: "string \<Rightarrow> decoded_request"
  cd_encode_response :: "Response \<Rightarrow> string"
  cd_decode_response :: "string \<Rightarrow> string + Response"

text \<open>A connection that the server handles: only the socket of the server can be dialled, the request is served when it is sent, and the answer waits to be read.\<close>

definition json_transport ::
  "codec \<Rightarrow> string \<Rightarrow> 'w kernel \<Rightarrow> (string \<Rightarrow> string + Policy) \<Rightarrow> ControlServer \<Rightarrow> peer_conn \<Rightarrow> ('w \<times> string option) transport" where
  "json_transport C sock K unmarshal s conn =
     \<lparr>tp_dial = (\<lambda>path w. if path = sock then None else Some ''connect: no such file or directory''),
      tp_send = (\<lambda>req w.
        case handleConnection K unmarshal s conn (cd_decode_request C (cd_encode_request C req)) (fst w) of
          (r, w') \<Rightarrow> (None, w', map_option (cd_encode_response C) r)),
      tp_receive = (\<lambda>w. case snd w of None \<Rightarrow> (Inl ''EOF'', w) | Some t \<Rightarrow> (cd_decode_response C t, fst w, None))\<rparr>"

text \<open>The same for values that the encoding does not change.\<close>

definition server_transport ::
  "'w kernel \<Rightarrow> (string \<Rightarrow> string + Policy) \<Rightarrow> ControlServer \<Rightarrow> peer_conn \<Rightarrow> ('w \<times> Response option) transport" where
  "server_transport K unmarshal s conn =
     \<lparr>tp_dial = (\<lambda>path w. None),
      tp_send = (\<lambda>req w. case handleConnection K unmarshal s conn (Decoded req) (fst w) of (r, w') \<Rightarrow> (None, w', r)),
      tp_receive = (\<lambda>w. case snd w of None \<Rightarrow> (Inl ''EOF'', w) | Some r \<Rightarrow> (Inr r, fst w, None))\<rparr>"

section \<open>Facts\<close>

lemma finish_status:
  "fst (finish failed refused done r) = 0 \<longleftrightarrow> (\<exists>resp w. r = (Inr resp, w) \<and> rsp_Success resp)"
  "snd (snd (finish failed refused done r)) = snd r"
  by (auto simp: finish_def split: prod.splits sum.splits)

lemma exit_status_0: "exit_status e = 0 \<longleftrightarrow> e = HelpRequested"
  by (simp add: exit_status_def)

text \<open>The request that a command line asks for, with the path of the socket; none for help, a mistake or a missing file.\<close>

definition ctl_request :: "(string \<Rightarrow> string + string) \<Rightarrow> string list \<Rightarrow> (string \<times> Request) option" where
  "ctl_request readFile args =
     (case args of
        p # a # b # rest \<Rightarrow>
          if (a, b) = (''policy'', ''apply'') then
            (case parse_flags (socket_flags(''f'' \<mapsto> FString [])) rest of
               Inr (fs, _) \<Rightarrow>
                 if string_flag fs ''f'' = [] then None
                 else (case readFile (string_flag fs ''f'') of
                   Inr data \<Rightarrow> Some (string_flag fs ''socket'', \<lparr>req_Command = ''apply_policy'', req_PolicyYAML = data\<rparr>)
                 | Inl _ \<Rightarrow> None)
             | Inl _ \<Rightarrow> None)
          else if (a, b) = (''policy'', ''status'') \<or> (a, b) = (''map'', ''dump'') then
            (case parse_flags socket_flags rest of
               Inr (fs, _) \<Rightarrow>
                 Some (string_flag fs ''socket'',
                   \<lparr>req_Command = (if a = ''map'' then ''dump_maps'' else ''get_status''), req_PolicyYAML = []\<rparr>)
             | Inl _ \<Rightarrow> None)
          else None
      | _ \<Rightarrow> None)"

text \<open>A command line that asks for help.\<close>

definition ctl_help :: "string list \<Rightarrow> bool" where
  "ctl_help args \<longleftrightarrow>
     (case args of
        p # a # b # rest \<Rightarrow>
          if (a, b) = (''policy'', ''apply'')
          then parse_flags (socket_flags(''f'' \<mapsto> FString [])) rest = Inl HelpRequested
          else if (a, b) = (''policy'', ''status'') \<or> (a, b) = (''map'', ''dump'')
          then parse_flags socket_flags rest = Inl HelpRequested
          else False
      | _ \<Rightarrow> False)"

lemma ctl_main_short: "\<not> (\<exists>p a b rest. args = p # a # b # rest) \<Longrightarrow>
    ctl_main T readFile args w = (1, printUsage, w) \<and> ctl_request readFile args = None \<and> \<not> ctl_help args"
  by (cases args rule: remdups_adj.cases; cases "tl (tl args)") (auto simp: ctl_main_def ctl_request_def ctl_help_def)

lemma ctl_main_long:
  "ctl_main T readFile (p # a # b # rest) w =
     (if (a, b) = (''policy'', ''apply'') then ctl_apply T readFile rest w
      else if (a, b) = (''policy'', ''status'') then ctl_status T rest w
      else if (a, b) = (''map'', ''dump'') then ctl_dump T rest w
      else (1, printUsage, w))"
  by (simp add: ctl_main_def)

lemma ctl_apply_request:
  "snd (snd (ctl_apply T readFile rest w)) =
     (case ctl_request readFile (p # ''policy'' # ''apply'' # rest) of None \<Rightarrow> w | Some (path, req) \<Rightarrow> snd (SendRequest T path req w))"
  "fst (ctl_apply T readFile rest w) = 0 \<longleftrightarrow> ctl_help (p # ''policy'' # ''apply'' # rest) \<or>
     (\<exists>path req resp w'. ctl_request readFile (p # ''policy'' # ''apply'' # rest) = Some (path, req) \<and>
        SendRequest T path req w = (Inr resp, w') \<and> rsp_Success resp)"
  by (auto simp: ctl_apply_def ctl_request_def ctl_help_def finish_status exit_status_0 ApplyPolicyFile_def
      split: sum.splits)

lemma ctl_query_request:
  "snd (snd (ctl_status T rest w)) =
     (case ctl_request readFile (p # ''policy'' # ''status'' # rest) of None \<Rightarrow> w | Some (path, req) \<Rightarrow> snd (SendRequest T path req w))"
  "fst (ctl_status T rest w) = 0 \<longleftrightarrow> ctl_help (p # ''policy'' # ''status'' # rest) \<or>
     (\<exists>path req resp w'. ctl_request readFile (p # ''policy'' # ''status'' # rest) = Some (path, req) \<and>
        SendRequest T path req w = (Inr resp, w') \<and> rsp_Success resp)"
  "snd (snd (ctl_dump T rest w)) =
     (case ctl_request readFile (p # ''map'' # ''dump'' # rest) of None \<Rightarrow> w | Some (path, req) \<Rightarrow> snd (SendRequest T path req w))"
  "fst (ctl_dump T rest w) = 0 \<longleftrightarrow> ctl_help (p # ''map'' # ''dump'' # rest) \<or>
     (\<exists>path req resp w'. ctl_request readFile (p # ''map'' # ''dump'' # rest) = Some (path, req) \<and>
        SendRequest T path req w = (Inr resp, w') \<and> rsp_Success resp)"
  by (auto simp: ctl_status_def ctl_dump_def ctl_request_def ctl_help_def finish_status exit_status_0 GetStatus_def DumpMaps_def
      split: sum.splits)

text \<open>The command line decides which request is sent, and the answer decides the exit status.\<close>

lemma ctl_main_request:
  "snd (snd (ctl_main T readFile args w)) =
     (case ctl_request readFile args of None \<Rightarrow> w | Some (path, req) \<Rightarrow> snd (SendRequest T path req w)) \<and>
   (fst (ctl_main T readFile args w) = 0 \<longleftrightarrow> ctl_help args \<or>
     (\<exists>path req resp w'. ctl_request readFile args = Some (path, req) \<and>
        SendRequest T path req w = (Inr resp, w') \<and> rsp_Success resp))"
proof (cases "\<exists>p a b rest. args = p # a # b # rest")
  case False
  from ctl_main_short [OF this, of T readFile w] show ?thesis by simp
next
  case True
  then obtain p a b rest where args: "args = p # a # b # rest" by blast
  consider "(a, b) = (''policy'', ''apply'')" | "(a, b) = (''policy'', ''status'')" | "(a, b) = (''map'', ''dump'')"
    | "(a, b) \<noteq> (''policy'', ''apply'')" "(a, b) \<noteq> (''policy'', ''status'')" "(a, b) \<noteq> (''map'', ''dump'')" by blast
  then show ?thesis
  proof cases
    case 1
    then show ?thesis using ctl_apply_request [where T = T and rest = rest and w = w and readFile = readFile and p = p] unfolding args ctl_main_long by simp
  next
    case 2
    then show ?thesis using ctl_query_request(1,2) [where T = T and rest = rest and w = w and readFile = readFile and p = p] unfolding args ctl_main_long by simp
  next
    case 3
    then show ?thesis using ctl_query_request(3,4) [where T = T and rest = rest and w = w and readFile = readFile and p = p] unfolding args ctl_main_long by simp
  next
    case 4
    then have "ctl_request readFile args = None" "\<not> ctl_help args"
      by (simp_all only: args ctl_request_def ctl_help_def list.case if_False simp_thms)
    with 4 show ?thesis unfolding args ctl_main_long by (simp only: if_False fst_conv snd_conv option.case) simp
  qed
qed

section \<open>Properties\<close>

text \<open>C28: \<^verbatim>\<open>firewall-ctl\<close> exits with status 0 exactly when help was asked for or the agent answered its request with success; and it
  contacts the agent only for a complete command line, with the one request that the line stands for.\<close>

theorem ctl_exit_status:
  "(fst (ctl_main T readFile args w) = 0 \<longleftrightarrow> ctl_help args \<or>
     (\<exists>path req resp w'. ctl_request readFile args = Some (path, req) \<and>
        SendRequest T path req w = (Inr resp, w') \<and> rsp_Success resp)) \<and>
   snd (snd (ctl_main T readFile args w)) =
     (case ctl_request readFile args of None \<Rightarrow> w | Some (path, req) \<Rightarrow> snd (SendRequest T path req w))"
  using ctl_main_request [of T readFile args w] by (simp only: conj_commute)

lemma send_to_server:
  assumes "SendRequest (json_transport C sock K u s conn) path req (w, x) = (Inr resp, v)"
  obtains r where "handleConnection K u s conn (cd_decode_request C (cd_encode_request C req)) w = (Some r, fst v)"
    "cd_decode_response C (cd_encode_response C r) = Inr resp" "path = sock"
proof -
  obtain r w' where "handleConnection K u s conn (cd_decode_request C (cd_encode_request C req)) w = (r, w')" by (rule prod.exhaust)
  with assms that show ?thesis
    by (cases r) (auto simp: SendRequest_def json_transport_def split: if_splits sum.splits)
qed

lemma apply_needs_role:
  assumes "handleConnection K u s conn (Decoded req) w = (Some resp, w')" "rsp_Success resp" "req_Command req = ''apply_policy''"
  shows "authorised s conn (Decoded req)"
proof (rule ccontr)
  assume "\<not> authorised s conn (Decoded req)"
  then have "pi_Role (peer_of s conn) \<notin> {RoleAdmin, RoleOperator}"
    using assms(3) by (auto simp: authorised_def)
  with assms show False
    by (auto simp: handleConnection_def EvaluatePermission_def ToLower_apply Let_def)
qed

lemma apply_request:
  assumes "ctl_request readFile (p # ''policy'' # ''apply'' # rest) = Some (path, req)"
  obtains fs extra data where "parse_flags (socket_flags(''f'' \<mapsto> FString [])) rest = Inr (fs, extra)"
    "path = string_flag fs ''socket''" "readFile (string_flag fs ''f'') = Inr data"
    "req = \<lparr>req_Command = ''apply_policy'', req_PolicyYAML = data\<rparr>"
  using assms that by (auto simp: ctl_request_def split: sum.splits prod.splits if_splits)

text \<open>C20: From the command line to the packets: when \<^verbatim>\<open>firewall-ctl policy apply\<close> talks to the server and reports success without being
  asked for help, its caller was an admin or operator, the server listens on the socket that \<^verbatim>\<open>--socket\<close> names, the file that \<^verbatim>\<open>-f\<close> names parsed and
  compiled, and from then on every packet gets the verdict of the rules in that file. The JSON encoding is a parameter: a request that carries the
  text of the file has to survive it, and so has the success flag of a response.\<close>

theorem ctl_apply_governs_packets:
  assumes K: "bpf_kernel K view inode" "lpm_wf (view w)" "srv_loader s \<noteq> None"
    and requests: "\<And>path data. readFile path = Inr data \<Longrightarrow>
        cd_decode_request C (cd_encode_request C \<lparr>req_Command = ''apply_policy'', req_PolicyYAML = data\<rparr>) =
          Decoded \<lparr>req_Command = ''apply_policy'', req_PolicyYAML = data\<rparr>"
    and responses: "\<And>r resp. cd_decode_response C (cd_encode_response C r) = Inr resp \<Longrightarrow> rsp_Success resp = rsp_Success r"
    and run: "ctl_main (json_transport C sock K unmarshal s conn) readFile (p # ''policy'' # ''apply'' # rest) (w, x) = (0, out, w', y)"
    and no_help: "\<not> ctl_help (p # ''policy'' # ''apply'' # rest)"
  shows "pi_Role (peer_of s conn) \<in> {RoleAdmin, RoleOperator} \<and>
    (\<exists>fs extra data pol cp ids. parse_flags (socket_flags(''f'' \<mapsto> FString [])) rest = Inr (fs, extra) \<and> string_flag fs ''socket'' = sock \<and>
       readFile (string_flag fs ''f'') = Inr data \<and> unmarshal data = Inr pol \<and> Compile pol = Inr cp \<and>
       resolved (path_denotes inode) cp ids \<and>
       (\<forall>ctx pkt st. fst (xdp_firewall_func (reads_of K w') ctx pkt st) =
          policy_verdict (ps_Rules (p_Spec pol)) ids (xc_cgroup_id ctx) pkt))"
proof -
  let ?T = "json_transport C sock K unmarshal s conn" and ?args = "p # ''policy'' # ''apply'' # rest"
  from ctl_main_request [of ?T readFile ?args "(w, x)"] run no_help obtain path req resp v where
    req: "ctl_request readFile ?args = Some (path, req)" and
    send: "SendRequest ?T path req (w, x) = (Inr resp, v)" "rsp_Success resp" "v = (w', y)"
    by auto
  obtain fs extra data where flags: "parse_flags (socket_flags(''f'' \<mapsto> FString [])) rest = Inr (fs, extra)" "path = string_flag fs ''socket''"
    and rd: "readFile (string_flag fs ''f'') = Inr data"
    and r: "req = \<lparr>req_Command = ''apply_policy'', req_PolicyYAML = data\<rparr>" by (rule apply_request [OF req])
  obtain answer where "handleConnection K unmarshal s conn (cd_decode_request C (cd_encode_request C req)) w = (Some answer, fst v)"
    and reply: "cd_decode_response C (cd_encode_response C answer) = Inr resp" and sock: "path = sock" by (rule send_to_server [OF send(1)])
  then have h: "handleConnection K unmarshal s conn (Decoded req) w = (Some answer, w')"
    using requests [OF rd] send(3) r by simp
  have ok: "rsp_Success answer" using responses [OF reply] send(2) by simp
  have au: "authorised s conn (Decoded req)"
    using apply_needs_role [OF h ok] r by simp
  from handle_authorised [OF au, of K unmarshal w] h obtain z where z: "apply_policy K unmarshal s data w = (z, w')"
    and "answer = with_caller (peer_of s conn) z" by (auto simp: r) (metis prod.collapse)
  with ok have "rsp_Success z" by simp
  from apply_policy_success [OF z this K(3)] obtain pol cp g where pol: "unmarshal data = Inr pol" "Compile pol = Inr cp"
    and swap: "ApplyPolicyAtomic (loader_stager K) cp w = ((g, None), w')" by blast
  from au have "pi_Role (peer_of s conn) \<in> {RoleAdmin, RoleOperator}" by (simp add: authorised_def)
  with bpf_kernel.xdp_after_reload [OF K(1,2) pol(2) swap] pol rd flags sock show ?thesis by blast
qed

definition ex_readFile :: "string \<Rightarrow> string + string" where
  "ex_readFile p = (if p = ''p.yaml'' then Inr ''demo'' else Inl ''no such file'')"

definition ex_line :: "string list" where
  "ex_line = [''firewall-ctl'', ''policy'', ''apply'', ''-f'', ''p.yaml'']"

lemma ex_line_request:
  "ctl_request ex_readFile ex_line = Some (default_socket, \<lparr>req_Command = ''apply_policy'', req_PolicyYAML = ''demo''\<rparr>)"
  "\<not> ctl_help ex_line"
proof -
  have "parse_flags (socket_flags(''f'' \<mapsto> FString [])) [''-f'', ''p.yaml''] =
      Inr (socket_flags(''f'' \<mapsto> FString ''p.yaml''), [])"
    using parse_flags_string(2) [of "''f''" "socket_flags(''f'' \<mapsto> FString [])" "[]" "''p.yaml''" "[]"]
    by (simp add: plain_name_def)
  then show "ctl_request ex_readFile ex_line = Some (default_socket, \<lparr>req_Command = ''apply_policy'', req_PolicyYAML = ''demo''\<rparr>)"
    "\<not> ctl_help ex_line"
    by (simp_all add: ctl_request_def ctl_help_def ex_line_def ex_readFile_def string_flag_def socket_flags_def)
qed

text \<open>An encoding that is enough for one request: the command, a colon and the text; of a response only whether it is a success.\<close>

definition ex_codec :: codec where
  "ex_codec = \<lparr>cd_encode_request = (\<lambda>r. req_Command r @ '':'' @ req_PolicyYAML r),
     cd_decode_request = (\<lambda>t. Decoded \<lparr>req_Command = takeWhile (\<lambda>c. c \<noteq> CHR '':'') t, req_PolicyYAML = tl (dropWhile (\<lambda>c. c \<noteq> CHR '':'') t)\<rparr>),
     cd_encode_response = (\<lambda>r. if rsp_Success r then ''+'' else ''-''),
     cd_decode_response = (\<lambda>t. Inr (zero_response\<lparr>rsp_Success := t = ''+''\<rparr>))\<rparr>"

lemma ex_codec_round:
  "cd_decode_request ex_codec (cd_encode_request ex_codec \<lparr>req_Command = ''apply_policy'', req_PolicyYAML = data\<rparr>) =
     Decoded \<lparr>req_Command = ''apply_policy'', req_PolicyYAML = data\<rparr>"
  "cd_decode_response ex_codec (cd_encode_response ex_codec r) = Inr (zero_response\<lparr>rsp_Success := rsp_Success r\<rparr>)"
  by (simp_all add: ex_codec_def)

theorem ctl_apply_governs_packets_witness:
  "\<exists>out v. ctl_main (json_transport ex_codec default_socket ref_kernel ex_unmarshal ex_server (ex_peer 0)) ex_readFile ex_line (ex_start, None) =
       (0, out, v) \<and>
     (\<exists>ids. \<forall>ctx pkt st. fst (xdp_firewall_func (reads_of ref_kernel (fst v)) ctx pkt st) =
        policy_verdict [ex_rule] ids (xc_cgroup_id ctx) pkt)"
proof -
  let ?T = "json_transport ex_codec default_socket ref_kernel ex_unmarshal ex_server (ex_peer 0)"
  let ?req = "\<lparr>req_Command = ''apply_policy'', req_PolicyYAML = ''demo''\<rparr>"
  obtain resp where "handleConnection ref_kernel ex_unmarshal ex_server (ex_peer 0) (Decoded ?req) ex_start = (Some resp, ex_loaded)"
    and ok: "rsp_Success resp"
    using handle_authorised [OF ex_authorised(1), of ref_kernel ex_unmarshal ex_start]
    by (auto simp: ex_request_def ex_apply_policy)
  then have send: "SendRequest ?T default_socket ?req (ex_start, None) = (Inr (zero_response\<lparr>rsp_Success := True\<rparr>), ex_loaded, None)"
    by (simp add: SendRequest_def json_transport_def ex_codec_round)
  have run: "fst (ctl_main ?T ex_readFile ex_line (ex_start, None)) = 0"
    using ctl_main_request [of ?T ex_readFile ex_line "(ex_start, None)"] ex_line_request send by auto
  then obtain out w' y where run: "ctl_main ?T ex_readFile ex_line (ex_start, None) = (0, out, w', y)"
    by (metis prod.collapse)
  have "srv_loader ex_server \<noteq> None" by (simp add: ex_server_def NewControlServer_def)
  from ctl_apply_governs_packets [OF ex_kernel ex_wf this ex_codec_round(1) _ run [unfolded ex_line_def] ex_line_request(2) [unfolded ex_line_def]]
  obtain path1 data pol ids where f: "ex_readFile path1 = Inr data" "ex_unmarshal data = Inr pol"
    and v: "\<forall>ctx pkt st. fst (xdp_firewall_func (reads_of ref_kernel w') ctx pkt st) =
          policy_verdict (ps_Rules (p_Spec pol)) ids (xc_cgroup_id ctx) pkt" by (auto simp: ex_codec_round)
  from f have "pol = ex_policy" by (auto simp: ex_readFile_def ex_unmarshal_def split: if_splits)
  with v have "\<forall>ctx pkt st. fst (xdp_firewall_func (reads_of ref_kernel w') ctx pkt st) =
      policy_verdict [ex_rule] ids (xc_cgroup_id ctx) pkt" by (simp add: ex_policy_def)
  with run show ?thesis by auto
qed

end
