(* ===== verification/Tui.thy ===== *)
theory Tui
  imports Ctl
begin

text \<open>
  The terminal UI, \<^verbatim>\<open>cmd/firewall-tui/main.go\<close>: its model, the function \<^verbatim>\<open>Update\<close> on every message, and the text of the view. The
  libraries that draw (the table, the text field, the styles, the joining of boxes) are the fields of a value of
  \<open>('t, 'i, 'c) widgets\<close>; their values have types of their own, and their commands the type \<open>'c\<close>. A style is the list of the
  settings that the source chains. \<^verbatim>\<open>Update\<close> and the view give \<^const>\<open>None\<close> where the code would panic.
\<close>

section \<open>Styles\<close>

datatype style_setting =
    Bold
  | Foreground string
  | Background string
  | Padding int int
  | RoundedBorder
  | NormalBorder
  | BorderBottom
  | BorderForeground string
  | MarginBottom int
  | Width int
  | Height int

type_synonym style = "style_setting list"

definition headerTitleStyle :: style where
  "headerTitleStyle = [Bold, Foreground ''#FFFFFF'', Background ''#7D56F4'', Padding 0 2]"

definition badgeOnline :: style where
  "badgeOnline = [Bold, Foreground ''#000000'', Background ''#00FF87'', Padding 0 1]"

definition badgeOffline :: style where
  "badgeOffline = [Bold, Foreground ''#FFFFFF'', Background ''#FF005F'', Padding 0 1]"

definition badgeGen :: style where
  "badgeGen = [Bold, Foreground ''#000000'', Background ''#00FDFF'', Padding 0 1]"

definition normalBoxStyle :: style where
  "normalBoxStyle = [RoundedBorder, BorderForeground ''#2A2A3B'', Padding 0 1]"

definition activeBoxStyle :: style where
  "activeBoxStyle = [RoundedBorder, BorderForeground ''#00FDFF'', Padding 0 1]"

definition paneHeaderStyle :: style where
  "paneHeaderStyle = [Bold, Foreground ''#00FDFF'', MarginBottom 0]"

definition tagPass :: style where "tagPass = [Bold, Foreground ''#00FF87'']"
definition tagDrop :: style where "tagDrop = [Bold, Foreground ''#FF005F'']"
definition tagWarn :: style where "tagWarn = [Bold, Foreground ''#FFD700'']"
definition tagInfo :: style where "tagInfo = [Bold, Foreground ''#7D56F4'']"

definition selectedLineStyle :: style where
  "selectedLineStyle = [Background ''#3A2766'', Foreground ''#FFFFFF'', Bold]"

definition labelStyle :: style where "labelStyle = [Foreground ''#8F8FAA'', Bold]"
definition valueStyle :: style where "valueStyle = [Foreground ''#00FDFF'', Bold]"

text \<open>What is added to the default styles of the table for its header and its selected row.\<close>

definition tableHeaderStyle :: style where
  "tableHeaderStyle = [NormalBorder, BorderForeground ''#3A2766'', BorderBottom, Bold]"

definition tableSelectedStyle :: style where
  "tableSelectedStyle = [Foreground ''#FFFFFF'', Background ''#7D56F4'', Bold]"

section \<open>Messages, commands and widgets\<close>

text \<open>A key by its name, a new size of the window, a tick, the answer of the agent, or a message for the widgets.\<close>

datatype tui_msg =
    KeyMsg string
  | WindowSizeMsg int int
  | TickMsg
  | StatusMsg "Response option" "client_error option"
  | WidgetMsg nat

datatype 'c tui_cmd = Quit | Blink | TickCmd | FetchStatus | WidgetCmd 'c

record ('t, 'i, 'c) widgets =
  wd_newTable :: "(string \<times> nat) list \<Rightarrow> nat \<Rightarrow> 't"
  wd_setStyles :: "style \<Rightarrow> style \<Rightarrow> 't \<Rightarrow> 't"
  wd_setRows :: "string list list \<Rightarrow> 't \<Rightarrow> 't"
  wd_rows :: "'t \<Rightarrow> string list list"
  wd_tableUpdate :: "tui_msg \<Rightarrow> 't \<Rightarrow> 't \<times> 'c option"
  wd_tableView :: "'t \<Rightarrow> string"
  wd_newInput :: "string \<Rightarrow> nat \<Rightarrow> 'i"
  wd_value :: "'i \<Rightarrow> string"
  wd_focus :: "'i \<Rightarrow> 'i"
  wd_inputUpdate :: "tui_msg \<Rightarrow> 'i \<Rightarrow> 'i \<times> 'c option"
  wd_inputView :: "'i \<Rightarrow> string"
  wd_render :: "style \<Rightarrow> string \<Rightarrow> string"
  wd_joinHorizontal :: "string list \<Rightarrow> string"
  wd_joinVertical :: "string list \<Rightarrow> string"

definition widget_cmds :: "'c option \<Rightarrow> 'c tui_cmd list" where
  "widget_cmds c = (case c of None \<Rightarrow> [] | Some x \<Rightarrow> [WidgetCmd x])"

section \<open>The model\<close>

record ('t, 'i) model =
  m_socketPath :: string
  m_width :: int
  m_height :: int
  m_activePane :: int
  m_connected :: bool
  m_activeGen :: u32
  m_stats :: StatsSummary
  m_sockopsStats :: StatsSummary
  m_sockopsEnabled :: bool
  m_rxHistory :: "u64 list"
  m_dropHistory :: "u64 list"
  m_ctTable :: 't
  m_auditEvents :: "AuditEvent list"
  m_selectedIdx :: int
  m_filterInput :: 'i
  m_isFiltering :: bool
  m_filterQuery :: string

definition zero_summary :: StatsSummary where
  "zero_summary = \<lparr>ss_RxPackets = 0, ss_RxBytes = 0, ss_PassPackets = 0, ss_DropPackets = 0\<rparr>"

definition initialModel :: "('t, 'i, 'c) widgets \<Rightarrow> string \<Rightarrow> ('t, 'i) model" where
  "initialModel W socketPath =
     \<lparr>m_socketPath = socketPath, m_width = 0, m_height = 0, m_activePane = 0, m_connected = False, m_activeGen = 0,
      m_stats = zero_summary, m_sockopsStats = zero_summary, m_sockopsEnabled = False,
      m_rxHistory = replicate 16 0, m_dropHistory = replicate 16 0,
      m_ctTable = wd_setStyles W tableHeaderStyle tableSelectedStyle
        (wd_newTable W [(''SRC ENDPOINT'', 18), (''DST ENDPOINT'', 18), (''PROTO'', 6), (''STATE'', 12), (''PKTS'', 8)] 5),
      m_auditEvents = [], m_selectedIdx = 0,
      m_filterInput = wd_newInput W ''Type to filter events (e.g., DROP, 9090, 10.0.0.1)...'' 64,
      m_isFiltering = False, m_filterQuery = []\<rparr>"

definition Init :: "'c tui_cmd list" where
  "Init = [TickCmd, FetchStatus]"

text \<open>What running the command \<^verbatim>\<open>fetchStatus\<close> sends back.\<close>

definition fetchStatus :: "'w transport \<Rightarrow> string \<Rightarrow> 'w \<Rightarrow> tui_msg \<times> 'w" where
  "fetchStatus T path w =
     (case GetStatus T path w of
        (Inl err, w') \<Rightarrow> (StatusMsg None (Some err), w')
      | (Inr resp, w') \<Rightarrow> (StatusMsg (Some resp) None, w'))"

fun matching_events :: "string \<Rightarrow> AuditEvent list \<Rightarrow> AuditEvent list \<Rightarrow> AuditEvent list" where
  "matching_events q [] res = res"
| "matching_events q (e # es) res =
     matching_events q es (if Contains (ToLower (event_String e)) q then res @ [e] else res)"

definition filteredEvents :: "('t, 'i) model \<Rightarrow> AuditEvent list" where
  "filteredEvents m =
     (if m_filterQuery m = [] then m_auditEvents m
      else matching_events (ToLower (m_filterQuery m)) (m_auditEvents m) [])"

section \<open>Update\<close>

text \<open>A key while the filter is typed: the model and the commands, returned at once.\<close>

definition update_filtering :: "('t, 'i, 'c) widgets \<Rightarrow> string \<Rightarrow> ('t, 'i) model \<Rightarrow> ('t, 'i) model \<times> 'c tui_cmd list" where
  "update_filtering W key m =
     (if key = ''enter'' then (m\<lparr>m_filterQuery := wd_value W (m_filterInput m), m_isFiltering := False\<rparr>, [])
      else if key = ''esc'' then (m\<lparr>m_isFiltering := False\<rparr>, [])
      else (case wd_inputUpdate W (KeyMsg key) (m_filterInput m) of
        (inp, cmd) \<Rightarrow> (m\<lparr>m_filterInput := inp\<rparr>, widget_cmds cmd)))"

text \<open>The other keys; \<^const>\<open>Inl\<close> is an early return.\<close>

definition update_key :: "('t, 'i, 'c) widgets \<Rightarrow> string \<Rightarrow> ('t, 'i) model \<Rightarrow>
    ('t, 'i) model \<times> 'c tui_cmd list + ('t, 'i) model \<times> 'c tui_cmd list" where
  "update_key W key m =
     (if key \<in> {''q'', ''ctrl+c''} then Inl (m, [Quit])
      else if key = ''tab'' then Inr (m\<lparr>m_activePane := (m_activePane m + 1) mod 4\<rparr>, [])
      else if key = ''shift+tab'' then Inr (m\<lparr>m_activePane := (m_activePane m + 3) mod 4\<rparr>, [])
      else if key = ''/'' then Inl (m\<lparr>m_isFiltering := True, m_filterInput := wd_focus W (m_filterInput m)\<rparr>, [Blink])
      else if key = ''c'' then Inr (m\<lparr>m_auditEvents := [], m_selectedIdx := 0\<rparr>, [])
      else if key = ''r'' then Inr (m, [FetchStatus])
      else if key \<in> {''up'', ''k''} then
        Inr (if m_selectedIdx m > 0 then m\<lparr>m_selectedIdx := m_selectedIdx m - 1\<rparr> else m, [])
      else if key \<in> {''down'', ''j''} then
        Inr (if m_selectedIdx m < int (length (filteredEvents m)) - 1 then m\<lparr>m_selectedIdx := m_selectedIdx m + 1\<rparr> else m, [])
      else Inr (m, []))"

definition protoStr :: "u8 \<Rightarrow> string" where
  "protoStr p = (if p = 17 then ''UDP'' else if p = 1 then ''ICMP'' else ''TCP'')"

definition flow_row :: "ConntrackFlowSummary \<Rightarrow> string list" where
  "flow_row f =
     [fs_SrcIP f @ '':'' @ dec (unat (fs_SrcPort f)), fs_DstIP f @ '':'' @ dec (unat (fs_DstPort f)),
      protoStr (fs_Protocol f), fs_State f, dec (unat (fs_Packets f))]"

text \<open>\<^verbatim>\<open>append(h[1:], v)\<close>, which panics when the history is empty.\<close>

definition push_history :: "u64 list \<Rightarrow> u64 \<Rightarrow> u64 list option" where
  "push_history h v = (case h of [] \<Rightarrow> None | _ # r \<Rightarrow> Some (r @ [v]))"

definition record_stats :: "StatsSummary option \<Rightarrow> ('t, 'i) model \<Rightarrow> ('t, 'i) model option" where
  "record_stats st m =
     (case st of
        None \<Rightarrow> Some m
      | Some s \<Rightarrow> (case push_history (m_rxHistory m) (ss_RxPackets s) of
          None \<Rightarrow> None
        | Some rx \<Rightarrow> (case push_history (m_dropHistory m) (ss_DropPackets s) of
            None \<Rightarrow> None
          | Some dr \<Rightarrow> Some (m\<lparr>m_stats := s, m_rxHistory := rx, m_dropHistory := dr\<rparr>))))"

text \<open>The events of an answer replace those of the model; the selection follows the newest one when there are more than before.\<close>

definition record_events :: "AuditEvent list \<Rightarrow> ('t, 'i) model \<Rightarrow> ('t, 'i) model" where
  "record_events evs m =
     (if evs = [] then m
      else let oldLen = length (m_auditEvents m); m1 = m\<lparr>m_auditEvents := evs\<rparr> in
        if length evs > oldLen \<or> m_selectedIdx m1 \<ge> int (length evs)
        then m1\<lparr>m_selectedIdx := int (length evs) - 1\<rparr> else m1)"

definition update_status :: "('t, 'i, 'c) widgets \<Rightarrow> Response option \<Rightarrow> client_error option \<Rightarrow> ('t, 'i) model \<Rightarrow> ('t, 'i) model option" where
  "update_status W resp err m =
     (case (err, resp) of
        (None, Some r) \<Rightarrow>
          if \<not> rsp_Success r then Some (m\<lparr>m_connected := False\<rparr>)
          else (case record_stats (rsp_Stats r) (m\<lparr>m_connected := True, m_activeGen := rsp_ActiveGeneration r\<rparr>) of
            None \<Rightarrow> None
          | Some m1 \<Rightarrow>
              let m2 = m1\<lparr>m_sockopsEnabled := rsp_SockopsEnabled r\<rparr>;
                  m3 = (case rsp_SockopsStats r of None \<Rightarrow> m2 | Some s \<Rightarrow> m2\<lparr>m_sockopsStats := s\<rparr>);
                  m4 = m3\<lparr>m_ctTable := wd_setRows W (map flow_row (rsp_Conntrack r)) (m_ctTable m3)\<rparr>
              in Some (record_events (rsp_AuditEvents r) m4))
      | _ \<Rightarrow> Some (m\<lparr>m_connected := False\<rparr>))"

text \<open>The end of \<^verbatim>\<open>Update\<close>: the focused table sees the message.\<close>

definition update_table :: "('t, 'i, 'c) widgets \<Rightarrow> tui_msg \<Rightarrow> ('t, 'i) model \<times> 'c tui_cmd list \<Rightarrow>
    ('t, 'i) model \<times> 'c tui_cmd list" where
  "update_table W msg r =
     (let (m, cmds) = r in
      if m_activePane m = 1 then
        (case wd_tableUpdate W msg (m_ctTable m) of (t, cmd) \<Rightarrow> (m\<lparr>m_ctTable := t\<rparr>, cmds @ widget_cmds cmd))
      else (m, cmds))"

definition Update :: "('t, 'i, 'c) widgets \<Rightarrow> tui_msg \<Rightarrow> ('t, 'i) model \<Rightarrow> (('t, 'i) model \<times> 'c tui_cmd list) option" where
  "Update W msg m =
     (case msg of
        KeyMsg key \<Rightarrow>
          if m_isFiltering m then Some (update_filtering W key m)
          else (case update_key W key m of Inl r \<Rightarrow> Some r | Inr r \<Rightarrow> Some (update_table W msg r))
      | WindowSizeMsg w h \<Rightarrow> Some (update_table W msg (m\<lparr>m_width := w, m_height := h\<rparr>, []))
      | TickMsg \<Rightarrow> Some (update_table W msg (m, [TickCmd, FetchStatus]))
      | StatusMsg resp err \<Rightarrow> map_option (\<lambda>m'. update_table W msg (m', [])) (update_status W resp err m)
      | WidgetMsg _ \<Rightarrow> Some (update_table W msg (m, [])))"

text \<open>A session: the messages up to the command to quit.\<close>

fun session :: "('t, 'i, 'c) widgets \<Rightarrow> tui_msg list \<Rightarrow> ('t, 'i) model \<Rightarrow> ('t, 'i) model option" where
  "session W [] m = Some m"
| "session W (msg # msgs) m =
     (case Update W msg m of
        None \<Rightarrow> None
      | Some (m', cmds) \<Rightarrow> if Quit \<in> set cmds then Some m' else session W msgs m')"

section \<open>View\<close>

definition newline :: string where
  "newline = [CHR 0x0A]"

text \<open>\<^verbatim>\<open>strings.Join\<close> and \<^verbatim>\<open>strings.Split\<close> with a newline.\<close>

fun join_lines :: "string list \<Rightarrow> string" where
  "join_lines [] = []"
| "join_lines [l] = l"
| "join_lines (l # ls) = l @ newline @ join_lines ls"

fun split_lines :: "string \<Rightarrow> string list" where
  "split_lines [] = [[]]"
| "split_lines (c # s) =
     (if c = CHR 0x0A then [] # split_lines s
      else (case split_lines s of [] \<Rightarrow> [[c]] | l # ls \<Rightarrow> (c # l) # ls))"

text \<open>\<^verbatim>\<open>lines[:maxLines]\<close> panics when the bound is negative.\<close>

definition clampLines :: "string list \<Rightarrow> int \<Rightarrow> string option" where
  "clampLines lines maxLines =
     (if int (length lines) > maxLines then
        (if maxLines < 0 then None else Some (join_lines (take (nat maxLines) lines)))
      else Some (join_lines lines))"

text \<open>The eight bars are UTF-8 texts.\<close>

definition bars :: "string list" where
  "bars =
     ['' '', [CHR 0xE2, CHR 0x96, CHR 0x82], [CHR 0xE2, CHR 0x96, CHR 0x83], [CHR 0xE2, CHR 0x96, CHR 0x84],
      [CHR 0xE2, CHR 0x96, CHR 0x85], [CHR 0xE2, CHR 0x96, CHR 0x86], [CHR 0xE2, CHR 0x96, CHR 0x87],
      [CHR 0xE2, CHR 0x96, CHR 0x88]]"

fun history_max :: "u64 list \<Rightarrow> u64 \<Rightarrow> u64" where
  "history_max [] mx = mx"
| "history_max (v # vs) mx = history_max vs (if v > mx then v else mx)"

text \<open>The bar of a sample: the product wraps around at 64 bits, the quotient is converted to a signed \<^verbatim>\<open>int\<close>, and an index
  outside the list panics.\<close>

definition bar_at :: "u64 \<Rightarrow> u64 \<Rightarrow> string option" where
  "bar_at mx v =
     (let q = sint ((v * of_nat (length bars - 1)) div mx);
          idx = (if q \<ge> int (length bars) then int (length bars) - 1 else q)
      in if idx < 0 then None else Some (bars ! nat idx))"

fun write_bars :: "u64 \<Rightarrow> u64 list \<Rightarrow> string \<Rightarrow> string option" where
  "write_bars mx [] res = Some res"
| "write_bars mx (v # vs) res = (case bar_at mx v of None \<Rightarrow> None | Some b \<Rightarrow> write_bars mx vs (res @ b))"

definition renderSparkline :: "u64 list \<Rightarrow> string option" where
  "renderSparkline history =
     (if history = [] then Some [] else write_bars (history_max history 1) history [])"

text \<open>The difference of the last two samples; it wraps around when the counters went down.\<close>

definition last_delta :: "u64 list \<Rightarrow> u64" where
  "last_delta h = (if length h \<ge> 2 then h ! (length h - 1) - h ! (length h - 2) else 0)"

definition num :: "'a::len word \<Rightarrow> string" where
  "num x = dec (unat x)"

definition label :: "('t, 'i, 'c) widgets \<Rightarrow> string \<Rightarrow> string" where
  "label W s = wd_render W labelStyle s"

definition pane1_lines :: "('t, 'i, 'c) widgets \<Rightarrow> ('t, 'i) model \<Rightarrow> string list option" where
  "pane1_lines W m =
     (case (renderSparkline (m_rxHistory m), renderSparkline (m_dropHistory m)) of
        (Some rx, Some dr) \<Rightarrow> Some
          ([wd_render W paneHeaderStyle ''[1] REAL-TIME WIRE TELEMETRY'',
            label W ''RX PACKETS:'' @ '' '' @ wd_render W valueStyle (num (ss_RxPackets (m_stats m))) @ ''   '' @
              label W ''RX BYTES:'' @ '' '' @ wd_render W valueStyle (num (ss_RxBytes (m_stats m)) @ '' B''),
            label W ''PASS PKTS: '' @ '' '' @ wd_render W tagPass (num (ss_PassPackets (m_stats m))) @ ''   '' @
              label W ''DROP PKTS:'' @ '' '' @ wd_render W tagDrop (num (ss_DropPackets (m_stats m)))] @
           (if m_sockopsEnabled m then
             [label W ''SOCKOPS REDIR:'' @ '' '' @ wd_render W tagInfo (num (ss_PassPackets (m_sockopsStats m))) @ ''   '' @
                label W ''REDIR BYTES:'' @ '' '' @ wd_render W valueStyle (num (ss_RxBytes (m_sockopsStats m)) @ '' B'')]
            else []) @
           [[],
            label W ''RX RATE:  '' @ '' ['' @ wd_render W tagPass rx @ ''] '' @
              wd_render W valueStyle (''+'' @ num (last_delta (m_rxHistory m))),
            label W ''DROP RATE:'' @ '' ['' @ wd_render W tagDrop dr @ ''] '' @
              wd_render W valueStyle (''+'' @ num (last_delta (m_dropHistory m)))])
      | _ \<Rightarrow> None)"

text \<open>Without connections the pane shows a fixed list of rules.\<close>

definition pane2_lines :: "('t, 'i, 'c) widgets \<Rightarrow> ('t, 'i) model \<Rightarrow> string list" where
  "pane2_lines W m =
     wd_render W paneHeaderStyle ''[2] ACTIVE CONNTRACK & MAP RULES'' #
     (if length (wd_rows W (m_ctTable m)) > 0 then split_lines (wd_tableView W (m_ctTable m))
      else
        [wd_render W tagWarn ''No active long-lived TCP flows.'',
         ''ACTIVE RULES IN KERNEL GEN '' @ num (m_activeGen m) @ '':'',
         '' '' @ wd_render W tagDrop ''*'' @ '' Rule 101: Block CIDR 10.0.0.0/28'',
         '' '' @ wd_render W tagPass ''*'' @ '' Rule 102: Allow Web Ports 80, 8080'',
         '' '' @ wd_render W tagDrop ''*'' @ '' Rule 103: Block Cgroup /test-app-blocked'',
         '' '' @ wd_render W tagDrop ''*'' @ '' Rule 201: Block Port 9090 (TCP)''] @
        (if m_sockopsEnabled m then ['' '' @ wd_render W tagInfo ''*'' @ '' Rule 701: Sockops Socket Redirect (Active)'']
         else []))"

text \<open>The times of day that the view prints: now in two layouts, and a kernel timestamp.\<close>

record clock =
  cl_now :: string
  cl_now_ms :: string
  cl_format :: "nat \<Rightarrow> nat \<Rightarrow> string"

definition verdict_tag :: "('t, 'i, 'c) widgets \<Rightarrow> string \<Rightarrow> string \<Rightarrow> string \<Rightarrow> AuditEvent \<Rightarrow> string" where
  "verdict_tag W pass drp redir e =
     (if ev_Verdict e = 1 then wd_render W tagDrop drp
      else if ev_Verdict e = 2 then wd_render W tagInfo redir
      else wd_render W tagPass pass)"

definition event_line :: "('t, 'i, 'c) widgets \<Rightarrow> clock \<Rightarrow> AuditEvent \<Rightarrow> string" where
  "event_line W c e =
     TimestampFormatted (cl_now_ms c) (cl_format c) e @ '' '' @ verdict_tag W ''[PASS]'' ''[DROP]'' ''[REDIRECT]'' e @ '' '' @
     FormattedSrcIP e @ '' -> '' @ FormattedDstIP e @ '':'' @ num (ev_DstPort e) @ '' ('' @ ReasonString e @ '')''"

text \<open>The loop over the events from \<open>startIdx\<close> on; \<open>i\<close> counts along.\<close>

fun stream_lines :: "('t, 'i, 'c) widgets \<Rightarrow> clock \<Rightarrow> int \<Rightarrow> nat \<Rightarrow> AuditEvent list \<Rightarrow> string list" where
  "stream_lines W c sel i [] = []"
| "stream_lines W c sel i (e # es) =
     (if int i = sel then wd_render W selectedLineStyle (event_line W c e) else event_line W c e) #
     stream_lines W c sel (Suc i) es"

definition stream_start :: "AuditEvent list \<Rightarrow> int \<Rightarrow> nat" where
  "stream_start events maxDisplayLines =
     (if int (length events) > maxDisplayLines then nat (int (length events) - maxDisplayLines) else 0)"

definition pane3_lines :: "('t, 'i, 'c) widgets \<Rightarrow> clock \<Rightarrow> int \<Rightarrow> ('t, 'i) model \<Rightarrow> string list" where
  "pane3_lines W c bottomHeight m =
     (let events = filteredEvents m; startIdx = stream_start events (bottomHeight - 2) in
      wd_render W paneHeaderStyle ''[3] VERDICT AUDIT RING BUFFER'' #
      (if events = [] then [wd_render W tagWarn ''Waiting for ring buffer events... Generate network traffic.'']
       else stream_lines W c (m_selectedIdx m) startIdx (drop startIdx events)))"

definition inspected :: "('t, 'i) model \<Rightarrow> AuditEvent option" where
  "inspected m =
     (let events = filteredEvents m in
      if length events > 0 \<and> m_selectedIdx m \<ge> 0 \<and> m_selectedIdx m < int (length events)
      then Some (events ! nat (m_selectedIdx m)) else None)"

definition pane4_lines :: "('t, 'i, 'c) widgets \<Rightarrow> clock \<Rightarrow> ('t, 'i) model \<Rightarrow> string list" where
  "pane4_lines W c m =
     wd_render W paneHeaderStyle ''[4] EVENT INSPECTOR & EXPLAINABILITY'' #
     (case inspected m of
        Some e \<Rightarrow>
          [label W ''VERDICT:    '' @ '' '' @ verdict_tag W ''PASS (0)'' ''DROP (1)'' ''REDIRECT (2)'' e,
           label W ''REASON:     '' @ '' '' @ wd_render W tagWarn (ReasonString e @ '' (Code '' @ num (ev_ReasonCode e) @ '')''),
           label W ''RULE ID:    '' @ '' '' @ wd_render W valueStyle (num (ev_RuleID e)),
           label W ''SOURCE IP:  '' @ '' '' @ wd_render W valueStyle (FormattedSrcIP e) @ '':'' @ num (ev_SrcPort e),
           label W ''DEST IP:    '' @ '' '' @ wd_render W valueStyle (FormattedDstIP e) @ '':'' @ num (ev_DstPort e),
           label W ''PROTOCOL:   '' @ '' '' @ wd_render W valueStyle (ProtocolString e),
           label W ''CGROUP ID:  '' @ '' '' @ wd_render W valueStyle (num (ev_CgroupID e)),
           label W ''KERNEL TIME:'' @ '' '' @ label W (TimestampFormatted (cl_now_ms c) (cl_format c) e)]
      | None \<Rightarrow>
          [wd_render W tagInfo ''Event Inspector HUD Active.'', [],
           label W (''Use [Tab] to select Pane 3 and use up/down or j/k to highlight an audit event '' @
             ''for deep kernel metadata breakdown.'')])"

definition bottom_height :: "('t, 'i) model \<Rightarrow> int" where
  "bottom_height m =
     (let availableHeight = m_height m - 4; bottomHeight = availableHeight - 9 - 2
      in if bottomHeight < 5 then 5 else bottomHeight)"

definition pane_width :: "('t, 'i) model \<Rightarrow> int" where
  "pane_width m = (let w = m_width m div 2 - 4 in if w < 32 then 32 else w)"

text \<open>A pane: the box of its style, with as many lines as fit.\<close>

definition pane :: "('t, 'i, 'c) widgets \<Rightarrow> ('t, 'i) model \<Rightarrow> int \<Rightarrow> int \<Rightarrow> string list \<Rightarrow> string option" where
  "pane W m n height lines =
     map_option (wd_render W ((if m_activePane m = n then activeBoxStyle else normalBoxStyle) @ [Width (pane_width m), Height height]))
       (clampLines lines (height - 1))"

definition header_text :: "('t, 'i, 'c) widgets \<Rightarrow> clock \<Rightarrow> ('t, 'i) model \<Rightarrow> string" where
  "header_text W c m =
     wd_render W (headerTitleStyle @ [Width (m_width m - 4)])
       (''eBPF IDENTITY FIREWALL OMNI-DASHBOARD  |  '' @
        (if m_connected m then wd_render W badgeOnline ''[ONLINE]'' else wd_render W badgeOffline ''[OFFLINE]'') @ ''  '' @
        wd_render W badgeGen (''GEN '' @ num (m_activeGen m)) @ ''  |  '' @ cl_now c)"

definition footer_text :: "('t, 'i, 'c) widgets \<Rightarrow> ('t, 'i) model \<Rightarrow> string" where
  "footer_text W m =
     wd_render W [Foreground ''#00FDFF'', Bold]
       (if m_isFiltering m
        then '' SEARCH FILTER: '' @ wd_inputView W (m_filterInput m) @ ''  (Press Enter to apply, Esc to cancel)''
        else '' [Tab] Focus Pane  |  [/] Filter  |  [j/k] Scroll  |  [c] Clear Stream  |  [r] Refresh  |  [q] Quit'')"

definition too_small_text :: string where
  "too_small_text = ''Terminal window too small. Please expand window bounds to view dashboard.''"

definition View :: "('t, 'i, 'c) widgets \<Rightarrow> clock \<Rightarrow> ('t, 'i) model \<Rightarrow> string option" where
  "View W c m =
     (if m_width m < 75 \<or> m_height m < 18 then Some too_small_text
      else let bh = bottom_height m in
        case (case pane1_lines W m of None \<Rightarrow> None | Some l1 \<Rightarrow> pane W m 0 9 l1, pane W m 1 9 (pane2_lines W m),
              pane W m 2 bh (pane3_lines W c bh m), pane W m 3 bh (pane4_lines W c m)) of
          (Some pane1, Some pane2, Some pane3, Some pane4) \<Rightarrow>
            Some (wd_joinVertical W [header_text W c m, wd_joinHorizontal W [pane1, pane2],
              wd_joinHorizontal W [pane3, pane4], footer_text W m])
        | _ \<Rightarrow> None)"

section \<open>The program\<close>

text \<open>The flags; \<^const>\<open>Inl\<close> is the status of an early exit.\<close>

definition tui_main :: "('t, 'i, 'c) widgets \<Rightarrow> string list \<Rightarrow> int + ('t, 'i) model" where
  "tui_main W args =
     (case parse_flags [''socket'' \<mapsto> FString ''/var/run/firewall-agent.sock''] args of
        Inl e \<Rightarrow> Inl (exit_status e)
      | Inr (fs, _) \<Rightarrow> Inr (initialModel W (string_flag fs ''socket'')))"

section \<open>The invariant\<close>

text \<open>A pane has the focus, the histories have sixteen samples, and the selection is zero or lies within the events.\<close>

definition tui_ok :: "('t, 'i) model \<Rightarrow> bool" where
  "tui_ok m \<longleftrightarrow> m_activePane m \<in> {0, 1, 2, 3} \<and> length (m_rxHistory m) = 16 \<and> length (m_dropHistory m) = 16 \<and>
     0 \<le> m_selectedIdx m \<and> (m_selectedIdx m = 0 \<or> m_selectedIdx m < int (length (m_auditEvents m)))"

lemma matching_events_eq:
  "matching_events q es res = res @ filter (\<lambda>e. Contains (ToLower (event_String e)) q) es"
  by (induction es arbitrary: res) auto

lemma filteredEvents_length: "length (filteredEvents m) \<le> length (m_auditEvents m)"
  by (simp add: filteredEvents_def matching_events_eq)

lemma push_history_ok: "length h = 16 \<Longrightarrow> \<exists>r. push_history h v = Some r \<and> length r = 16"
  by (cases h) (auto simp: push_history_def)

lemma record_stats_ok: "tui_ok m \<Longrightarrow> \<exists>m'. record_stats st m = Some m' \<and> tui_ok m'"
proof (cases st)
  case (Some s)
  assume ok: "tui_ok m"
  then obtain r d where "push_history (m_rxHistory m) (ss_RxPackets s) = Some r" "length r = 16"
    "push_history (m_dropHistory m) (ss_DropPackets s) = Some d" "length d = 16"
    using push_history_ok unfolding tui_ok_def by metis
  with ok Some show ?thesis by (simp add: record_stats_def tui_ok_def)
qed (simp add: record_stats_def)

lemma record_events_ok: "tui_ok m \<Longrightarrow> tui_ok (record_events evs m)"
  by (cases evs) (auto simp: record_events_def tui_ok_def Let_def)

lemma tui_ok_upd [simp]:
  "tui_ok (m\<lparr>m_connected := b\<rparr>) = tui_ok m" "tui_ok (m\<lparr>m_activeGen := g\<rparr>) = tui_ok m"
  "tui_ok (m\<lparr>m_sockopsEnabled := b\<rparr>) = tui_ok m" "tui_ok (m\<lparr>m_sockopsStats := s\<rparr>) = tui_ok m"
  "tui_ok (m\<lparr>m_ctTable := t\<rparr>) = tui_ok m" "tui_ok (m\<lparr>m_width := i\<rparr>) = tui_ok m"
  "tui_ok (m\<lparr>m_height := i\<rparr>) = tui_ok m" "tui_ok (m\<lparr>m_filterInput := inp\<rparr>) = tui_ok m"
  "tui_ok (m\<lparr>m_isFiltering := b\<rparr>) = tui_ok m" "tui_ok (m\<lparr>m_filterQuery := q\<rparr>) = tui_ok m"
  by (simp_all add: tui_ok_def)

lemma update_status_ok: "tui_ok m \<Longrightarrow> \<exists>m'. update_status W resp err m = Some m' \<and> tui_ok m'"
proof (cases "err = None \<and> (\<exists>r. resp = Some r \<and> rsp_Success r)")
  case True
  assume ok: "tui_ok m"
  from True obtain r where r: "err = None" "resp = Some r" "rsp_Success r" by blast
  have "tui_ok (m\<lparr>m_connected := True, m_activeGen := rsp_ActiveGeneration r\<rparr>)" using ok by simp
  from record_stats_ok [OF this, of "rsp_Stats r"] obtain m1 where
    "record_stats (rsp_Stats r) (m\<lparr>m_connected := True, m_activeGen := rsp_ActiveGeneration r\<rparr>) = Some m1" "tui_ok m1" by blast
  with r show ?thesis
    by (auto simp: update_status_def Let_def intro!: record_events_ok split: option.splits)
next
  case False
  assume "tui_ok m"
  with False show ?thesis by (auto simp: update_status_def split: option.splits)
qed

lemma update_table_ok: "tui_ok (fst r) \<Longrightarrow> tui_ok (fst (update_table W msg r))"
  by (auto simp: update_table_def split: prod.splits)

lemma update_filtering_ok: "tui_ok m \<Longrightarrow> tui_ok (fst (update_filtering W key m))"
  by (auto simp: update_filtering_def split: prod.splits)

lemma update_key_ok: "tui_ok m \<Longrightarrow> case update_key W key m of Inl r \<Rightarrow> tui_ok (fst r) | Inr r \<Rightarrow> tui_ok (fst r)"
proof -
  assume ok: "tui_ok m"
  have pane: "tui_ok (m\<lparr>m_activePane := (m_activePane m + k) mod 4\<rparr>)" for k
  proof -
    have "(m_activePane m + k) mod 4 \<in> {0, 1, 2, 3}"
      using pos_mod_bound [of 4 "m_activePane m + k"] pos_mod_sign [of 4 "m_activePane m + k"] by auto
    with ok show ?thesis by (simp add: tui_ok_def)
  qed
  have down: "tui_ok (m\<lparr>m_selectedIdx := m_selectedIdx m + 1\<rparr>)"
    if "m_selectedIdx m < int (length (filteredEvents m)) - 1"
    using ok that filteredEvents_length [of m] by (auto simp: tui_ok_def)
  have up: "tui_ok (m\<lparr>m_selectedIdx := m_selectedIdx m - 1\<rparr>)" if "m_selectedIdx m > 0"
    using ok that by (auto simp: tui_ok_def)
  have clear: "tui_ok (m\<lparr>m_auditEvents := [], m_selectedIdx := 0\<rparr>)"
    using ok by (simp add: tui_ok_def)
  show ?thesis
    unfolding update_key_def using ok pane down up clear by simp
qed

lemma Update_ok: "tui_ok m \<Longrightarrow> \<exists>m' cmds. Update W msg m = Some (m', cmds) \<and> tui_ok m'"
proof (cases msg)
  case (KeyMsg key)
  assume ok: "tui_ok m"
  show ?thesis
  proof (cases "m_isFiltering m")
    case True
    with KeyMsg update_filtering_ok [OF ok, of W key] show ?thesis
      by (cases "update_filtering W key m") (simp add: Update_def)
  next
    case False
    show ?thesis
    proof (cases "update_key W key m")
      case (Inl r)
      with KeyMsg False update_key_ok [OF ok, of W key] show ?thesis by (cases r) (simp add: Update_def)
    next
      case (Inr r)
      with update_key_ok [OF ok, of W key] have "tui_ok (fst (update_table W msg r))" by (simp add: update_table_ok)
      with KeyMsg False Inr show ?thesis
        by (cases "update_table W msg r") (simp add: Update_def)
    qed
  qed
next
  case (WindowSizeMsg w h)
  assume "tui_ok m"
  then have "tui_ok (fst (update_table W msg (m\<lparr>m_width := w, m_height := h\<rparr>, [])))" by (intro update_table_ok) simp
  with WindowSizeMsg show ?thesis
    by (cases "update_table W msg (m\<lparr>m_width := w, m_height := h\<rparr>, [])") (simp add: Update_def)
next
  case TickMsg
  assume "tui_ok m"
  then have "tui_ok (fst (update_table W msg (m, [TickCmd, FetchStatus])))" by (intro update_table_ok) simp
  with TickMsg show ?thesis by (cases "update_table W msg (m, [TickCmd, FetchStatus])") (simp add: Update_def)
next
  case (StatusMsg resp err)
  assume "tui_ok m"
  then obtain m1 where m1: "update_status W resp err m = Some m1" "tui_ok m1" using update_status_ok by blast
  then have "tui_ok (fst (update_table W msg (m1, [])))" by (intro update_table_ok) simp
  with StatusMsg m1 show ?thesis by (cases "update_table W msg (m1, [])") (simp add: Update_def)
next
  case (WidgetMsg n)
  assume "tui_ok m"
  then have "tui_ok (fst (update_table W msg (m, [])))" by (intro update_table_ok) simp
  with WidgetMsg show ?thesis by (cases "update_table W msg (m, [])") (simp add: Update_def)
qed

lemma session_ok: "tui_ok m \<Longrightarrow> \<exists>m'. session W msgs m = Some m' \<and> tui_ok m'"
proof (induction msgs arbitrary: m)
  case (Cons msg msgs)
  then obtain m1 cmds where "Update W msg m = Some (m1, cmds)" "tui_ok m1" using Update_ok by blast
  with Cons.IH [of m1] show ?case by simp
qed simp

lemma initial_ok: "tui_ok (initialModel W path)"
  by (simp add: tui_ok_def initialModel_def)

section \<open>Sparklines\<close>

lemma history_max_ge: "mx \<le> history_max vs mx"
proof (induction vs arbitrary: mx)
  case (Cons v vs)
  show ?case using Cons.IH [of v] Cons.IH [of mx] by (auto intro: order_trans)
qed simp

lemma history_max_upper: "v \<in> set vs \<Longrightarrow> v \<le> history_max vs mx"
proof (induction vs arbitrary: mx)
  case (Cons x vs)
  show ?case
  proof (cases "v = x")
    case True
    have "x \<le> (if x > mx then x else mx)" by auto
    also have "\<dots> \<le> history_max vs (if x > mx then x else mx)" by (rule history_max_ge)
    finally show ?thesis by (simp add: True)
  next
    case False
    with Cons show ?thesis by simp
  qed
qed simp

lemma quotient_value: "unat ((v * 7 :: u64) div mx) = unat v * 7 mod 2 ^ 64 div unat mx"
proof -
  have "unat (v * 7 :: u64) = unat v * 7 mod 2 ^ 64"
    by (simp add: unat_word_ariths)
  then show ?thesis by (simp only: unat_div_distrib)
qed

lemma sint_small: "unat (x :: u64) \<le> 7 \<Longrightarrow> sint x = int (unat x)"
proof -
  assume small: "unat x \<le> 7"
  have "uint x = int (unat x)" by simp
  with small have le: "uint x \<le> 7" by linarith
  have "uint x < 2 ^ 63" by (rule le_less_trans [OF le]) simp
  then have "signed_take_bit 63 (uint x) = uint x"
    by (intro signed_take_bit_int_eq_self) (use uint_nonnegative [of x] in \<open>auto intro: order_trans [of _ 0]\<close>)
  moreover have "sint x = signed_take_bit 63 (uint x)" by (simp add: sint_uint)
  ultimately show ?thesis by simp
qed
text \<open>No sample exceeds the largest, so the quotient is at most seven even if the product wraps around.\<close>

lemma quotient_le:
  assumes "v \<le> mx" "1 \<le> (mx :: u64)"
  shows "unat v * 7 mod 2 ^ 64 div unat mx \<le> 7"
proof -
  have pos: "0 < unat mx" using assms(2) by (simp add: word_le_nat_alt)
  have "unat v * 7 mod 2 ^ 64 div unat mx \<le> unat v * 7 div unat mx"
    by (rule div_le_mono) (rule mod_less_eq_dividend)
  also have "\<dots> \<le> unat mx * 7 div unat mx"
    by (rule div_le_mono) (use assms(1) in \<open>simp add: word_le_nat_alt\<close>)
  also have "\<dots> = 7" using pos by simp
  finally show ?thesis .
qed

lemma bar_at_ok:
  assumes "v \<le> mx" "1 \<le> mx"
  shows "bar_at mx v = Some (bars ! (unat v * 7 mod 2 ^ 64 div unat mx))"
proof -
  let ?q = "(v * 7) div mx"
  have le: "unat ?q \<le> 7" unfolding quotient_value by (rule quotient_le [OF assms])
  have "of_nat (length bars - 1) = (7 :: u64)" "length bars = 8" by (simp_all add: bars_def)
  moreover have "\<not> 8 \<le> uint ?q"
  proof -
    have "uint ?q = int (unat ?q)" by simp
    with le show ?thesis by linarith
  qed
  ultimately have "bar_at mx v = Some (bars ! unat ?q)"
    unfolding bar_at_def Let_def by (simp add: sint_small [OF le])
  then show ?thesis unfolding quotient_value .
qed

lemma write_bars_eq:
  "(\<And>v. v \<in> set vs \<Longrightarrow> bar_at mx v = Some (f v)) \<Longrightarrow> write_bars mx vs res = Some (res @ concat (map f vs))"
  by (induction vs arbitrary: res) auto

lemma sparkline_eq:
  "renderSparkline h = Some (concat (map (\<lambda>v. bars ! (unat v * 7 mod 2 ^ 64 div unat (history_max h 1))) h))"
proof -
  have "bar_at (history_max h 1) v = Some (bars ! (unat v * 7 mod 2 ^ 64 div unat (history_max h 1)))" if "v \<in> set h" for v
    using bar_at_ok [OF history_max_upper [OF that] history_max_ge] .
  then show ?thesis
    unfolding renderSparkline_def by (simp add: write_bars_eq)
qed

section \<open>Lines\<close>

lemma split_lines_neq [simp]: "split_lines s \<noteq> []"
  by (induction s) (auto split: list.splits)

lemma split_lines_single: "CHR 0x0A \<notin> set l \<Longrightarrow> split_lines l = [l]"
  by (induction l) auto

lemma split_lines_append: "CHR 0x0A \<notin> set l \<Longrightarrow> split_lines (l @ newline @ s) = l # split_lines s"
  by (induction l) (auto simp: newline_def split: list.splits)

lemma split_join: "ls \<noteq> [] \<Longrightarrow> (\<And>l. l \<in> set ls \<Longrightarrow> CHR 0x0A \<notin> set l) \<Longrightarrow> split_lines (join_lines ls) = ls"
  by (induction ls rule: join_lines.induct) (simp_all add: split_lines_single split_lines_append)

lemma clampLines_ok: "0 \<le> n \<Longrightarrow> clampLines ls n = Some (join_lines (take (nat n) ls))"
  by (auto simp: clampLines_def)

lemma View_ok: "\<exists>s. View W c m = Some s"
proof -
  have "0 \<le> bottom_height m - 1" by (simp add: bottom_height_def Let_def)
  then show ?thesis
    by (auto simp: View_def Let_def pane_def clampLines_ok pane1_lines_def sparkline_eq)
qed

section \<open>Selection\<close>

lemma inspected_newest:
  assumes "length evs > length (m_auditEvents m)" "m_filterQuery m = []"
  shows "inspected (record_events evs m) = Some (last evs)"
proof -
  have "evs \<noteq> []" using assms(1) by auto
  with assms show ?thesis
    by (auto simp: record_events_def inspected_def filteredEvents_def Let_def last_conv_nth nat_diff_distrib)
qed

text \<open>Clearing the stream lasts until the next answer that has events.\<close>

lemma clear_is_undone: "evs \<noteq> [] \<Longrightarrow> m_auditEvents (record_events evs (m\<lparr>m_auditEvents := [], m_selectedIdx := 0\<rparr>)) = evs"
  by (simp add: record_events_def Let_def)

text \<open>The event store of the agent never shrinks, so once it is full its length stays the same and the selection no longer follows the
  newest event.\<close>

lemma full_store_not_followed:
  "length evs = length (m_auditEvents m) \<Longrightarrow> m_selectedIdx m < int (length evs) \<Longrightarrow>
     m_selectedIdx (record_events evs m) = m_selectedIdx m"
  by (simp add: record_events_def Let_def)

text \<open>The selection counts the unfiltered events. With a filter that hides some, the newest event is selected out of range and the inspector
  shows nothing.\<close>

lemma filter_loses_selection:
  assumes "length evs > length (m_auditEvents m)" "length (filteredEvents (record_events evs m)) < length evs"
  shows "inspected (record_events evs m) = None"
proof -
  have "m_selectedIdx (record_events evs m) = int (length evs) - 1"
    using assms(1) by (auto simp: record_events_def Let_def)
  then show ?thesis using assms(2) by (simp add: inspected_def Let_def)
qed

section \<open>Properties\<close>

text \<open>C19: The terminal UI never panics: for every sequence of messages, and whatever the widgets do, \<^verbatim>\<open>Update\<close> returns, the focus stays on one of
  four panes, the histories keep sixteen samples, the selection stays within the events, and the view can be drawn.\<close>

theorem tui_never_panics:
  "\<exists>m. session W msgs (initialModel W path) = Some m \<and> tui_ok m \<and> (\<forall>c. \<exists>s. View W c m = Some s)"
  using session_ok [OF initial_ok] View_ok by blast

text \<open>C35: A sparkline has one of the eight bars for every sample. Its height is seven times the sample divided by the largest, rounded
  down, for samples below two to the 64 divided by seven; above that the product wraps around, but the index stays in range.\<close>

theorem sparkline_bars:
  "renderSparkline h = Some (concat (map (\<lambda>v. bars ! (unat v * 7 mod 2 ^ 64 div unat (history_max h 1))) h)) \<and>
   (\<forall>v \<in> set h. unat v * 7 mod 2 ^ 64 div unat (history_max h 1) < length bars \<and>
      (unat v * 7 < 2 ^ 64 \<longrightarrow>
         unat v * 7 mod 2 ^ 64 div unat (history_max h 1) = unat v * 7 div unat (history_max h 1)))"
proof (intro conjI ballI impI sparkline_eq)
  fix v assume "v \<in> set h"
  from quotient_le [OF history_max_upper [OF this] history_max_ge]
  show "unat v * 7 mod 2 ^ 64 div unat (history_max h 1) < length bars" by (simp add: bars_def)
qed simp

theorem sparkline_bars_witness:
  "renderSparkline [0, 50, 100] = Some (concat (map ((!) bars) [0, 3, 7])) \<and> 7 < length bars"
proof -
  have "history_max [0, 50, 100] 1 = 100" by simp
  with sparkline_bars [of "[0, 50, 100]"] show ?thesis by (simp add: bars_def)
qed

text \<open>The text of a pane has no more lines than fit: split at its newlines, it gives back the first lines, as many as the bound says.\<close>

theorem clamped_text:
  assumes "0 < n" "lines \<noteq> []" "\<And>l. l \<in> set lines \<Longrightarrow> CHR 0x0A \<notin> set l"
  shows "\<exists>t. clampLines lines n = Some t \<and> split_lines t = take (nat n) lines \<and> length (split_lines t) \<le> nat n"
proof -
  have "split_lines (join_lines (take (nat n) lines)) = take (nat n) lines"
    using assms by (intro split_join) (auto dest: in_set_takeD)
  then show ?thesis using assms(1) by (simp add: clampLines_ok)
qed

theorem clamped_text_witness:
  "\<exists>t. clampLines [''one'', ''two'', ''three''] 2 = Some t \<and> split_lines t = [''one'', ''two'']"
proof -
  have "\<exists>t. clampLines [''one'', ''two'', ''three''] 2 = Some t \<and> split_lines t = take (nat 2) [''one'', ''two'', ''three''] \<and>
      length (split_lines t) \<le> nat 2"
    by (rule clamped_text) auto
  then show ?thesis by auto
qed

text \<open>The filter of the UI and the filter of the event store agree: for a query without surrounding white space, the events that the UI
  shows are those that \<^verbatim>\<open>Filter\<close> would return on the same events for all verdicts.\<close>

theorem tui_filter_agrees:
  assumes "TrimSpace (m_filterQuery m) = m_filterQuery m"
  shows "filteredEvents m = Filter '''' (m_filterQuery m) \<lparr>as_capacity = c, as_events = m_auditEvents m\<rparr>"
proof -
  have "norm_word '''' = ''''" by code_simp
  then show ?thesis
    using assms by (auto simp: filteredEvents_def matching_events_eq Filter_def filter_events_eq ToLower.simps)
qed

definition ex_widgets :: "(string list list, string, nat) widgets" where
  "ex_widgets = \<lparr>wd_newTable = (\<lambda>cols h. []), wd_setStyles = (\<lambda>h s t. t), wd_setRows = (\<lambda>rows t. rows), wd_rows = id,
     wd_tableUpdate = (\<lambda>msg t. (t, None)), wd_tableView = concat \<circ> concat, wd_newInput = (\<lambda>p n. []), wd_value = id,
     wd_focus = id, wd_inputUpdate = (\<lambda>msg i. (case msg of KeyMsg k \<Rightarrow> i @ k | _ \<Rightarrow> i, None)), wd_inputView = id,
     wd_render = (\<lambda>st s. s), wd_joinHorizontal = concat, wd_joinVertical = join_lines\<rparr>"

theorem tui_filter_agrees_witness:
  "filteredEvents (initialModel ex_widgets ''s'') = Filter '''' [] \<lparr>as_capacity = 9, as_events = []\<rparr>"
proof -
  have "m_filterQuery (initialModel ex_widgets ''s'') = []" "m_auditEvents (initialModel ex_widgets ''s'') = []"
    "TrimSpace '''' = ''''"
    by (simp add: initialModel_def, simp add: initialModel_def, code_simp)
  with tui_filter_agrees [of "initialModel ex_widgets ''s''" 9] show ?thesis by simp
qed

lemma get_status_permitted: "EvaluatePermission (pi_Role (peer_of s conn)) ''get_status'' = None"
proof -
  have "ToLower ''get_status'' = ''get_status''" by code_simp
  moreover have "pi_Role (peer_of s conn) \<in> {RoleAdmin, RoleOperator, RoleViewer}"
    by (auto simp: peer_of_def ResolveRole_def split: sum.splits)
  ultimately show ?thesis by (auto simp: EvaluatePermission_def)
qed

lemma fetch_from_server:
  "fetchStatus (server_transport K u s conn) path (w, x) =
     (StatusMsg (Some (with_caller (peer_of s conn) (get_status K s w))) None, w, None)"
  by (simp add: fetchStatus_def GetStatus_def SendRequest_def server_transport_def handleConnection_def
      get_status_permitted processRequest_def Let_def)

lemma update_table_sel [simp]:
  "m_connected (fst (update_table W msg r)) = m_connected (fst r)" "m_activeGen (fst (update_table W msg r)) = m_activeGen (fst r)"
  "m_stats (fst (update_table W msg r)) = m_stats (fst r)" "m_rxHistory (fst (update_table W msg r)) = m_rxHistory (fst r)"
  "m_auditEvents (fst (update_table W msg r)) = m_auditEvents (fst r)"
  by (auto simp: update_table_def split: prod.splits)

lemma record_events_sel [simp]:
  "m_connected (record_events evs m) = m_connected m" "m_activeGen (record_events evs m) = m_activeGen m"
  "m_stats (record_events evs m) = m_stats m" "m_rxHistory (record_events evs m) = m_rxHistory m"
  "m_auditEvents (record_events evs m) = (if evs = [] then m_auditEvents m else evs)"
  by (simp_all add: record_events_def Let_def)

text \<open>C29: One poll of a running server brings the UI up to date: whoever runs it, the answer connects it, and it shows the active
  generation, the counters with their new sample in the history, and the events of the agent's store if there are any.\<close>

theorem tui_shows_agent:
  assumes "tui_ok m" "srv_loader s \<noteq> None"
    and "fetchStatus (server_transport K unmarshal s conn) path (w, x) = (msg, v)"
  shows "\<exists>m' cmds. Update W msg m = Some (m', cmds) \<and> m_connected m' \<and> m_activeGen m' = active_gen K w \<and>
    m_stats m' = stats_summary (GetStats K w) \<and> last (m_rxHistory m') = RxPackets (GetStats K w) \<and>
    (audit_events s \<noteq> [] \<longrightarrow> m_auditEvents m' = audit_events s)"
proof -
  obtain so where so: "srv_loader s = Some so" using assms(2) by blast
  obtain g where g: "GetActiveGeneration K w = Inr g" "active_gen K w = g"
    by (cases "k_gen_lookup K w 0") (simp_all add: GetActiveGeneration_def active_gen_def)
  let ?r = "with_caller (peer_of s conn) (get_status K s w)" and ?st = "stats_summary (GetStats K w)"
  have r: "rsp_Success ?r" "rsp_ActiveGeneration ?r = g" "rsp_Stats ?r = Some ?st" "rsp_AuditEvents ?r = audit_events s"
    using so g by (simp_all add: get_status_def with_caller_def zero_response_def)
  have msg: "msg = StatusMsg (Some ?r) None" using assms(3) by (simp add: fetch_from_server)
  obtain rx dr where h: "push_history (m_rxHistory m) (ss_RxPackets ?st) = Some rx" "push_history (m_dropHistory m) (ss_DropPackets ?st) = Some dr"
    using assms(1) push_history_ok unfolding tui_ok_def by metis
  have last: "last rx = RxPackets (GetStats K w)"
    using h(1) by (auto simp: push_history_def stats_summary_def split: list.splits)
  obtain m1 where m1: "update_status W (Some ?r) None m = Some m1" "m_connected m1" "m_activeGen m1 = g" "m_stats m1 = ?st"
    "m_rxHistory m1 = rx" "audit_events s \<noteq> [] \<longrightarrow> m_auditEvents m1 = audit_events s"
    using r h by (auto simp: update_status_def record_stats_def Let_def split: option.splits)
  have u: "Update W msg m = Some (update_table W msg (m1, []))" using m1(1) by (simp add: Update_def msg)
  obtain m' cmds where t: "update_table W msg (m1, []) = (m', cmds)" by (rule prod.exhaust)
  with update_table_sel [of W msg "(m1, [])"] m1 last g u show ?thesis by simp
qed

theorem tui_shows_agent_witness:
  "\<exists>m cmds. Update ex_widgets (fst (fetchStatus (server_transport ref_kernel ex_unmarshal ex_server (ex_peer 1002)) ''s'' (ex_loaded, None)))
      (initialModel ex_widgets ''s'') = Some (m, cmds) \<and> m_connected m \<and> m_activeGen m = 1"
proof -
  obtain msg v where f: "fetchStatus (server_transport ref_kernel ex_unmarshal ex_server (ex_peer 1002)) ''s'' (ex_loaded, None) = (msg, v)"
    by (rule prod.exhaust)
  have "srv_loader ex_server \<noteq> None" by (simp add: ex_server_def NewControlServer_def)
  moreover have "active_gen ref_kernel ex_loaded = 1"
    by (simp add: active_gen_def GetActiveGeneration_def ref_kernel_def ex_loaded_def)
  ultimately show ?thesis
    using tui_shows_agent [OF initial_ok _ f, of ex_widgets ex_widgets "''s''"] f by auto
qed

end
