(* ===== verification/Tc_Program.thy ===== *)
theory Tc_Program
  imports Xdp_Program Conntrack Control
begin

text \<open>
  The TC program, \<^verbatim>\<open>bpf/tc_firewall.c\<close> with \<^verbatim>\<open>headers/state_machine.h\<close>: connection tracking for TCP. The table is a finite map from flow
  keys to flow states, shared by both directions of a connection under a forward and a reverse key. An insertion into the LRU
  table may fail or evict other entries; which ones is a parameter.
\<close>

section \<open>Segments\<close>

definition tcp_flags :: "u8 list \<Rightarrow> u8" where
  "tcp_flags pkt = pkt ! 47"

definition tcp_fin :: "u8 list \<Rightarrow> bool" where "tcp_fin pkt = bit (tcp_flags pkt) 0"
definition tcp_syn :: "u8 list \<Rightarrow> bool" where "tcp_syn pkt = bit (tcp_flags pkt) 1"
definition tcp_rst :: "u8 list \<Rightarrow> bool" where "tcp_rst pkt = bit (tcp_flags pkt) 2"
definition tcp_ack :: "u8 list \<Rightarrow> bool" where "tcp_ack pkt = bit (tcp_flags pkt) 4"

definition is_tcp_syn :: "u8 list \<Rightarrow> bool" where
  "is_tcp_syn pkt \<longleftrightarrow> tcp_syn pkt \<and> \<not> tcp_ack pkt"

definition is_tcp_syn_ack :: "u8 list \<Rightarrow> bool" where
  "is_tcp_syn_ack pkt \<longleftrightarrow> tcp_syn pkt \<and> tcp_ack pkt"

definition is_tcp_fin_or_rst :: "u8 list \<Rightarrow> bool" where
  "is_tcp_fin_or_rst pkt \<longleftrightarrow> tcp_fin pkt \<or> tcp_rst pkt"

definition key_fwd :: "u8 list \<Rightarrow> flow_key" where
  "key_fwd pkt = \<lparr>fk_src_ip = ip_saddr pkt, fk_dst_ip = ip_daddr pkt, fk_src_port = be16 pkt 34, fk_dst_port = be16 pkt 36,
     fk_protocol = ip_protocol pkt, fk_pad = [0, 0, 0]\<rparr>"

definition key_rev :: "u8 list \<Rightarrow> flow_key" where
  "key_rev pkt = \<lparr>fk_src_ip = ip_daddr pkt, fk_dst_ip = ip_saddr pkt, fk_src_port = be16 pkt 36, fk_dst_port = be16 pkt 34,
     fk_protocol = ip_protocol pkt, fk_pad = [0, 0, 0]\<rparr>"

section \<open>The table\<close>

type_synonym conntrack = "flow_key \<rightharpoonup> flow_state"

text \<open>What an insertion of a key does to the others: \<^const>\<open>None\<close> is a failed insertion, otherwise the keys that are evicted.\<close>

type_synonym eviction = "conntrack \<Rightarrow> flow_key \<Rightarrow> flow_key list option"

definition lru_update :: "eviction \<Rightarrow> flow_key \<Rightarrow> flow_state \<Rightarrow> conntrack \<Rightarrow> conntrack" where
  "lru_update ev k v ct =
     (case ev ct k of
        None \<Rightarrow> ct
      | Some gone \<Rightarrow> (\<lambda>k'. if k' = k then Some v else if k' \<in> set gone then None else ct k'))"

text \<open>A write through a pointer into the table.\<close>

definition modify :: "(flow_state \<Rightarrow> flow_state) \<Rightarrow> flow_key \<Rightarrow> conntrack \<Rightarrow> conntrack" where
  "modify f k ct = (case ct k of None \<Rightarrow> ct | Some s \<Rightarrow> ct(k \<mapsto> f s))"

section \<open>The program\<close>

record tc_ctx =
  tx_len :: u32
  tx_ctx :: xdp_ctx

datatype tc_action = TC_ACT_OK | TC_ACT_SHOT

definition is_tcp_packet :: "u8 list \<Rightarrow> bool" where
  "is_tcp_packet pkt \<longleftrightarrow> is_ipv4 pkt \<and> ip_protocol pkt = 6 \<and> 54 \<le> length pkt"

definition tc_count_rx :: "tc_ctx \<Rightarrow> stats_value \<Rightarrow> stats_value" where
  "tc_count_rx ctx st = st\<lparr>sv_rx_packets := sv_rx_packets st + 1, sv_rx_bytes := sv_rx_bytes st + ucast (tx_len ctx)\<rparr>"

definition new_flow :: "tc_ctx \<Rightarrow> flow_state" where
  "new_flow ctx = \<lparr>fls_state = 1, fls_packets = 1, fls_bytes = ucast (tx_len ctx), fls_last_seen = xc_ktime (tx_ctx ctx),
     fls_flags = 0, fls_pad = 0\<rparr>"

definition establish :: "flow_state \<Rightarrow> flow_state" where
  "establish s = s\<lparr>fls_state := 3\<rparr>"

definition touch :: "tc_ctx \<Rightarrow> flow_state \<Rightarrow> flow_state" where
  "touch ctx s = s\<lparr>fls_packets := fls_packets s + 1, fls_bytes := fls_bytes s + ucast (tx_len ctx),
     fls_last_seen := xc_ktime (tx_ctx ctx)\<rparr>"

text \<open>The entry that the lookups find: \<^verbatim>\<open>state\<close> points to the value under this key.\<close>

definition tracked_key :: "conntrack \<Rightarrow> u8 list \<Rightarrow> flow_key option" where
  "tracked_key ct pkt =
     (if ct (key_fwd pkt) \<noteq> None then Some (key_fwd pkt)
      else if ct (key_rev pkt) \<noteq> None then Some (key_rev pkt) else None)"

text \<open>The part for a tracked flow, on the entry under the key \<open>k\<close>.\<close>

definition advance :: "tc_ctx \<Rightarrow> u8 list \<Rightarrow> flow_key \<Rightarrow> conntrack \<Rightarrow> conntrack" where
  "advance ctx pkt k ct =
     (let ct1 = (if (case ct k of Some s \<Rightarrow> fls_state s = 1 | None \<Rightarrow> False) \<and> (is_tcp_syn_ack pkt \<or> tcp_ack pkt)
                 then modify establish (key_rev pkt) (modify establish k ct) else ct)
      in if is_tcp_fin_or_rst pkt then ct1(key_fwd pkt := None, key_rev pkt := None)
         else modify (touch ctx) k ct1)"

definition tc_firewall_func :: "eviction \<Rightarrow> tc_ctx \<Rightarrow> u8 list \<Rightarrow> stats_value option \<Rightarrow> conntrack \<Rightarrow>
    tc_action \<times> stats_value option \<times> AuditEvent option \<times> conntrack" where
  "tc_firewall_func ev ctx pkt stats0 ct =
     (if \<not> 14 \<le> length pkt then (TC_ACT_OK, stats0, None, ct)
      else if be16 pkt 12 \<noteq> 0x0800 then (TC_ACT_OK, stats0, None, ct)
      else if \<not> 34 \<le> length pkt then (TC_ACT_OK, stats0, None, ct)
      else if ip_protocol pkt \<noteq> 6 then (TC_ACT_OK, stats0, None, ct)
      else if \<not> 54 \<le> length pkt then (TC_ACT_OK, stats0, None, ct)
      else
        let stats = map_option (tc_count_rx ctx) stats0 in
        case tracked_key ct pkt of
          None \<Rightarrow>
            if is_tcp_syn pkt then
              (TC_ACT_OK, map_option count_pass stats, None,
               lru_update ev (key_rev pkt) (new_flow ctx) (lru_update ev (key_fwd pkt) (new_flow ctx) ct))
            else (TC_ACT_SHOT, map_option count_drop stats, mk_event (tx_ctx ctx) pkt 1 5 201 0, ct)
        | Some k \<Rightarrow> (TC_ACT_OK, map_option count_pass stats, None, advance ctx pkt k ct))"

text \<open>The packets of an interface one after the other: the verdicts and the table.\<close>

fun tc_run :: "eviction \<Rightarrow> (tc_ctx \<times> u8 list) list \<Rightarrow> conntrack \<Rightarrow> tc_action list \<times> conntrack" where
  "tc_run ev [] ct = ([], ct)"
| "tc_run ev ((ctx, pkt) # ps) ct =
     (case tc_firewall_func ev ctx pkt None ct of
        (a, _, _, ct1) \<Rightarrow> (case tc_run ev ps ct1 of (as, ct2) \<Rightarrow> (a # as, ct2)))"

text \<open>Reachable tables: packets, and at any moment the kernel may evict an entry.\<close>

inductive tc_step :: "eviction \<Rightarrow> conntrack \<Rightarrow> conntrack \<Rightarrow> bool" for ev :: eviction where
  packet: "tc_step ev ct (snd (snd (snd (tc_firewall_func ev ctx pkt st ct))))"
| evict: "tc_step ev ct (ct(k := None))"

inductive_cases tc_stepE: "tc_step ev ct ct'"

definition tc_reachable :: "eviction \<Rightarrow> conntrack \<Rightarrow> bool" where
  "tc_reachable ev ct \<longleftrightarrow> rtranclp (tc_step ev) Map.empty ct"

section \<open>Facts\<close>

lemma tc_cases:
  obtains (other) "\<not> is_tcp_packet pkt" "tc_firewall_func ev ctx pkt st ct = (TC_ACT_OK, st, None, ct)"
  | (fresh) "is_tcp_packet pkt" "tracked_key ct pkt = None" "is_tcp_syn pkt"
      "tc_firewall_func ev ctx pkt st ct = (TC_ACT_OK, map_option count_pass (map_option (tc_count_rx ctx) st), None,
        lru_update ev (key_rev pkt) (new_flow ctx) (lru_update ev (key_fwd pkt) (new_flow ctx) ct))"
  | (untracked) "is_tcp_packet pkt" "tracked_key ct pkt = None" "\<not> is_tcp_syn pkt"
      "tc_firewall_func ev ctx pkt st ct = (TC_ACT_SHOT, map_option count_drop (map_option (tc_count_rx ctx) st),
        mk_event (tx_ctx ctx) pkt 1 5 201 0, ct)"
  | (tracked) k where "is_tcp_packet pkt" "tracked_key ct pkt = Some k"
      "tc_firewall_func ev ctx pkt st ct = (TC_ACT_OK, map_option count_pass (map_option (tc_count_rx ctx) st), None,
        advance ctx pkt k ct)"
proof (cases "is_tcp_packet pkt")
  case False
  then show thesis by (intro other) (auto simp: is_tcp_packet_def is_ipv4_def tc_firewall_func_def)
next
  case True
  note run = tc_firewall_func_def [of ev ctx pkt st ct] True [unfolded is_tcp_packet_def is_ipv4_def]
  show thesis
  proof (cases "tracked_key ct pkt")
    case None
    with run True show thesis by (cases "is_tcp_syn pkt") (auto intro: fresh untracked)
  next
    case (Some k)
    with run True show thesis by (intro tracked) (simp_all add: Let_def)
  qed
qed

lemma tracked_key_None: "tracked_key ct pkt = None \<longleftrightarrow> ct (key_fwd pkt) = None \<and> ct (key_rev pkt) = None"
  by (simp add: tracked_key_def)

lemma tracked_key_cases: "tracked_key ct pkt = Some k \<Longrightarrow> k \<in> {key_fwd pkt, key_rev pkt} \<and> ct k \<noteq> None"
  by (auto simp: tracked_key_def split: if_splits)

section \<open>The states\<close>

definition states_ok :: "conntrack \<Rightarrow> bool" where
  "states_ok ct \<longleftrightarrow> (\<forall>k s. ct k = Some s \<longrightarrow> fls_state s \<in> {1, 3})"

lemma states_okI: "(\<And>k s. ct k = Some s \<Longrightarrow> fls_state s \<in> {1, 3}) \<Longrightarrow> states_ok ct"
  by (auto simp: states_ok_def)

lemma states_ok_modify:
  "states_ok ct \<Longrightarrow> (\<And>s. fls_state s \<in> {1, 3} \<Longrightarrow> fls_state (f s) \<in> {1, 3}) \<Longrightarrow> states_ok (modify f k ct)"
  by (auto simp: states_ok_def modify_def split: option.splits)

lemma states_ok_delete: "states_ok ct \<Longrightarrow> states_ok (ct(k := None))"
  by (auto simp: states_ok_def)

lemma states_ok_lru: "states_ok ct \<Longrightarrow> fls_state v \<in> {1, 3} \<Longrightarrow> states_ok (lru_update ev k v ct)"
  by (auto simp: states_ok_def lru_update_def split: option.splits if_splits)

lemma states_ok_advance: "states_ok ct \<Longrightarrow> states_ok (advance ctx pkt k ct)"
  unfolding advance_def Let_def
  by (auto simp: establish_def touch_def intro!: states_ok_delete states_ok_modify)

lemma states_ok_packet: "states_ok ct \<Longrightarrow> states_ok (snd (snd (snd (tc_firewall_func ev ctx pkt st ct))))"
  by (cases rule: tc_cases [of pkt ev ctx st ct])
    (auto intro!: states_ok_lru states_ok_advance simp: new_flow_def)

lemma states_ok_reachable: "tc_reachable ev ct \<Longrightarrow> states_ok ct"
  unfolding tc_reachable_def
proof (induction rule: rtranclp_induct)
  case base
  show ?case by (simp add: states_ok_def)
next
  case (step ct1 ct2)
  from step.hyps(2) show ?case
  proof (cases rule: tc_step.cases)
    case (packet ctx pkt st)
    show ?thesis unfolding packet by (rule states_ok_packet [OF step.IH])
  next
    case (evict k)
    show ?thesis unfolding evict by (rule states_ok_delete [OF step.IH])
  qed
qed

section \<open>Both directions\<close>

definition flip :: "flow_key \<Rightarrow> flow_key" where
  "flip k = k\<lparr>fk_src_ip := fk_dst_ip k, fk_dst_ip := fk_src_ip k, fk_src_port := fk_dst_port k, fk_dst_port := fk_src_port k\<rparr>"

lemma flip_flip [simp]: "flip (flip k) = k"
  by (simp add: flip_def)

lemma flip_eq_iff [simp]: "flip k = flip l \<longleftrightarrow> k = l"
  by (metis flip_flip)

lemma key_rev_flip: "key_rev pkt = flip (key_fwd pkt)"
  by (simp add: key_rev_def key_fwd_def flip_def)

text \<open>The two entries of a connection come and go together and agree on the state.\<close>

definition symmetric :: "conntrack \<Rightarrow> bool" where
  "symmetric ct \<longleftrightarrow> (\<forall>k. map_option fls_state (ct (flip k)) = map_option fls_state (ct k))"

definition keep_all :: eviction where
  "keep_all ct k = Some []"

lemma lru_keep_all [simp]: "lru_update keep_all k v ct = ct(k \<mapsto> v)"
  by (auto simp: lru_update_def keep_all_def)

lemma symmetric_insert: "symmetric ct \<Longrightarrow> symmetric (ct(k \<mapsto> v, flip k \<mapsto> v))"
  by (auto simp: symmetric_def)

lemma symmetric_delete: "symmetric ct \<Longrightarrow> symmetric (ct(k := None, flip k := None))"
  by (auto simp: symmetric_def)

lemma map_state_modify:
  "map_option fls_state (modify f k ct l) =
     (if l = k then map_option (fls_state \<circ> f) (ct k) else map_option fls_state (ct l))"
  by (auto simp: modify_def split: option.splits)

lemma symmetric_modify:
  "symmetric ct \<Longrightarrow> (\<And>s. fls_state (f s) = fls_state s) \<Longrightarrow> symmetric (modify f k ct)"
  by (auto simp: symmetric_def map_state_modify comp_def)

lemma map_state_establish:
  "map_option fls_state (modify establish (flip k) (modify establish k ct) l) =
     (if l = k \<or> l = flip k then map_option (\<lambda>_. 3) (ct l) else map_option fls_state (ct l))"
  by (cases "ct l") (auto simp: map_state_modify establish_def comp_def modify_def split: option.splits)

lemma symmetric_establish:
  assumes "symmetric ct"
  shows "symmetric (modify establish (flip k) (modify establish k ct))"
  unfolding symmetric_def map_state_establish
proof
  fix l
  have eq: "map_option fls_state (ct (flip l)) = map_option fls_state (ct l)" using assms by (simp add: symmetric_def)
  then have "map_option (\<lambda>_. 3 :: u32) (ct (flip l)) = map_option (\<lambda>_. 3) (ct l)"
    by (cases "ct l"; cases "ct (flip l)") auto
  moreover have "(flip l = k \<or> flip l = flip k) = (l = k \<or> l = flip k)" by (metis flip_flip)
  ultimately show "(if flip l = k \<or> flip l = flip k then map_option (\<lambda>_. 3) (ct (flip l)) else map_option fls_state (ct (flip l))) =
      (if l = k \<or> l = flip k then map_option (\<lambda>_. 3) (ct l) else map_option fls_state (ct l))"
    using eq by simp
qed

lemma symmetric_tracked:
  "symmetric ct \<Longrightarrow> tracked_key ct pkt = Some k \<Longrightarrow> k = key_fwd pkt"
  by (auto simp: tracked_key_def symmetric_def key_rev_flip split: if_splits) (metis map_option_is_None option.distinct(1))

lemma symmetric_advance:
  assumes "symmetric ct" "tracked_key ct pkt = Some k"
  shows "symmetric (advance ctx pkt k ct)"
proof -
  have k: "k = key_fwd pkt" by (rule symmetric_tracked [OF assms])
  have est: "symmetric (modify establish (key_rev pkt) (modify establish k ct))"
    unfolding k key_rev_flip using assms(1) by (rule symmetric_establish)
  have "symmetric (modify (touch ctx) k c)" if "symmetric c" for c
    using that by (rule symmetric_modify) (simp add: touch_def)
  with est symmetric_delete [of _ "key_fwd pkt"] assms(1) show ?thesis
    by (auto simp: advance_def Let_def key_rev_flip)
qed

lemma symmetric_packet:
  assumes "symmetric ct"
  shows "symmetric (snd (snd (snd (tc_firewall_func keep_all ctx pkt st ct))))"
  by (cases rule: tc_cases [of pkt keep_all ctx st ct])
    (use assms in \<open>auto simp: key_rev_flip intro!: symmetric_insert symmetric_advance\<close>)

lemma tc_run_Cons:
  "tc_run ev ((ctx, pkt) # ps) ct =
     (fst (tc_firewall_func ev ctx pkt None ct) # fst (tc_run ev ps (snd (snd (snd (tc_firewall_func ev ctx pkt None ct))))),
      snd (tc_run ev ps (snd (snd (snd (tc_firewall_func ev ctx pkt None ct))))))"
  by (simp add: split_beta)

lemma symmetric_run: "symmetric ct \<Longrightarrow> symmetric (snd (tc_run keep_all ps ct))"
proof (induction ps arbitrary: ct)
  case (Cons p ps)
  obtain ctx pkt where "p = (ctx, pkt)" by (rule prod.exhaust)
  with Cons.IH [OF symmetric_packet [OF Cons.prems]] show ?case by (simp only: tc_run_Cons snd_conv)
qed simp

section \<open>A connection\<close>

definition of_flow :: "flow_key \<Rightarrow> u8 list \<Rightarrow> bool" where
  "of_flow k pkt \<longleftrightarrow> key_fwd pkt = k \<or> key_rev pkt = k"

definition tracks :: "conntrack \<Rightarrow> flow_key \<Rightarrow> bool" where
  "tracks ct k \<longleftrightarrow> ct k \<noteq> None \<or> ct (flip k) \<noteq> None"

lemma of_flow_tracked: "of_flow k pkt \<Longrightarrow> tracks ct k \<longleftrightarrow> tracked_key ct pkt \<noteq> None"
  by (auto simp: of_flow_def tracks_def tracked_key_def key_rev_flip)

lemma modify_dom [simp]: "modify f l ct k = None \<longleftrightarrow> ct k = None"
  by (auto simp: modify_def split: option.splits)

lemma advance_dom:
  "\<not> is_tcp_fin_or_rst pkt \<Longrightarrow> advance ctx pkt l ct k = None \<longleftrightarrow> ct k = None"
  "k \<notin> {key_fwd pkt, key_rev pkt} \<Longrightarrow> advance ctx pkt l ct k = None \<longleftrightarrow> ct k = None"
  "is_tcp_fin_or_rst pkt \<Longrightarrow> k \<in> {key_fwd pkt, key_rev pkt} \<Longrightarrow> advance ctx pkt l ct k = None"
  by (auto simp: advance_def Let_def)

lemma packet_keeps_flow:
  assumes spare: "\<And>ct l gone. ev ct l = Some gone \<Longrightarrow> k \<notin> set gone \<and> flip k \<notin> set gone"
    and flow: "tracks ct k" "of_flow k pkt \<longrightarrow> \<not> is_tcp_fin_or_rst pkt"
  shows "tracks (snd (snd (snd (tc_firewall_func ev ctx pkt st ct)))) k"
proof (cases rule: tc_cases [of pkt ev ctx st ct])
  case (tracked l)
  have "advance ctx pkt l ct x = None \<longleftrightarrow> ct x = None" if "x = k \<or> x = flip k" for x
  proof (cases "of_flow k pkt")
    case True
    with flow(2) show ?thesis by (intro advance_dom(1)) simp
  next
    case False
    then have "key_fwd pkt \<noteq> k" "key_fwd pkt \<noteq> flip k"
      by (auto simp: of_flow_def key_rev_flip)
    with that show ?thesis by (intro advance_dom(2)) (metis flip_flip insert_iff key_rev_flip singletonD)
  qed
  with tracked flow(1) show ?thesis by (simp add: tracks_def)
next
  case fresh
  have keep: "tracks (lru_update ev l v c) k" if "tracks c k" for c l v
    using that spare [of c l] by (auto simp: tracks_def lru_update_def split: option.splits)
  from fresh flow(1) show ?thesis by (simp add: keep)
qed (use flow(1) in \<open>auto simp: tracks_def\<close>)

lemma tc_verdict:
  "fst (tc_firewall_func ev ctx pkt st ct) = TC_ACT_SHOT \<longleftrightarrow>
     is_tcp_packet pkt \<and> tracked_key ct pkt = None \<and> \<not> is_tcp_syn pkt"
  by (cases rule: tc_cases [of pkt ev ctx st ct]) auto

lemma flow_passes:
  assumes spare: "\<And>ct l gone. ev ct l = Some gone \<Longrightarrow> k \<notin> set gone \<and> flip k \<notin> set gone"
    and "tracks ct k" "\<And>ctx pkt. (ctx, pkt) \<in> set ps \<Longrightarrow> of_flow k pkt \<Longrightarrow> \<not> is_tcp_fin_or_rst pkt"
    "tc_run ev ps ct = (as, ct')"
  shows "tracks ct' k \<and> length as = length ps \<and> (\<forall>i < length ps. of_flow k (snd (ps ! i)) \<longrightarrow> as ! i = TC_ACT_OK)"
  using assms(2-)
proof (induction ps arbitrary: ct as)
  case (Cons p ps)
  obtain ctx pkt where p: "p = (ctx, pkt)" by (rule prod.exhaust)
  let ?ct = "snd (snd (snd (tc_firewall_func ev ctx pkt None ct)))"
  from Cons.prems(3) obtain as1 where rest: "tc_run ev ps ?ct = (as1, ct')"
    and as: "as = fst (tc_firewall_func ev ctx pkt None ct) # as1"
    unfolding p tc_run_Cons by (metis prod.collapse prod.inject)
  have "tracks ?ct k"
    using Cons.prems(1,2) by (intro packet_keeps_flow [OF spare]) (auto simp: p)
  from Cons.IH [OF this _ rest] Cons.prems(2)
  have IH: "tracks ct' k \<and> length as1 = length ps \<and> (\<forall>i < length ps. of_flow k (snd (ps ! i)) \<longrightarrow> as1 ! i = TC_ACT_OK)" by auto
  have "fst (tc_firewall_func ev ctx pkt None ct) = TC_ACT_OK" if "of_flow k pkt"
    using tc_verdict [of ev ctx pkt None ct] of_flow_tracked [OF that, of ct] Cons.prems(1)
    by (cases "fst (tc_firewall_func ev ctx pkt None ct)") auto
  with IH show ?case by (auto simp: as p less_Suc_eq_0_disj)
qed simp

section \<open>Properties\<close>

text \<open>C15: The TC program drops a packet exactly when it is a TCP segment over IPv4 whose connection is tracked in neither direction and which is not the
  first segment of a connection (SYN without ACK). Every such drop is audited when the ring buffer has space, and does not touch
  the table.\<close>

theorem tc_drops_untracked:
  "(fst (tc_firewall_func ev ctx pkt st ct) = TC_ACT_SHOT \<longleftrightarrow>
     is_tcp_packet pkt \<and> ct (key_fwd pkt) = None \<and> ct (key_rev pkt) = None \<and> \<not> (tcp_syn pkt \<and> \<not> tcp_ack pkt)) \<and>
   (fst (tc_firewall_func ev ctx pkt st ct) = TC_ACT_SHOT \<longrightarrow>
     snd (snd (snd (tc_firewall_func ev ctx pkt st ct))) = ct \<and>
     (xc_ring_space (tx_ctx ctx) \<longrightarrow> (\<exists>e. fst (snd (snd (tc_firewall_func ev ctx pkt st ct))) = Some e \<and>
        VerdictString e = ''DROP'' \<and> ReasonString e = ''UNTRACKED_NON_SYN'' \<and> ev_SrcIP e = ip_saddr pkt)))"
proof (cases rule: tc_cases [of pkt ev ctx st ct])
  case untracked
  have "\<exists>e. mk_event (tx_ctx ctx) pkt 1 5 201 0 = Some e \<and> VerdictString e = ''DROP'' \<and>
      ReasonString e = ''UNTRACKED_NON_SYN'' \<and> ev_SrcIP e = ip_saddr pkt" if "xc_ring_space (tx_ctx ctx)"
    using that by (simp add: mk_event_def VerdictString_def ReasonString_def)
  with untracked show ?thesis by (auto simp: tracked_key_None is_tcp_syn_def)
qed (auto simp: tracked_key_None is_tcp_syn_def dest: tracked_key_cases)

definition ex_segment :: "u8 \<Rightarrow> u8 list" where
  "ex_segment flags = replicate 12 0 @ [8, 0] @ replicate 9 0 @ [6] @ replicate 2 0 @ [10, 0, 0, 1, 10, 0, 0, 2] @
     [4, 0, 0, 80] @ replicate 9 0 @ [flags] @ replicate 6 0"

definition ex_tc :: tc_ctx where
  "ex_tc = \<lparr>tx_len = 54, tx_ctx = \<lparr>xc_cgroup_id = 0, xc_ktime = 5, xc_ring_space = True\<rparr>\<rparr>"

lemma ex_segment_tcp: "is_tcp_packet (ex_segment f)" "tcp_flags (ex_segment f) = f"
  "key_fwd (ex_segment f) = key_fwd (ex_segment g)"
  by (simp_all add: is_tcp_packet_def is_ipv4_def ip_protocol_def be16_def ex_segment_def tcp_flags_def nth_append
      push_bit_eq_mult key_fwd_def ip_saddr_def ip_daddr_def ld32_def)

theorem tc_drops_untracked_witness:
  "fst (tc_firewall_func keep_all ex_tc (ex_segment 16) None Map.empty) = TC_ACT_SHOT"
  using tc_drops_untracked [of keep_all ex_tc "ex_segment 16" None Map.empty]
  by (simp add: ex_segment_tcp tcp_syn_def bit_simps)

text \<open>C23: Whatever packets arrive and whatever the kernel evicts, every entry of the table is in one of two states, SYN sent or established; for these
  the mirror's names are right. The other states of \<^verbatim>\<open>state_machine.h\<close> are never entered.\<close>

theorem tc_states:
  assumes "tc_reachable ev ct" "ct k = Some s"
  shows "fls_state s \<in> {1, 3} \<and> table_state_name (fls_state s) = (if fls_state s = 3 then ''ESTABLISHED'' else ''SYN_SENT'')"
proof -
  have "fls_state s = 1 \<or> fls_state s = 3"
    using states_ok_reachable [OF assms(1)] assms(2) by (auto simp: states_ok_def)
  then show ?thesis by (auto simp: table_state_name_def)
qed

theorem tc_states_witness:
  "\<exists>ct s. tc_reachable keep_all ct \<and> ct (key_fwd (ex_segment 2)) = Some s \<and> fls_state s \<in> {1, 3}"
proof -
  let ?ct = "snd (snd (snd (tc_firewall_func keep_all ex_tc (ex_segment 2) None Map.empty)))"
  have "tc_step keep_all Map.empty ?ct" by (rule tc_step.packet)
  then have r: "tc_reachable keep_all ?ct" by (simp add: tc_reachable_def)
  have "?ct (key_fwd (ex_segment 2)) \<noteq> None"
  proof (cases rule: tc_cases [of "ex_segment 2" keep_all ex_tc None Map.empty])
    case other
    then show ?thesis by (simp add: ex_segment_tcp)
  next
    case untracked
    then show ?thesis by (simp add: is_tcp_syn_def tcp_syn_def tcp_ack_def ex_segment_tcp bit_simps)
  next
    case (tracked k)
    then show ?thesis by (simp add: tracked_key_def)
  qed simp
  then obtain s where "?ct (key_fwd (ex_segment 2)) = Some s" by blast
  with tc_states [OF r this] r show ?thesis by blast
qed

text \<open>As long as nothing is evicted, the two directions of a connection are tracked together and in the same state, after any
  sequence of packets.\<close>

theorem tc_directions_agree:
  "map_option fls_state (snd (tc_run keep_all ps Map.empty) (flip k)) = map_option fls_state (snd (tc_run keep_all ps Map.empty) k)"
  using symmetric_run [of Map.empty ps] by (simp add: symmetric_def)

text \<open>C14: A tracked connection stays open: as long as the kernel does not evict its two entries when the table is full and none of its segments carries FIN or RST, all its
  segments pass in both directions, however they interleave with packets of other connections and whatever else is evicted or not inserted.\<close>

theorem tc_connection_passes:
  assumes spare: "\<And>ct l gone. ev ct l = Some gone \<Longrightarrow> k \<notin> set gone \<and> flip k \<notin> set gone"
    and "tracks ct k" and "\<And>ctx pkt. (ctx, pkt) \<in> set ps \<Longrightarrow> of_flow k pkt \<Longrightarrow> \<not> is_tcp_fin_or_rst pkt"
    and "tc_run ev ps ct = (as, ct')" and "i < length ps" and "of_flow k (snd (ps ! i))"
  shows "as ! i = TC_ACT_OK"
proof -
  have "\<forall>i < length ps. of_flow k (snd (ps ! i)) \<longrightarrow> as ! i = TC_ACT_OK"
    using flow_passes [OF spare assms(2,3,4)] by simp
  with assms(5,6) show ?thesis by blast
qed

text \<open>An eviction ends the connection like a FIN: the next segment that is not a new SYN is dropped.\<close>

lemma evicted_is_dropped:
  assumes "ev ct l = Some gone" "k \<in> set gone" "flip k \<in> set gone" "l \<noteq> k" "l \<noteq> flip k"
    and "is_tcp_packet q" "of_flow k q" "\<not> is_tcp_syn q"
  shows "fst (tc_firewall_func ev' d q st (lru_update ev l v ct)) = TC_ACT_SHOT"
proof -
  have "\<not> tracks (lru_update ev l v ct) k" using assms(1-5) by (auto simp: tracks_def lru_update_def)
  with of_flow_tracked [OF assms(7)] assms(6,8) show ?thesis by (simp add: tc_verdict)
qed

text \<open>A kernel that keeps a connection and forgets every other one when a key is inserted.\<close>

definition forget_others :: "flow_key \<Rightarrow> flow_key list \<Rightarrow> eviction" where
  "forget_others k others ct l = Some (filter (\<lambda>x. x \<noteq> k \<and> x \<noteq> flip k) others)"

lemma forget_spares: "forget_others k others ct l = Some gone \<Longrightarrow> k \<notin> set gone \<and> flip k \<notin> set gone"
  by (auto simp: forget_others_def)

theorem tc_connection_passes_witness:
  "\<exists>as ct. tc_run (forget_others (key_fwd (ex_segment 2)) [key_fwd (replicate 54 0)]) [(ex_tc, ex_segment 16), (ex_tc, ex_segment 24)]
       [key_fwd (ex_segment 2) \<mapsto> new_flow ex_tc, key_fwd (replicate 54 0) \<mapsto> new_flow ex_tc] = (as, ct) \<and>
     as ! 1 = TC_ACT_OK"
proof -
  let ?ps = "[(ex_tc, ex_segment 16), (ex_tc, ex_segment 24)]" and ?k = "key_fwd (ex_segment 2)" and ?o = "key_fwd (replicate 54 0)"
  let ?ct = "[?k \<mapsto> new_flow ex_tc, ?o \<mapsto> new_flow ex_tc]"
  obtain as ct where run: "tc_run (forget_others ?k [?o]) ?ps ?ct = (as, ct)" by (rule prod.exhaust)
  have fl: "of_flow ?k (ex_segment f)" for f using ex_segment_tcp(3) [of f 2] by (simp add: of_flow_def)
  have "as ! 1 = TC_ACT_OK"
  proof (rule tc_connection_passes [OF _ _ _ run])
    show "?k \<notin> set gone \<and> flip ?k \<notin> set gone" if "forget_others ?k [?o] c l = Some gone" for c l gone
      using that by (rule forget_spares)
    show "tracks ?ct ?k" by (simp add: tracks_def)
    show "\<not> is_tcp_fin_or_rst pkt" if "(ctx, pkt) \<in> set ?ps" for ctx pkt
      using that by (auto simp: is_tcp_fin_or_rst_def tcp_fin_def tcp_rst_def ex_segment_tcp bit_simps)
  qed (simp_all add: fl)
  with run show ?thesis by blast
qed



text \<open>An initiator's own ACK, without any answer of the other side, makes its connection count as established.\<close>

lemma initiator_alone_establishes:
  assumes "is_tcp_packet p" "tcp_ack p" "\<not> is_tcp_fin_or_rst p" "ct (key_fwd p) = Some s" "fls_state s = 1"
  shows "map_option fls_state (snd (snd (snd (tc_firewall_func ev c p None ct))) (key_fwd p)) = Some 3"
proof (cases rule: tc_cases [of p ev c None ct])
  case (tracked k)
  then have k: "k = key_fwd p" using assms(4) by (simp add: tracked_key_def)
  have "map_option fls_state (advance c p (key_fwd p) ct (key_fwd p)) =
      map_option fls_state (modify establish (flip (key_fwd p)) (modify establish (key_fwd p) ct) (key_fwd p))"
    using assms by (auto simp: advance_def Let_def map_state_modify comp_def touch_def key_rev_flip modify_def split: option.splits)
  with tracked k assms(4) show ?thesis by (simp add: map_state_establish)
qed (use assms in \<open>auto simp: tracked_key_def split: if_splits\<close>)

end
