(* ===== verification/Sock_Programs.thy ===== *)
theory Sock_Programs
  imports Xdp_Program
begin

text \<open>
  The socket programs, \<^verbatim>\<open>bpf/sockops_identity.c\<close> and \<^verbatim>\<open>bpf/proxy_redirect.c\<close>: the first registers every established TCP socket in
  the table \<^verbatim>\<open>sock_hash\<close> under its 4-tuple, the second redirects a message to the socket registered under the 4-tuple of the peer.
  The table maps keys to sockets, which are left abstract; whether an insertion fails for a reason other than a key that
  exists already, and whether a redirect fails although the key is there, are parameters, as is the byte order in which the kernel presents the remote port to the second program.
\<close>

section \<open>Keys\<close>

record sock_key =
  sk_sip :: u32
  sk_dip :: u32
  sk_sport :: u32
  sk_dport :: u32

text \<open>\<^verbatim>\<open>bpf_ntohl\<close> on a little-endian machine.\<close>

definition bpf_ntohl :: "u32 \<Rightarrow> u32" where
  "bpf_ntohl x = push_bit 24 (take_bit 8 x) OR push_bit 16 (take_bit 8 (drop_bit 8 x)) OR
     push_bit 8 (take_bit 8 (drop_bit 16 x)) OR take_bit 8 (drop_bit 24 x)"

record sock_ops =
  so_family :: u32
  so_op :: u32
  so_local_ip4 :: u32
  so_remote_ip4 :: u32
  so_local_port :: u32
  so_remote_port :: u32

record sk_msg =
  sm_local_ip4 :: u32
  sm_remote_ip4 :: u32
  sm_local_port :: u32
  sm_remote_port :: u32
  sm_data :: "u8 list"

definition register_key :: "sock_ops \<Rightarrow> sock_key" where
  "register_key skops = \<lparr>sk_sip = so_local_ip4 skops, sk_dip = so_remote_ip4 skops,
     sk_sport = so_local_port skops, sk_dport = bpf_ntohl (so_remote_port skops)\<rparr>"

definition peer_key :: "sk_msg \<Rightarrow> sock_key" where
  "peer_key msg = \<lparr>sk_sip = sm_remote_ip4 msg, sk_dip = sm_local_ip4 msg,
     sk_sport = sm_remote_port msg, sk_dport = sm_local_port msg\<rparr>"

section \<open>The programs\<close>

type_synonym 's sock_hash = "sock_key \<rightharpoonup> 's"

text \<open>An event on a connection, when the ring buffer has space.\<close>

definition sock_event :: "xdp_ctx \<Rightarrow> u32 \<Rightarrow> u32 \<Rightarrow> u32 \<Rightarrow> u32 \<Rightarrow> u8 \<Rightarrow> AuditEvent option" where
  "sock_event ctx sip dip sport dport verdict =
     (if xc_ring_space ctx then
        Some \<lparr>ev_TimestampNS = xc_ktime ctx, ev_SrcIP = sip, ev_DstIP = dip, ev_SrcPort = ucast sport, ev_DstPort = ucast dport,
          ev_Protocol = 6, ev_Verdict = verdict, ev_ReasonCode = 7, ev_RuleID = 701, ev_CgroupID = xc_cgroup_id ctx,
          ev_IdentityID = 0\<rparr>
      else None)"

text \<open>\<^verbatim>\<open>bpf_sock_hash_update\<close> with \<^verbatim>\<open>BPF_NOEXIST\<close>: whether it returned 0, and the table.\<close>

definition sock_hash_update :: "bool \<Rightarrow> sock_key \<Rightarrow> 's \<Rightarrow> 's sock_hash \<Rightarrow> bool \<times> 's sock_hash" where
  "sock_hash_update fails k s ht = (if fails \<or> ht k \<noteq> None then (False, ht) else (True, ht(k \<mapsto> s)))"

definition sockops_identity_func :: "xdp_ctx \<Rightarrow> bool \<Rightarrow> sock_ops \<Rightarrow> 's \<Rightarrow> stats_value option \<Rightarrow> 's sock_hash \<Rightarrow>
    int \<times> stats_value option \<times> AuditEvent option \<times> 's sock_hash" where
  "sockops_identity_func ctx fails skops s stats0 ht =
     (if so_family skops \<noteq> 2 then (0, stats0, None, ht)
      else if so_op skops \<noteq> 4 \<and> so_op skops \<noteq> 5 then (0, stats0, None, ht)
      else
        case sock_hash_update fails (register_key skops) s ht of
          (ok, ht') \<Rightarrow>
            (0,
             map_option (\<lambda>st. let st1 = st\<lparr>sv_rx_packets := sv_rx_packets st + 1\<rparr> in if ok then count_pass st1 else count_drop st1) stats0,
             (if ok then sock_event ctx (so_local_ip4 skops) (so_remote_ip4 skops) (so_local_port skops)
                (bpf_ntohl (so_remote_port skops)) 0 else None),
             ht'))"

datatype sk_action = SK_DROP | SK_PASS

text \<open>\<^verbatim>\<open>bpf_msg_redirect_hash\<close> finds the socket under the key; without one, or when the kernel refuses for another reason, it returns \<^verbatim>\<open>SK_DROP\<close>.\<close>

definition msg_redirect_hash :: "bool \<Rightarrow> 's sock_hash \<Rightarrow> sock_key \<Rightarrow> sk_action \<times> 's option" where
  "msg_redirect_hash fails ht k =
     (case ht k of None \<Rightarrow> (SK_DROP, None) | Some s \<Rightarrow> if fails then (SK_DROP, None) else (SK_PASS, Some s))"

text \<open>The verdict, the socket that the message is redirected to, the counters and the event.\<close>

definition proxy_redirect_func :: "xdp_ctx \<Rightarrow> bool \<Rightarrow> sk_msg \<Rightarrow> stats_value option \<Rightarrow> 's sock_hash \<Rightarrow>
    sk_action \<times> 's option \<times> stats_value option \<times> AuditEvent option" where
  "proxy_redirect_func ctx fails msg stats0 ht =
     (case msg_redirect_hash fails ht (peer_key msg) of
        (ret, target) \<Rightarrow>
          (SK_PASS, target,
           map_option (\<lambda>st. let st1 = st\<lparr>sv_rx_bytes := sv_rx_bytes st + of_nat (length (sm_data msg))\<rparr>
             in if ret = SK_PASS then count_pass st1 else count_drop st1) stats0,
           (if ret = SK_PASS then sock_event ctx (sm_local_ip4 msg) (sm_remote_ip4 msg) (sm_local_port msg) (sm_remote_port msg) 2
            else None)))"

section \<open>Connections\<close>

text \<open>An end of a connection, and what the kernel shows of a connection from \<open>a\<close> to \<open>b\<close>: to the first program the remote port
  comes in network order, to the second in the order \<open>ord\<close>.\<close>

record endpoint =
  ep_ip :: u32
  ep_port :: u16

definition ops_of :: "u32 \<Rightarrow> endpoint \<Rightarrow> endpoint \<Rightarrow> sock_ops" where
  "ops_of op a b = \<lparr>so_family = 2, so_op = op, so_local_ip4 = ep_ip a, so_remote_ip4 = ep_ip b,
     so_local_port = ucast (ep_port a), so_remote_port = bpf_ntohl (ucast (ep_port b))\<rparr>"

definition msg_of :: "(u32 \<Rightarrow> u32) \<Rightarrow> endpoint \<Rightarrow> endpoint \<Rightarrow> u8 list \<Rightarrow> sk_msg" where
  "msg_of ord a b data = \<lparr>sm_local_ip4 = ep_ip a, sm_remote_ip4 = ep_ip b,
     sm_local_port = ucast (ep_port a), sm_remote_port = ord (ucast (ep_port b)), sm_data = data\<rparr>"

text \<open>Tables that arise from connections: a socket is registered, or leaves the table when it is closed.\<close>

inductive sock_reachable :: "'s sock_hash \<Rightarrow> bool" where
  none: "sock_reachable Map.empty"
| register: "sock_reachable ht \<Longrightarrow> sock_reachable (snd (snd (snd (sockops_identity_func ctx fails (ops_of op a b) s st ht))))"
| closed: "sock_reachable ht \<Longrightarrow> sock_reachable (ht(k := None))"

section \<open>Facts\<close>

lemma bit_bpf_ntohl:
  "bit (bpf_ntohl x) n \<longleftrightarrow>
     (if n < 8 then bit x (n + 24) else if n < 16 then bit x (n + 8) else if n < 24 then bit x (n - 8)
      else n < 32 \<and> bit x (n - 24))"
  unfolding bpf_ntohl_def bit_or_iff bit_push_bit_iff bit_take_bit_iff bit_drop_bit_eq comp_def
  by (cases "n < 8"; cases "n < 16"; cases "n < 24"; cases "n < 32") (simp_all add: add.commute less_diff_conv2)

lemma bpf_ntohl_invol [simp]: "bpf_ntohl (bpf_ntohl x) = x"
proof (rule bit_word_eqI)
  fix n :: nat assume "n < LENGTH(32)"
  then show "bit (bpf_ntohl (bpf_ntohl x)) n = bit x n"
    by (cases "n < 8"; cases "n < 16"; cases "n < 24") (simp_all add: bit_bpf_ntohl less_diff_conv2)
qed

lemma register_key_of: "register_key (ops_of op a b) = \<lparr>sk_sip = ep_ip a, sk_dip = ep_ip b, sk_sport = ucast (ep_port a),
    sk_dport = ucast (ep_port b)\<rparr>"
  by (simp add: register_key_def ops_of_def)

text \<open>The key of the peer is the key under which the peer registered, exactly when the order is the order of the host.\<close>

lemma peer_key_of:
  "peer_key (msg_of ord a b data) = register_key (ops_of op b a) \<longleftrightarrow> ord (ucast (ep_port b)) = ucast (ep_port b)"
  by (auto simp: peer_key_def msg_of_def register_key_of)

lemma register_key_inj:
  "register_key (ops_of op a b) = register_key (ops_of op' a' b') \<longleftrightarrow> a = a' \<and> b = b'"
proof -
  have "(ucast x :: u32) = ucast y \<longleftrightarrow> x = y" for x y :: u16
    by transfer simp
  then show ?thesis unfolding register_key_of by (cases a; cases a'; cases b; cases b') auto
qed

lemma register_result:
  "op = 4 \<or> op = 5 \<Longrightarrow> ht (register_key (ops_of op a b)) = None \<Longrightarrow>
     snd (snd (snd (sockops_identity_func ctx False (ops_of op a b) s st ht))) = ht(register_key (ops_of op a b) \<mapsto> s)"
  by (auto simp: sockops_identity_func_def sock_hash_update_def ops_of_def)

lemma register_dom:
  assumes "snd (snd (snd (sockops_identity_func ctx fails skops s st ht))) k \<noteq> None"
  shows "ht k \<noteq> None \<or> k = register_key skops"
  using assms by (auto simp: sockops_identity_func_def sock_hash_update_def split: if_splits)

text \<open>Source ports of registered keys are ports.\<close>

lemma sock_reachable_ports: "sock_reachable ht \<Longrightarrow> ht k \<noteq> None \<Longrightarrow> \<exists>p :: u16. sk_sport k = ucast p"
proof (induction arbitrary: k rule: sock_reachable.induct)
  case (register ht ctx fails op a b s st)
  from register_dom [OF register.prems] show ?case
  proof
    assume "k = register_key (ops_of op a b)"
    then show ?case by (auto simp: register_key_of)
  qed (rule register.IH)
qed (auto split: if_splits)

lemma bpf_ntohl_not_port:
  assumes "bpf_ntohl (ucast (p :: u16)) = ucast (q :: u16)"
  shows "p = 0"
proof (rule bit_word_eqI)
  fix n :: nat assume n: "n < LENGTH(16)"
  have high: "\<not> bit (ucast (q :: u16) :: u32) m" if "16 \<le> m" for m
    using that by (auto simp: bit_simps dest: bit_imp_le_length)
  have bits: "bit (ucast p :: u32) m = bit (bpf_ntohl (ucast q)) m" for m
    using assms by (metis bpf_ntohl_invol)
  have "bit p n = bit (ucast p :: u32) n" using n by (simp add: bit_simps)
  also have "\<dots> = False" unfolding bits using n high [of "n + 24"] high [of "n + 8"]
    by (cases "n < 8") (simp_all add: bit_bpf_ntohl)
  finally show "bit p n = bit (0 :: u16) n" by simp
qed

section \<open>Properties\<close>

text \<open>What the comment in the program intends: if the kernel showed the remote port of a message in the order of the host, then once both ends of a
  connection have registered, a message of one end is redirected to the socket of the other, unless the redirect fails; the message is reported as
  redirected when the ring buffer has space.\<close>

theorem redirect_reaches_peer:
  assumes "a \<noteq> b" and "ht (register_key (ops_of 4 a b)) = None" and "ht (register_key (ops_of 5 b a)) = None"
    and "ht1 = snd (snd (snd (sockops_identity_func c1 False (ops_of 4 a b) s st1 ht)))"
    and "ht2 = snd (snd (snd (sockops_identity_func c2 False (ops_of 5 b a) t st2 ht1)))"
  shows "fst (snd (proxy_redirect_func c3 False (msg_of (\<lambda>x. x) a b data) st3 ht2)) = Some t \<and>
    fst (snd (proxy_redirect_func c3 False (msg_of (\<lambda>x. x) b a data) st3 ht2)) = Some s \<and>
    (xc_ring_space c3 \<longrightarrow> map_option VerdictString (snd (snd (snd (proxy_redirect_func c3 False (msg_of (\<lambda>x. x) a b data) st3 ht2)))) = Some ''REDIRECT'')"
proof -
  have ne: "register_key (ops_of 5 b a) \<noteq> register_key (ops_of 4 a b)" using assms(1) by (simp add: register_key_inj)
  have ht1: "ht1 = ht(register_key (ops_of 4 a b) \<mapsto> s)" unfolding assms(4) by (rule register_result) (simp_all add: assms(2))
  have ht2: "ht2 = ht1(register_key (ops_of 5 b a) \<mapsto> t)" unfolding assms(5)
    by (rule register_result) (use ne assms(3) in \<open>simp_all add: ht1\<close>)
  have "peer_key (msg_of (\<lambda>x. x) a b data) = register_key (ops_of 5 b a)" "peer_key (msg_of (\<lambda>x. x) b a data) = register_key (ops_of 4 a b)"
    by (simp_all add: peer_key_of)
  with ne show ?thesis
    by (auto simp: proxy_redirect_func_def msg_redirect_hash_def ht1 ht2 sock_event_def VerdictString_def)
qed

definition ex_end_a :: endpoint where "ex_end_a = \<lparr>ep_ip = 0x0100000A, ep_port = 40000\<rparr>"
definition ex_end_b :: endpoint where "ex_end_b = \<lparr>ep_ip = 0x0100000A, ep_port = 80\<rparr>"
definition ex_sctx :: xdp_ctx where "ex_sctx = \<lparr>xc_cgroup_id = 1, xc_ktime = 9, xc_ring_space = True\<rparr>"

theorem redirect_reaches_peer_witness:
  "\<exists>ht :: nat sock_hash. fst (snd (proxy_redirect_func ex_sctx False (msg_of (\<lambda>x. x) ex_end_a ex_end_b [1]) None ht)) = Some 2"
proof -
  have "ex_end_a \<noteq> ex_end_b" by (simp add: ex_end_a_def ex_end_b_def)
  from redirect_reaches_peer [OF this _ _ refl refl, where ht = Map.empty and s = 1 and t = "2 :: nat" and data = "[1]"]
  show ?thesis by blast
qed

text \<open>C38: If the kernel shows the remote port of a message in network order instead, no message to a nonzero port is ever redirected, whatever
  sockets have registered: the message goes its usual way and counts as a failed redirect.\<close>

theorem network_order_never_redirects:
  assumes "sock_reachable ht" and "ep_port b \<noteq> 0"
  shows "proxy_redirect_func c fails (msg_of bpf_ntohl a b data) (Some st) ht =
    (SK_PASS, None, Some (st\<lparr>sv_rx_bytes := sv_rx_bytes st + of_nat (length data), sv_drop_packets := sv_drop_packets st + 1\<rparr>), None)"
proof -
  have "ht (peer_key (msg_of bpf_ntohl a b data)) = None"
  proof (rule ccontr)
    assume "ht (peer_key (msg_of bpf_ntohl a b data)) \<noteq> None"
    from sock_reachable_ports [OF assms(1) this] show False
      using assms(2) bpf_ntohl_not_port by (auto simp: peer_key_def msg_of_def)
  qed
  then show ?thesis by (simp add: proxy_redirect_func_def msg_redirect_hash_def count_drop_def) (simp add: msg_of_def)
qed

theorem network_order_never_redirects_witness:
  "fst (snd (proxy_redirect_func ex_sctx False (msg_of bpf_ntohl ex_end_a ex_end_b [1])
     (Some \<lparr>sv_rx_packets = 0, sv_rx_bytes = 0, sv_pass_packets = 0, sv_drop_packets = 0\<rparr>) (Map.empty :: nat sock_hash))) = None"
  using network_order_never_redirects [where ht = "Map.empty :: nat sock_hash" and a = ex_end_a and b = ex_end_b and c = ex_sctx and fails = False and data = "[1]" and
      st = "\<lparr>sv_rx_packets = 0, sv_rx_bytes = 0, sv_pass_packets = 0, sv_drop_packets = 0\<rparr>"]
  by (simp add: sock_reachable.none) (simp add: ex_end_b_def)

text \<open>Registration is counted once, as passed or as dropped, and the first registration of a 4-tuple stays.\<close>

lemma registration_counted:
  assumes "so_family skops = 2" "so_op skops \<in> {4, 5}"
  obtains ok where "fst (snd (sockops_identity_func ctx fails skops s (Some st) ht)) =
      Some (if ok then st\<lparr>sv_rx_packets := sv_rx_packets st + 1, sv_pass_packets := sv_pass_packets st + 1\<rparr>
            else st\<lparr>sv_rx_packets := sv_rx_packets st + 1, sv_drop_packets := sv_drop_packets st + 1\<rparr>)"
    and "ok \<longleftrightarrow> \<not> fails \<and> ht (register_key skops) = None"
    and "\<not> ok \<Longrightarrow> snd (snd (snd (sockops_identity_func ctx fails skops s (Some st) ht))) = ht"
  by (rule that [of "\<not> fails \<and> ht (register_key skops) = None"])
    (use assms in \<open>auto simp: sockops_identity_func_def sock_hash_update_def count_pass_def count_drop_def Let_def\<close>)

end
