(* ===== verification/Accept_Loop.thy ===== *)
theory Accept_Loop
  imports Example_Run "HOL-Library.Multiset"
begin

text \<open>
  The start of the control server, \<^verbatim>\<open>ControlServer.Start\<close> of \<^verbatim>\<open>pkg/control/server.go\<close>: listening on the socket and the accept loop. The
  calls of the operating system are parameters, the results of \<^verbatim>\<open>Accept\<close> a sequence without end. The loop returns only
  when \<^verbatim>\<open>Accept\<close> fails after the context was cancelled; it is a partial function, whose value \<^const>\<open>None\<close> is a loop that
  goes on for ever. Each connection is handed to a goroutine of its own, so the handlers may run in any order.
\<close>

section \<open>The loop\<close>

text \<open>A failure comes with what \<^verbatim>\<open>ctx.Err\<close> says after it: whether the context is cancelled.\<close>

datatype accept_result = Accepted peer_conn decoded_request | AcceptFailed bool

partial_function (option) accept_loop :: "(nat \<Rightarrow> accept_result) \<Rightarrow> nat \<Rightarrow> (peer_conn \<times> decoded_request) list option" where
  "accept_loop acc n =
     (case acc n of
        AcceptFailed cancelled \<Rightarrow> if cancelled then Some [] else accept_loop acc (n + 1)
      | Accepted conn payload \<Rightarrow>
          Option.bind (accept_loop acc (n + 1)) (\<lambda>rest. Some ((conn, payload) # rest)))"

record 'o sock_calls =
  sc_remove :: "string \<Rightarrow> 'o \<Rightarrow> 'o"
  sc_listen :: "string \<Rightarrow> 'o \<Rightarrow> string option \<times> 'o"
  sc_chmod :: "string \<Rightarrow> nat \<Rightarrow> 'o \<Rightarrow> 'o"
  sc_close :: "string \<Rightarrow> 'o \<Rightarrow> 'o"

datatype start_error = ListenFailed string string

definition start_error_text :: "start_error \<Rightarrow> string" where
  "start_error_text e = (case e of ListenFailed path err \<Rightarrow> ''failed to listen on socket '' @ path @ '': '' @ err)"

text \<open>The goroutine that waits for the context.\<close>

definition on_cancel :: "'o sock_calls \<Rightarrow> string \<Rightarrow> 'o \<Rightarrow> 'o" where
  "on_cancel S path w = sc_remove S path (sc_close S path w)"

text \<open>The error returned, the connections handed to handlers, and the world after the goroutine has run; \<^const>\<open>None\<close> when \<^verbatim>\<open>Start\<close>
  does not return. \<^verbatim>\<open>0666\<close> is octal.\<close>

definition Start :: "'o sock_calls \<Rightarrow> string \<Rightarrow> (nat \<Rightarrow> accept_result) \<Rightarrow> 'o \<Rightarrow>
    (start_error option \<times> (peer_conn \<times> decoded_request) list \<times> 'o) option" where
  "Start S path acc w =
     (case sc_listen S path (sc_remove S path w) of
        (Some err, w1) \<Rightarrow> Some (Some (ListenFailed path err), [], w1)
      | (None, w1) \<Rightarrow>
          let w2 = sc_chmod S path (6 * 64 + 6 * 8 + 6) w1
          in map_option (\<lambda>cs. (None, cs, on_cancel S path w2)) (accept_loop acc 0))"

section \<open>When the loop returns\<close>

definition cancelled :: "(nat \<Rightarrow> accept_result) \<Rightarrow> nat \<Rightarrow> bool" where
  "cancelled acc n \<longleftrightarrow> acc n = AcceptFailed True"

text \<open>The connections among the first results.\<close>

definition accepted :: "(nat \<Rightarrow> accept_result) \<Rightarrow> nat list \<Rightarrow> (peer_conn \<times> decoded_request) list" where
  "accepted acc ns = concat (map (\<lambda>n. case acc n of Accepted c p \<Rightarrow> [(c, p)] | AcceptFailed b \<Rightarrow> []) ns)"

lemma accept_loop_returns:
  assumes "cancelled acc (n + k)" "\<And>j. j < k \<Longrightarrow> \<not> cancelled acc (n + j)"
  shows "accept_loop acc n = Some (accepted acc [n..<n + k])"
  using assms
proof (induction k arbitrary: n)
  case 0
  then show ?case by (subst accept_loop.simps) (simp add: cancelled_def accepted_def)
next
  case (Suc k)
  have go: "\<not> cancelled acc n" using Suc.prems(2) [of 0] by simp
  have IH: "accept_loop acc (n + 1) = Some (accepted acc [n + 1..<n + Suc k])"
    using Suc.IH [of "n + 1"] Suc.prems(1) Suc.prems(2) [of "Suc j" for j] by simp
  have "[n..<n + Suc k] = n # [n + 1..<n + Suc k]" by (simp add: upt_conv_Cons)
  with go IH show ?case
    by (subst accept_loop.simps) (auto simp: cancelled_def accepted_def split: accept_result.splits)
qed

text \<open>A result of the loop shows where it ended.\<close>

lemma accept_loop_only: "accept_loop acc n = Some cs \<Longrightarrow> \<exists>m \<ge> n. cancelled acc m"
proof (rule accept_loop.raw_induct [where P = "\<lambda>acc n cs. \<exists>m \<ge> n. cancelled acc m"])
  fix loop acc n cs
  assume IH: "\<And>acc m r. loop acc m = Some r \<Longrightarrow> \<exists>k \<ge> m. cancelled acc k"
    and step: "(case acc n of
        AcceptFailed b \<Rightarrow> if b then Some [] else loop acc (n + 1)
      | Accepted conn payload \<Rightarrow> Option.bind (loop acc (n + 1)) (\<lambda>rest. Some ((conn, payload) # rest))) = Some cs"
  show "\<exists>m \<ge> n. cancelled acc m"
  proof (cases "cancelled acc n")
    case False
    with step have "\<exists>r. loop acc (n + 1) = Some r"
      by (auto simp: cancelled_def bind_eq_Some_conv split: accept_result.splits if_splits)
    with IH obtain k where "n + 1 \<le> k" "cancelled acc k" by blast
    then show ?thesis by (intro exI [of _ k]) simp
  qed blast
qed

lemma accept_loop_spins: "(\<And>m. \<not> cancelled acc m) \<Longrightarrow> accept_loop acc n = None"
  by (cases "accept_loop acc n") (auto dest: accept_loop_only)

lemma accept_loop_first:
  assumes "cancelled acc n"
  shows "accept_loop acc 0 = Some (accepted acc [0..<LEAST m. cancelled acc m])"
proof -
  define k where "k = (LEAST m. cancelled acc m)"
  have "cancelled acc (0 + k)" unfolding k_def add_0 using assms by (rule LeastI)
  moreover have "\<not> cancelled acc (0 + j)" if "j < k" for j
    using not_less_Least [OF that [unfolded k_def]] by simp
  ultimately have "accept_loop acc 0 = Some (accepted acc [0..<0 + k])" by (rule accept_loop_returns)
  then show ?thesis unfolding k_def add_0 .
qed

text \<open>The requests that may change the policy.\<close>

definition authorised_of :: "ControlServer \<Rightarrow> (peer_conn \<times> decoded_request) list \<Rightarrow> (peer_conn \<times> decoded_request) list" where
  "authorised_of s cs = filter (\<lambda>(conn, payload). authorised s conn payload) cs"

lemma reloads_le: "reloads s cs rs \<le> length (authorised_of s cs)"
proof (induction cs arbitrary: rs)
  case (Cons c cs)
  obtain conn payload where c: "c = (conn, payload)" by (rule prod.exhaust)
  show ?case
  proof (cases rs)
    case (Cons r rs')
    with Cons.IH [of rs'] show ?thesis by (auto simp: c reloads_def authorised_of_def split: option.splits)
  qed (simp add: reloads_def)
qed (simp add: reloads_def)

lemma authorised_of_order: "mset cs = mset ds \<Longrightarrow> length (authorised_of s cs) = length (authorised_of s ds)"
  unfolding authorised_of_def by (metis mset_filter size_mset)

section \<open>Properties\<close>

text \<open>C21: The server's start-up returns exactly when the socket cannot be listened on or some call of \<^verbatim>\<open>Accept\<close> fails with the context cancelled. In the
  first case it returns the error, and nothing was accepted. In the second it returns no error, having handed over exactly the connections accepted
  before the first such failure: failures without a
  cancelled context are passed over. In whatever order the handlers of these connections run, the active policy moves only by reload
  steps, one for each authorised request answered with success, and by no more steps than there were authorised requests.\<close>

theorem server_stops_on_cancel:
  assumes "bpf_kernel K view inode" and "srv_loader s \<noteq> None" and "sc_listen S path (sc_remove S path w) = (refused, w1)"
  shows "((\<exists>r. Start S path acc w = Some r) \<longleftrightarrow> refused \<noteq> None \<or> (\<exists>n. acc n = AcceptFailed True)) \<and>
    (\<forall>err. refused = Some err \<longrightarrow> Start S path acc w = Some (Some (ListenFailed path err), [], w1)) \<and>
    (\<forall>n. refused = None \<and> acc n = AcceptFailed True \<and> (\<forall>m < n. acc m \<noteq> AcceptFailed True) \<longrightarrow>
      (\<exists>w2. Start S path acc w = Some (None, accepted acc [0..<n], w2)) \<and>
      (\<forall>order rs v v'. mset order = mset (accepted acc [0..<n]) \<and> serve K unmarshal s order v = (rs, v') \<longrightarrow>
        (reload_step inode ^^ reloads s order rs) (active_policy (view v)) (active_policy (view v')) \<and>
        reloads s order rs \<le> length (authorised_of s (accepted acc [0..<n]))))"
proof (intro conjI allI impI)
  show "(\<exists>r. Start S path acc w = Some r) \<longleftrightarrow> refused \<noteq> None \<or> (\<exists>n. acc n = AcceptFailed True)"
    using accept_loop_first [of acc] accept_loop_only [of acc 0] unfolding cancelled_def
    by (cases refused) (auto simp: Start_def assms(3) Let_def)
next
  fix err assume "refused = Some err"
  then show "Start S path acc w = Some (Some (ListenFailed path err), [], w1)" by (simp add: Start_def assms(3))
next
  fix n assume n: "refused = None \<and> acc n = AcceptFailed True \<and> (\<forall>m < n. acc m \<noteq> AcceptFailed True)"
  then have "accept_loop acc 0 = Some (accepted acc [0..<n])"
    using accept_loop_returns [of acc 0 n] by (simp add: cancelled_def)
  with n show "\<exists>w2. Start S path acc w = Some (None, accepted acc [0..<n], w2)"
    by (simp add: Start_def assms(3) Let_def)
next
  fix n order rs v v'
  assume "mset order = mset (accepted acc [0..<n]) \<and> serve K unmarshal s order v = (rs, v')"
  then show "reloads s order rs \<le> length (authorised_of s (accepted acc [0..<n]))"
    using reloads_le [of s order rs] authorised_of_order [of order "accepted acc [0..<n]" s] by simp
next
  fix n order rs v v'
  assume "mset order = mset (accepted acc [0..<n]) \<and> serve K unmarshal s order v = (rs, v')"
  with bpf_kernel.serve_steps [OF assms(1) _ assms(2)]
  show "(reload_step inode ^^ reloads s order rs) (active_policy (view v)) (active_policy (view v'))" by blast
qed

definition ex_calls :: "string list sock_calls" where
  "ex_calls = \<lparr>sc_remove = (\<lambda>p w. removeAll p w), sc_listen = (\<lambda>p w. (None, p # w)), sc_chmod = (\<lambda>_ _ w. w),
     sc_close = (\<lambda>p w. removeAll p w)\<rparr>"

definition ex_accepts :: "nat \<Rightarrow> accept_result" where
  "ex_accepts n = (if n = 0 then AcceptFailed False else if n = 1 then Accepted (ex_peer 0) ex_request else AcceptFailed True)"

theorem server_stops_on_cancel_witness:
  "\<exists>w2. Start ex_calls ''s'' ex_accepts [''s''] = Some (None, [(ex_peer 0, ex_request)], w2)"
proof -
  have least: "ex_accepts 2 = AcceptFailed True \<and> (\<forall>m < 2. ex_accepts m \<noteq> AcceptFailed True)"
    by (auto simp: ex_accepts_def)
  have up: "[0..<2] = [0, 1]" by (simp add: upt_rec)
  have "accepted ex_accepts [0..<2] = [(ex_peer 0, ex_request)]" unfolding up by (simp add: accepted_def ex_accepts_def)
  moreover have "srv_loader ex_server \<noteq> None" by (simp add: ex_server_def NewControlServer_def)
  moreover have "sc_listen ex_calls ''s'' (sc_remove ex_calls ''s'' [''s'']) = (None, [''s''])" by (simp add: ex_calls_def)
  ultimately show ?thesis
    using server_stops_on_cancel [OF ex_kernel, of ex_server ex_calls "''s''" "[''s'']" None "[''s'']" ex_accepts ex_unmarshal] least by auto
qed

text \<open>While \<^verbatim>\<open>Accept\<close> only fails for other reasons the loop goes on for ever.\<close>

lemma failing_accept_spins:
  "sc_listen S path (sc_remove S path w) = (None, w1) \<Longrightarrow> Start S path (\<lambda>_. AcceptFailed False) w = None"
  by (simp add: Start_def accept_loop_spins cancelled_def)

end
