(* ===== verification/Spec2Isabelle.thy ===== *)
theory Spec2Isabelle
  imports Agent Tui Tc_Program Sock_Programs Accept_Loop Concurrent_Reload
begin

text \<open>
  \<^bold>\<open>An identity-aware eBPF firewall.\<close> The repository has a control plane in Go and packet programs in C.
  An operator sends a YAML policy over a Unix socket; the agent parses, validates and compiles it, and
  installs it in the kernel's BPF maps under a fresh \<^emph>\<open>generation\<close> number, which it then makes the active one.
  The XDP program checks every packet against the entries of the active generation and reports its
  verdicts through a ring buffer; the agent keeps the last events for its clients. The TC program tracks TCP
  connections, and two socket programs redirect messages between sockets of the same machine. A command-line client and a
  terminal UI talk to the agent over the socket.

  \<^bold>\<open>Which theory models which part.\<close>

  \<^item> \<open>Go_Prelude\<close>: machine integers, the functions of \<^verbatim>\<open>strings\<close> and \<^verbatim>\<open>fmt\<close> that the sources call, byte order.
  \<^item> \<open>Go_Net\<close>: the parsing and masking functions of Go's package \<^verbatim>\<open>net\<close>, IPv4 and IPv6. Both theories are
    standard library, so they stand for no file of the repository, as is \<open>Go_Flag\<close>, the package \<^verbatim>\<open>flag\<close>.
  \<^item> \<open>Policy_Compiler\<close>: \<^verbatim>\<open>pkg/compiler/dsl.go\<close> and \<^verbatim>\<open>compiler.go\<close>, the AST and \<^verbatim>\<open>Parse\<close>, \<^verbatim>\<open>Validate\<close>, \<^verbatim>\<open>Compile\<close>.
  \<^item> \<open>Atomic_Swap\<close>: \<^verbatim>\<open>pkg/compiler/atomic_swap.go\<close>, the interface \<^verbatim>\<open>BPFStager\<close> and \<^verbatim>\<open>ApplyPolicyAtomic\<close>.
  \<^item> \<open>Bpf_Maps\<close>: the key and value structures of \<^verbatim>\<open>pkg/bpf/*_bpf.go\<close>, the kernel's maps and the file system as a
    parameter with a contract, a reference kernel that meets it, and a kernel that records every world.
  \<^item> \<open>Identity\<close>: \<^verbatim>\<open>pkg/identity/cgroup.go\<close>. \<open>Loader\<close>: the map operations and queries of \<^verbatim>\<open>pkg/bpf/loader.go\<close>.
  \<^item> \<open>Reload_Trace\<close>: a reload as the list of worlds it passes through. \<open>Concurrent_Reload\<close>: reloads that take their calls in turns,
    with the mutex of \<^verbatim>\<open>MapSwapper\<close>.
  \<^item> \<open>Bindings\<close>: the object structures of the four files \<^verbatim>\<open>pkg/bpf/*_bpf.go\<close>, their loading and closing, and the contract of
    the operating system. \<open>Loader_Lifecycle\<close>: \<^verbatim>\<open>NewFirewallLoader\<close>, \<^verbatim>\<open>LoadSockops\<close> and \<^verbatim>\<open>Close\<close> of \<^verbatim>\<open>loader.go\<close>.
  \<^item> \<open>Xdp_Program\<close>: \<^verbatim>\<open>bpf/xdp_firewall.c\<close> on the bytes of a packet. \<open>Tc_Program\<close>: \<^verbatim>\<open>bpf/tc_firewall.c\<close> with
    \<^verbatim>\<open>state_machine.h\<close>. \<open>Sock_Programs\<close>: \<^verbatim>\<open>bpf/sockops_identity.c\<close> and \<^verbatim>\<open>bpf/proxy_redirect.c\<close>.
  \<^item> \<open>Observability\<close>: \<^verbatim>\<open>pkg/observability\<close> and the loop \<^verbatim>\<open>ReadRingbuf\<close>. \<open>Conntrack\<close>: \<^verbatim>\<open>pkg/conntrack/table.go\<close>.
  \<^item> \<open>Security\<close>: \<^verbatim>\<open>pkg/security\<close>, roles, peer credentials, capabilities.
  \<^item> \<open>Control\<close>: \<^verbatim>\<open>pkg/control\<close>, the server's request handling and the client. \<open>Accept_Loop\<close>: the server's \<^verbatim>\<open>Start\<close>.
  \<^item> \<open>Firewall\<close>: the verdict a policy asks for, and the active policy as a transition system.
  \<^item> \<open>Agent\<close>, \<open>Ctl\<close> and \<open>Tui\<close>: the main programs \<^verbatim>\<open>cmd/firewall-agent\<close>, \<^verbatim>\<open>cmd/firewall-ctl\<close> and \<^verbatim>\<open>cmd/firewall-tui\<close>.
  \<^item> \<open>Example_Run\<close>: one policy loaded into the reference kernel step by step, for the witnesses.

  \<^bold>\<open>State and operations.\<close> A Go struct is a record and a method is a function that returns its error and the new
  state. Everything outside the repository is an argument: the maps and the file system (a value of \<open>'w kernel\<close>
  over a world \<open>'w\<close>), the YAML and JSON decoders, the system calls for capabilities and peer credentials. Errors are
  datatypes with one constructor per message, and a function for the text where a caller shows it. A run-time panic of
  the loader is the constructor \<open>RuntimePanic\<close>. Methods run under their mutex, so each is one function; what other
  processors see in between is the subject of \<open>Reload_Trace\<close>, and that one mutex makes reloads serial, of \<open>Concurrent_Reload\<close>. The server handles connections in separate goroutines;
  \<open>serve\<close> serves them in the order in which they get the swapper's mutex. The goroutines of the agent are a sequence of
  inputs in any order: reads of the ring buffer, ticks, connections, a signal (\<open>agent_step\<close>, \<open>run_agent\<close>). What the control server does to the maps
  between the steps of the start-up, and between the calls of the configured reload, is a parameter of the start-up (\<open>schedule\<close>). A signal stops all
  goroutines in one step; that the accept loop ends on cancellation and removes the socket is in \<open>Accept_Loop\<close>. Handles of the BPF library are numbers, nil is \<open>None\<close>. The terminal UI is
  its function \<open>Update\<close> on messages and its function \<open>View\<close>, where a panic of a slice or index expression is the value \<open>None\<close>;
  the table, the text input and the drawing functions of its libraries are the record \<open>widgets\<close>.

  \<^bold>\<open>Interfaces.\<close> \<open>bpf_hash\<close> and \<open>bpf_kernel\<close> say what a map and the kernel promise: a successful call changes one entry, a
  failed one none, deletion fails only for a missing key, iteration shows every entry, a trie lookup returns the longest
  matching prefix and refuses keys of more than 64 bits. \<open>bpf_stager\<close> is what the swapper needs of a
  stager; that the loader meets it over every kernel of the contract is a sublocale. \<open>stager_invariant\<close> and
  \<open>stager_sim\<close> carry invariants and simulations through a reload, \<open>event_log\<close> is what the ring-buffer loop needs of a
  store, \<open>cap_proc\<close> what \<^verbatim>\<open>capset\<close> promises: it changes one thread, and only capabilities that the kernel knows. \<open>os_contract\<close> says which handles, pins, disciplines and filters the calls of the
  operating system create and remove, and that a failed call changes nothing. \<open>os_journal\<close> extends it by a predicate on worlds that is lost when a clean-up call fails
  that had something to clean up; the theorems about clean-up assume it of the world at the end of the run, since the code ignores these failures. The reference kernel,
  process and system show that the contracts can be met.

  \<^bold>\<open>What is shown.\<close> The compiler accepts exactly the well-formed policies, reports the first defect, and expands
  every rule. A successful reload installs exactly the compiled policy in the next generation, a failed one changes
  nothing that is active; at every moment in between a packet meets the old or the new policy. After a reload the
  verdict on every packet is the one read off the policy's rules. Only an admin's or operator's request can change
  the maps, every step of the server is a reload step of the abstract system, and a success response is true. The event
  store, the filter, the event decoder, the connection mirror, the statistics and the capability handling do
  what their descriptions say, except for the deviations stated as theorems of their own: the ignored actions of
  CIDR and cgroup rules, the ignored default action, the window after a purge, the panic on IPv6 removal, the
  shifted cgroup ID, and two naming slips of the server.

  When no clean-up call fails, the loader opens everything or leaves nothing open, and closing it takes back what it attached. The agent comes up exactly when
  its loader and its CIDR rule succeed, enforces its configured policy if no other reload overlaps the configured one, moves its policy only by reload steps in every
  interleaving once it runs, and cleans up after a signal. The server's start-up returns exactly on a listening error or on cancellation. The command-line client exits with
  success exactly when its request succeeded. Reloads through one swapper are serial, those through two are not. The terminal UI keeps its invariant and never panics. The TC program drops exactly
  the segments outside tracked connections and keeps a connection open until FIN, RST or eviction; the first FIN cuts it off. With the documented byte order no message is
  redirected to its peer. Further deviations are lemmas of their theories: a failed reader or a bad CIDR rule
  leaves the filter behind, a failed close leaves the rest open, and three slips of the UI.

  \<^bold>\<open>Bounds.\<close> No definition uses fuel; the loops of the parsers terminate by a measure, and all others by structural
  recursion on the data they run over. The accept loop may run for ever and is a partial function, with a theorem for when it returns.
  A reload among other goroutines is run for as many calls as it can make (\<open>reload_calls\<close>), after which it has finished whatever they do (\<open>reload_among_returns\<close>).
  Generations, counters and IDs are words of their width and wrap around.

  \<^bold>\<open>Not modelled.\<close> The test harness \<^verbatim>\<open>pkg/harness\<close> and the scripts, which run external commands; JSON and YAML decoding, the BPF
  library and the UI libraries, which are parameters; the texts that the server logs; the unused \<^verbatim>\<open>Specs\<close> types of the generated files.
  Next in the plan are packets between the calls of two reloads, and the events of the TC and socket programs in the agent's ring
  buffer.
\<close>

section \<open>From the policy to the packet\<close>

text \<open>C1: After a successful reload the XDP program gives every packet the verdict that the rules of the policy ask
  for: drop a packet from a listed cgroup or a listed network, otherwise follow the last rule for its
  destination port and protocol, otherwise pass.\<close>

theorem policy_governs_packets:
  assumes "bpf_kernel K view inode" and "lpm_wf (view w)" and "Compile p = Inr cp"
    and "ApplyPolicyAtomic (loader_stager K) cp w = ((g, None), w')"
  shows "\<exists>ids. resolved (path_denotes inode) cp ids \<and>
    (\<forall>ctx pkt st. fst (xdp_firewall_func (reads_of K w') ctx pkt st) =
       policy_verdict (ps_Rules (p_Spec p)) ids (xc_cgroup_id ctx) pkt)"
  using assms by (rule bpf_kernel.xdp_after_reload)

theorem policy_governs_packets_witness:
  "\<exists>ids. resolved (path_denotes ref_inode) ex_compiled ids \<and>
    (\<forall>ctx pkt st. fst (xdp_firewall_func (reads_of ref_kernel ex_loaded) ctx pkt st) =
       policy_verdict [ex_rule] ids (xc_cgroup_id ctx) pkt)"
  using policy_governs_packets [OF ex_kernel ex_wf ex_compile ex_apply] by (simp add: ex_policy_def)

text \<open>C2: A successful reload never shows a mixed policy. The worlds that the calls into the kernel leave behind fall
  into two parts: in each world of the first part every packet gets the verdict it got before the
  reload, in each world of the second part the verdict of the new policy.\<close>

theorem reload_never_mixes:
  assumes "bpf_kernel K view inode" and "lpm_wf (view w)" and "Compile p = Inr cp"
    and "ApplyPolicyAtomic (loader_stager (traced K)) cp (w, []) = ((g, None), (w', l))"
  shows "\<exists>ids l1 l2. resolved (path_denotes inode) cp ids \<and> l = l1 @ l2 \<and> l2 \<noteq> [] \<and>
    (\<forall>x \<in> set l1. \<forall>ctx pkt st. fst (xdp_firewall_func (reads_of K x) ctx pkt st) =
       fst (xdp_firewall_func (reads_of K w) ctx pkt st)) \<and>
    (\<forall>x \<in> set l2. \<forall>ctx pkt st. fst (xdp_firewall_func (reads_of K x) ctx pkt st) =
       policy_verdict (ps_Rules (p_Spec p)) ids (xc_cgroup_id ctx) pkt)"
  using assms by (rule bpf_kernel.xdp_during_reload)

theorem reload_never_mixes_witness:
  "\<exists>l ids l1 l2. ApplyPolicyAtomic (loader_stager (traced ref_kernel)) ex_compiled (ex_start, []) = ((1, None), (ex_loaded, l)) \<and>
    resolved (path_denotes ref_inode) ex_compiled ids \<and> l = l1 @ l2 \<and> l2 \<noteq> [] \<and>
    (\<forall>x \<in> set l1. \<forall>ctx pkt st. fst (xdp_firewall_func (reads_of ref_kernel x) ctx pkt st) =
       fst (xdp_firewall_func (reads_of ref_kernel ex_start) ctx pkt st)) \<and>
    (\<forall>x \<in> set l2. \<forall>ctx pkt st. fst (xdp_firewall_func (reads_of ref_kernel x) ctx pkt st) =
       policy_verdict (ps_Rules (p_Spec ex_policy)) ids (xc_cgroup_id ctx) pkt)"
proof -
  from ex_traced obtain l where
    l: "ApplyPolicyAtomic (loader_stager (traced ref_kernel)) ex_compiled (ex_start, []) = ((1, None), (ex_loaded, l))" ..
  from reload_never_mixes [OF ex_kernel ex_wf ex_compile l] l show ?thesis by blast
qed

text \<open>C3: A failed reload is invisible: in every world it passes through, and so in the one it ends in, every packet gets
  the verdict it got before.\<close>

theorem failed_reload_invisible:
  assumes "bpf_kernel K view inode" and "lpm_wf (view w)"
    and "ApplyPolicyAtomic (loader_stager (traced K)) cp (w, []) = ((g, Some e), (w', l))"
  shows "\<forall>x \<in> set l. \<forall>ctx pkt st. fst (xdp_firewall_func (reads_of K x) ctx pkt st) =
    fst (xdp_firewall_func (reads_of K w) ctx pkt st)"
  using assms by (rule bpf_kernel.xdp_failed_reload)

theorem failed_reload_invisible_witness:
  "\<exists>l. ApplyPolicyAtomic (loader_stager (traced ref_kernel)) ex_bad (ex_start, []) =
      ((0, Some (CIDRStagingFailed ''x'' 8 (InvalidCIDROrIPv4 ''x''))), (ex_start, l)) \<and>
    (\<forall>x \<in> set l. \<forall>ctx pkt st. fst (xdp_firewall_func (reads_of ref_kernel x) ctx pkt st) =
      fst (xdp_firewall_func (reads_of ref_kernel ex_start) ctx pkt st))"
proof -
  from ex_traced_bad obtain l where l: "ApplyPolicyAtomic (loader_stager (traced ref_kernel)) ex_bad (ex_start, []) =
      ((0, Some (CIDRStagingFailed ''x'' 8 (InvalidCIDROrIPv4 ''x''))), (ex_start, l))" ..
  from failed_reload_invisible [OF ex_kernel ex_wf l] l show ?thesis by blast
qed

text \<open>C4: A successful reload moves to the next generation (counting modulo 2 to the 32), which then holds exactly the
  rules of the compiled policy; the old generation is empty and every other generation is as before.\<close>

theorem reload_installs_exactly:
  assumes "bpf_kernel K view inode" and "ApplyPolicyAtomic (loader_stager K) cp w = ((g, None), w')"
  shows "g = v_gen (view w) + 1 \<and> v_gen (view w') = g \<and> (\<exists>ids. resolved (path_denotes inode) cp ids \<and>
    rules_of (view w') = (rules_of (view w))(v_gen (view w) := no_rules, g := policy_rules cp ids))"
  using assms by (rule bpf_kernel.apply_ok_view)

theorem reload_installs_exactly_witness:
  "v_gen (ref_view ex_loaded) = 1 \<and> (\<exists>ids. resolved (path_denotes ref_inode) ex_compiled ids \<and>
    rules_of (ref_view ex_loaded) 1 = policy_rules ex_compiled ids)"
  using reload_installs_exactly [OF ex_kernel ex_apply] by auto

text \<open>C5: A reload that fails at any step returns the old generation as active, leaves it active with all its rules,
  and leaves the next generation empty.\<close>

theorem failed_reload_rolls_back:
  assumes "bpf_kernel K view inode" and "ApplyPolicyAtomic (loader_stager K) cp w = ((g, Some e), w')"
  shows "g = v_gen (view w) \<and> v_gen (view w') = g \<and> rules_of (view w') = (rules_of (view w))(g + 1 := no_rules)"
  using assms by (rule bpf_kernel.apply_err_view)

theorem failed_reload_rolls_back_witness:
  "rules_of (ref_view ex_start) = (rules_of (ref_view ex_start))(1 := no_rules)"
  using failed_reload_rolls_back [OF ex_kernel ex_apply_bad] by simp

text \<open>C39: The purge of the old generation opens a window: a packet whose program read the generation before the switch
  and looks up the tables after the reload is passed, whatever the old and the new policy say.\<close>

theorem stale_generation_passes:
  assumes "bpf_kernel K view inode" and "lpm_wf (view w)"
    and "ApplyPolicyAtomic (loader_stager K) cp w = ((g, None), w')"
  shows "fst (xdp_firewall_func (reads_split K w w') ctx pkt st) = XDP_PASS"
  using assms by (rule bpf_kernel.xdp_stale_generation)

theorem stale_generation_passes_witness:
  "\<forall>ctx pkt st. fst (xdp_firewall_func (reads_split ref_kernel ex_start ex_loaded) ctx pkt st) = XDP_PASS"
  using stale_generation_passes [OF ex_kernel ex_wf ex_apply] by blast

text \<open>Every reload, successful or not, keeps the prefixes of the trie within 32 to 64 bits, so that no entry of one
  generation can match a packet checked against another.\<close>

theorem reload_keeps_prefixes:
  assumes "bpf_kernel K view inode" and "lpm_wf (view w)"
  shows "lpm_wf (view (snd (ApplyPolicyAtomic (loader_stager K) cp w)))"
proof -
  have "stager_invariant (loader_stager K) (\<lambda>w. lpm_wf (view w))"
    using assms(1) by (rule bpf_kernel.wf_invariant)
  from stager_invariant.apply_keeps [OF this, of w] assms(2) show ?thesis by simp
qed

theorem reload_keeps_prefixes_witness: "lpm_wf (ref_view ex_loaded)"
  using reload_keeps_prefixes [OF ex_kernel ex_wf, of ex_compiled] by (simp add: ex_apply)

text \<open>The default action of a policy has no effect: two policies that differ only in it, both valid, cause the same
  reload on every stager.\<close>

theorem default_action_not_enforced:
  assumes "Compile p = Inr cp" and "Compile (p\<lparr>p_Spec := (p_Spec p)\<lparr>ps_DefaultAction := d\<rparr>\<rparr>) = Inr cp'"
  shows "ApplyPolicyAtomic S cp' s = ApplyPolicyAtomic S cp s"
proof -
  from assms have "cp' = cp\<lparr>cpol_DefaultAction := cpol_DefaultAction cp'\<rparr>" by (auto simp: Compile_Inr)
  with ApplyPolicyAtomic_default [where cp = cp and d = "cpol_DefaultAction cp'"] show ?thesis by metis
qed

theorem default_action_not_enforced_witness:
  "\<exists>cp'. Compile (ex_policy\<lparr>p_Spec := (p_Spec ex_policy)\<lparr>ps_DefaultAction := ''deny''\<rparr>\<rparr>) = Inr cp' \<and>
     ApplyPolicyAtomic (loader_stager ref_kernel) cp' ex_start = ((1, None), ex_loaded)"
proof -
  have "wf_policy ex_policy" using ex_compile by (simp add: Compile_Inr)
  then have "wf_policy (ex_policy\<lparr>p_Spec := (p_Spec ex_policy)\<lparr>ps_DefaultAction := ''deny''\<rparr>\<rparr>)"
    by (simp add: wf_policy_def)
  then obtain cp' where cp': "Compile (ex_policy\<lparr>p_Spec := (p_Spec ex_policy)\<lparr>ps_DefaultAction := ''deny''\<rparr>\<rparr>) = Inr cp'"
    using Compile_Inr by blast
  from default_action_not_enforced [OF ex_compile cp'] cp' ex_apply show ?thesis by metis
qed

text \<open>A rule with the action \<^verbatim>\<open>allow\<close> and a source network drops the packets of that network: the action of a CIDR rule
  is not stored, and the program drops on every match.\<close>

theorem allow_rule_with_network_drops:
  assumes "bpf_kernel K view inode" and "lpm_wf (view w)" and "Compile p = Inr cp"
    and "ApplyPolicyAtomic (loader_stager K) cp w = ((g, None), w')"
    and "r \<in> set (ps_Rules (p_Spec p))" and "norm_word (r_Action r) = ''allow''"
    and "s \<in> set (r_SrcCIDRs r)" and "in_network s (ip_saddr pkt)" and "is_ipv4 pkt"
  shows "fst (xdp_firewall_func (reads_of K w') ctx pkt st) = XDP_DROP"
proof -
  from bpf_kernel.xdp_after_reload [OF assms(1-4)] obtain ids where
    "fst (xdp_firewall_func (reads_of K w') ctx pkt st) = policy_verdict (ps_Rules (p_Spec p)) ids (xc_cgroup_id ctx) pkt"
    by blast
  with assms(5,7,8,9) show ?thesis by (auto simp: policy_verdict_def)
qed

theorem allow_rule_with_network_drops_witness:
  "fst (xdp_firewall_func (reads_of ref_kernel ex_allow_loaded)
     \<lparr>xc_cgroup_id = 0, xc_ktime = 0, xc_ring_space = True\<rparr> ex_packet None) = XDP_DROP"
proof -
  let ?r = "\<lparr>r_ID = 7, r_Name = ''lan'', r_Action = ''allow'', r_SrcCIDRs = [''10.0.0.0/8''], r_DstPorts = [],
    r_Protocols = [], r_SrcCgroups = []\<rparr>"
  have "?r \<in> set (ps_Rules (p_Spec ex_allow))" by (simp add: ex_allow_def)
  from allow_rule_with_network_drops [OF ex_kernel ex_wf ex_allow_compile ex_allow_apply this _ _ ex_packet_in ex_packet_source(2)]
  show ?thesis by simp
qed

section \<open>The loader\<close>

text \<open>Staging a CIDR text never panics. It succeeds only if the text denotes an IPv4 network, and then adds exactly one
  entry, under the generation asked for; when it fails, the maps are unchanged.\<close>

theorem stage_cidr_outcomes:
  assumes "bpf_kernel K view inode" and "StageCIDRRule K w g s i a = (e, w')"
  shows "e \<noteq> Some RuntimePanic \<and>
    (case e of
       None \<Rightarrow> \<exists>p ad. cidr_entry s = Some (p, ad) \<and>
         view w' = (view w)\<lparr>v_lpm := (v_lpm (view w))(\<lparr>lpm_prefixlen = p, lpm_gen = g, lpm_addr = ad\<rparr> \<mapsto> i)\<rparr>
     | Some _ \<Rightarrow> view w' = view w)"
proof (cases e)
  case None
  with assms have "StageCIDRRule K w g s i a = (None, w')" by simp
  with assms(1) obtain p ad where "cidr_entry s = Some (p, ad)"
    "view w' = (view w)\<lparr>v_lpm := (v_lpm (view w))(\<lparr>lpm_prefixlen = p, lpm_gen = g, lpm_addr = ad\<rparr> \<mapsto> i)\<rparr>"
    by (rule bpf_kernel.StageCIDRRule_ok)
  with None show ?thesis by simp
next
  case (Some x)
  have "x \<noteq> RuntimePanic" using StageCIDRRule_no_panic [of K w g s i a] assms(2) Some by simp
  with Some assms bpf_kernel.StageCIDRRule_err [OF assms(1), of w g s i a x w'] show ?thesis by simp
qed

theorem stage_cidr_outcomes_witness:
  "\<exists>p ad. cidr_entry ''10.0.0.0/8'' = Some (p, ad) \<and>
     ref_view (ex_start\<lparr>rw_lpm := [(\<lparr>lpm_prefixlen = 40, lpm_gen = 1, lpm_addr = 10\<rparr>, 7)]\<rparr>) =
       (ref_view ex_start)\<lparr>v_lpm := (v_lpm (ref_view ex_start))(\<lparr>lpm_prefixlen = p, lpm_gen = 1, lpm_addr = ad\<rparr> \<mapsto> 7)\<rparr>"
  using stage_cidr_outcomes [OF ex_kernel ex_stage_cidr] by simp

text \<open>\<open>RemoveBlockCIDR\<close> panics exactly on the texts that parse as a network whose address is not IPv4; no other text
  makes it panic.\<close>

theorem remove_panics_on_ipv6:
  "fst (RemoveBlockCIDR K w s) = Some RuntimePanic \<longleftrightarrow>
     (\<exists>net. block_net s = Inr (Some net) \<and> To4 (net_IP net) = None)"
  by (rule RemoveBlockCIDR_panics)

text \<open>Adding a block to the active generation and removing it again succeeds and restores the maps, if the network
  was not blocked before.\<close>

theorem add_then_remove_block:
  assumes "bpf_kernel K view inode" and "AddBlockCIDR K w s i = (None, w1)"
    and "cidr_entry s = Some e" and "gr_cidr (rules_of (view w) (v_gen (view w))) e = None"
  shows "fst (RemoveBlockCIDR K w1 s) = None \<and> view (snd (RemoveBlockCIDR K w1 s)) = view w"
  using assms by (rule bpf_kernel.add_remove_block)

theorem add_then_remove_block_witness:
  "fst (RemoveBlockCIDR ref_kernel ex_blocked ''10.0.0.0/8'') = None \<and>
   ref_view (snd (RemoveBlockCIDR ref_kernel ex_blocked ''10.0.0.0/8'')) = ref_view ex_start"
  using add_then_remove_block [OF ex_kernel ex_add_block ex_entry ex_fresh] .

text \<open>\<open>ClearGenerationRules\<close> always reports success, empties the generation in all three maps and touches neither
  another generation nor the active one's number.\<close>

theorem clear_empties_generation:
  assumes "bpf_kernel K view inode" and "ClearGenerationRules K w g = (e, w')"
  shows "e = None \<and> v_gen (view w') = v_gen (view w) \<and> rules_of (view w') = (rules_of (view w))(g := no_rules)"
  using bpf_kernel.ClearGenerationRules_view [OF assms] assms(2) by (simp add: ClearGenerationRules_def)

theorem clear_empties_generation_witness:
  "rules_of (ref_view (snd (ClearGenerationRules ref_kernel ex_loaded 1))) =
     (rules_of (ref_view ex_loaded))(1 := no_rules)"
proof -
  have "ClearGenerationRules ref_kernel ex_loaded 1 = (None, snd (ClearGenerationRules ref_kernel ex_loaded 1))"
    by (simp add: ClearGenerationRules_def)
  from clear_empties_generation [OF ex_kernel this] show ?thesis by blast
qed

text \<open>Resolving a cgroup path gives the inode of the path or of its place under \<^verbatim>\<open>/sys/fs/cgroup\<close>, and leaves the policy
  maps alone even when it creates the directory.\<close>

theorem cgroup_resolution:
  assumes "bpf_kernel K view inode"
  shows "view (snd (GetCgroupID K p w)) = view w \<and>
    (case fst (GetCgroupID K p w) of
       Inr i \<Rightarrow> i = inode p \<or> i = inode (cgroup_target p) | Inl _ \<Rightarrow> True)"
  using bpf_kernel.GetCgroupID_view [OF assms, of p w] bpf_kernel.GetCgroupID_inode [OF assms, of p w]
  by (cases "GetCgroupID K p w") (auto split: sum.splits)

theorem cgroup_resolution_witness:
  "fst (GetCgroupID ref_kernel ''web'' ex_start) = Inr 18 \<and>
   ref_view (snd (GetCgroupID ref_kernel ''web'' ex_start)) = ref_view ex_start"
  using cgroup_resolution [OF ex_kernel, of "''web''" ex_start]
  by (simp add: GetCgroupID_def ex_numbers ref_kernel_def ex_start_def ref_inode_def)

text \<open>The totals of \<open>GetStats\<close> are the sums, modulo 2 to the 64, of the counters of all CPUs of both programs; a map
  that cannot be read counts as empty.\<close>

theorem stats_are_sums:
  "RxPackets (GetStats K w) = sum_list (map sv_rx_packets (concat (map (case_option [] id) [k_xdp_stats K w, k_tc_stats K w]))) \<and>
   RxBytes (GetStats K w) = sum_list (map sv_rx_bytes (concat (map (case_option [] id) [k_xdp_stats K w, k_tc_stats K w]))) \<and>
   PassPackets (GetStats K w) = sum_list (map sv_pass_packets (concat (map (case_option [] id) [k_xdp_stats K w, k_tc_stats K w]))) \<and>
   DropPackets (GetStats K w) = sum_list (map sv_drop_packets (concat (map (case_option [] id) [k_xdp_stats K w, k_tc_stats K w])))"
  by (cases "k_xdp_stats K w"; cases "k_tc_stats K w") (simp_all add: GetStats_def add_cpus_sum zero_stats_def)

text \<open>A network written as an address and a prefix length of at most 32 matches a source exactly when the first
  bits of the two addresses agree.\<close>

theorem printed_network_matches:
  assumes "n \<le> 32"
  shows "in_network (IP4_String [a, b, c, d] @ ''/'' @ dec n) src \<longleftrightarrow>
    take n (bits_of [a, b, c, d]) = take n (bits_of (le_bytes32 src))"
  using assms by (rule in_network_printed)

theorem printed_network_matches_witness: "in_network ''10.0.0.0/8'' 0x0302010A"
proof -
  have "in_network (IP4_String [10, 0, 0, 0] @ ''/'' @ dec 8) 0x0302010A"
    by (subst printed_network_matches) (simp_all add: le_bytes32_def drop_bit_eq_div)
  then show ?thesis by (simp only: ex_text)
qed

section \<open>The control server\<close>

text \<open>C7: A sequence of connections none of which is an \<^verbatim>\<open>apply_policy\<close> request of an admin or operator leaves the kernel
  exactly as it was, whatever the requests contain.\<close>

theorem only_authorised_change_maps:
  assumes "\<And>conn payload. (conn, payload) \<in> set cs \<Longrightarrow> \<not> authorised s conn payload"
  shows "snd (serve K unmarshal s cs w) = w"
  using assms by (rule serve_frame)

theorem only_authorised_change_maps_witness:
  "snd (serve ref_kernel ex_unmarshal ex_server [(ex_peer 1002, ex_request), (ex_peer 1002, DecodeEOF)] ex_start) = ex_start"
  by (rule only_authorised_change_maps) (auto simp: ex_authorised authorised_def [of _ _ DecodeEOF])

text \<open>C6: Over any sequence of connections the active generation and its rules move only along reload steps, one
  for each authorised request that was answered with success; and if only the active generation held
  rules before, the same is true afterwards.\<close>

theorem server_refines_reloads:
  assumes "bpf_kernel K view inode" and "serve K unmarshal s cs w = (rs, w')" and "srv_loader s \<noteq> None"
  shows "(reload_step inode ^^ reloads s cs rs) (active_policy (view w)) (active_policy (view w')) \<and>
    v_gen (view w') = v_gen (view w) + of_nat (reloads s cs rs) \<and>
    (only_active (view w) \<longrightarrow> only_active (view w'))"
  using bpf_kernel.serve_steps [OF assms] reload_steps_gen unfolding active_policy_def by blast

theorem server_refines_reloads_witness:
  "\<exists>rs. serve ref_kernel ex_unmarshal ex_server [(ex_peer 0, ex_request), (ex_peer 1002, ex_request)] ex_start = (rs, ex_loaded) \<and>
    (reload_step ref_inode ^^ reloads ex_server [(ex_peer 0, ex_request), (ex_peer 1002, ex_request)] rs)
      (active_policy (ref_view ex_start)) (active_policy (ref_view ex_loaded))"
proof -
  have 1: "snd (handleConnection ref_kernel ex_unmarshal ex_server (ex_peer 0) ex_request ex_start) = ex_loaded"
    using handle_authorised [OF ex_authorised(1), of ref_kernel ex_unmarshal ex_start]
    by (auto simp: ex_request_def ex_apply_policy)
  have 2: "snd (handleConnection ref_kernel ex_unmarshal ex_server (ex_peer 1002) ex_request ex_loaded) = ex_loaded"
    by (rule handle_frame [OF ex_authorised(2)])
  from 1 2 have
    "snd (serve ref_kernel ex_unmarshal ex_server [(ex_peer 0, ex_request), (ex_peer 1002, ex_request)] ex_start) = ex_loaded"
    by (auto split: prod.splits)
  then obtain rs where
    "serve ref_kernel ex_unmarshal ex_server [(ex_peer 0, ex_request), (ex_peer 1002, ex_request)] ex_start = (rs, ex_loaded)"
    by (metis prod.collapse)
  moreover have "srv_loader ex_server \<noteq> None" by (simp add: ex_server_def NewControlServer_def)
  ultimately show ?thesis using server_refines_reloads [OF ex_kernel] by blast
qed

text \<open>C8: A success response to an authorised request is true: the text it sent parses and compiles, the reported
  generation is the active one and holds exactly the rules of that policy, and the reported count is the
  number of staged entries.\<close>

theorem success_response_is_true:
  assumes "bpf_kernel K view inode" and "handleConnection K unmarshal s conn payload w = (Some r, w')"
    and "authorised s conn payload" and "srv_loader s \<noteq> None" and "rsp_Success r"
  shows "\<exists>req pol cp ids. payload = Decoded req \<and> unmarshal (req_PolicyYAML req) = Inr pol \<and> Compile pol = Inr cp \<and>
    v_gen (view w') = rsp_ActiveGeneration r \<and> resolved (path_denotes inode) cp ids \<and>
    rules_of (view w') (rsp_ActiveGeneration r) = policy_rules cp ids \<and>
    rsp_RulesCount r = length (cpol_CIDRBlocks cp) + length (cpol_CgroupBlocks cp) + length (cpol_PortRules cp)"
proof -
  from handle_authorised [OF assms(3), of K unmarshal w] assms(2) obtain req x where req: "payload = Decoded req"
    and x: "apply_policy K unmarshal s (req_PolicyYAML req) w = (x, w')" and r: "r = with_caller (peer_of s conn) x"
    by (metis option.inject prod.collapse prod.inject)
  from r assms(5) have "rsp_Success x" by simp
  from apply_policy_success [OF x this assms(4)] obtain pol cp where pol: "unmarshal (req_PolicyYAML req) = Inr pol"
    "Compile pol = Inr cp" and swap: "ApplyPolicyAtomic (loader_stager K) cp w = ((rsp_ActiveGeneration r, None), w')"
    and n: "rsp_RulesCount r = length (cpol_CIDRBlocks cp) + length (cpol_CgroupBlocks cp) + length (cpol_PortRules cp)"
    by (auto simp: r)
  from bpf_kernel.apply_ok_view [OF assms(1) swap] obtain ids where "resolved (path_denotes inode) cp ids"
    "v_gen (view w') = rsp_ActiveGeneration r" "rules_of (view w') (rsp_ActiveGeneration r) = policy_rules cp ids"
    by auto
  with req pol n show ?thesis by blast
qed

theorem success_response_is_true_witness:
  "\<exists>r. handleConnection ref_kernel ex_unmarshal ex_server (ex_peer 0) ex_request ex_start = (Some r, ex_loaded) \<and>
     v_gen (ref_view ex_loaded) = rsp_ActiveGeneration r"
proof -
  obtain r where r: "handleConnection ref_kernel ex_unmarshal ex_server (ex_peer 0) ex_request ex_start = (Some r, ex_loaded)"
    and ok: "rsp_Success r"
    using handle_authorised [OF ex_authorised(1), of ref_kernel ex_unmarshal ex_start]
    by (auto simp: ex_request_def ex_apply_policy)
  have "srv_loader ex_server \<noteq> None" by (simp add: ex_server_def NewControlServer_def)
  from success_response_is_true [OF ex_kernel r ex_authorised(1) this ok] r show ?thesis by blast
qed

text \<open>Every connection is answered, with the caller's credentials and role in the answer, unless it closes without a
  request; and a request that the role does not permit is answered with failure.\<close>

theorem connections_are_answered:
  "case fst (handleConnection K unmarshal s conn payload w) of
     None \<Rightarrow> payload = DecodeEOF
   | Some r \<Rightarrow> payload \<noteq> DecodeEOF \<and> rsp_CallerUID r = pi_UID (peer_of s conn) \<and>
       rsp_CallerPID r = pi_PID (peer_of s conn) \<and> rsp_CallerRole r = pi_Role (peer_of s conn) \<and>
       (\<forall>req. payload = Decoded req \<and> EvaluatePermission (pi_Role (peer_of s conn)) (req_Command req) \<noteq> None \<longrightarrow>
          \<not> rsp_Success r)"
proof (cases payload)
  case (Decoded req)
  then show ?thesis
    by (cases "EvaluatePermission (pi_Role (peer_of s conn)) (req_Command req)")
      (auto simp: handleConnection_def with_caller_def error_response_def zero_response_def Let_def split: prod.splits)
qed (simp_all add: handleConnection_def with_caller_def Let_def)

theorem connections_are_answered_witness:
  "\<exists>r. fst (handleConnection ref_kernel ex_unmarshal ex_server (ex_peer 1002) ex_request ex_start) = Some r \<and>
     rsp_CallerUID r = 1002 \<and> \<not> rsp_Success r"
proof -
  have "EvaluatePermission RoleViewer ''apply_policy'' \<noteq> None"
    by (simp add: EvaluatePermission_def ToLower_apply role_defs)
  moreover have "pi_UID (peer_of ex_server (ex_peer 1002)) = 1002"
    by (simp add: peer_of_def ex_peer_def GetPeerCredentials_def)
  ultimately show ?thesis
    using connections_are_answered [where K = ref_kernel and unmarshal = ex_unmarshal and s = ex_server
        and conn = "ex_peer 1002" and payload = ex_request and w = ex_start]
    by (auto simp: ex_request_def ex_roles split: option.splits)
qed

text \<open>The permission check folds the case of a command and the dispatcher does not: \<^verbatim>\<open>APPLY_POLICY\<close> is permitted to an
  admin and then refused as unknown, without an effect.\<close>

theorem upper_case_command_refused:
  "EvaluatePermission RoleAdmin ''APPLY_POLICY'' = None \<and>
   processRequest K unmarshal s \<lparr>req_Command = ''APPLY_POLICY'', req_PolicyYAML = y\<rparr> w =
     (error_response ''unknown command: APPLY_POLICY'', w)"
proof -
  have "ToLower ''APPLY_POLICY'' = ''apply_policy''" by code_simp
  then show ?thesis by (simp add: EvaluatePermission_def processRequest_def)
qed

text \<open>The names that the server gives to the kernel's connection states differ from those of the mirror, which follow
  \<^verbatim>\<open>state_machine.h\<close>: an established connection (3) is reported as closed, a closed one (5) as unknown.\<close>

theorem server_misnames_states:
  "table_state_name 3 = ''ESTABLISHED'' \<and> flow_state_name 3 = ''CLOSED'' \<and>
   table_state_name 5 = ''CLOSED'' \<and> flow_state_name 5 = ''UNKNOWN'' \<and>
   table_state_name 1 = ''SYN_SENT'' \<and> flow_state_name 1 = ''SYN_SENT''"
  by (simp add: table_state_name_def flow_state_name_def)

end
